(* ===== verification/Prelude.thy ===== *)
theory Prelude
  imports Main
begin

section \<open>Prelude: the JavaScript string and number operations the components share\<close>

text \<open>
  What the JavaScript sources use of the language's own library, as HOL functions that compute:
  numbers with their NaN value, the 32-bit conversion behind the bitwise operators, decimal
  printing, \<open>padStart\<close>, \<open>startsWith\<close>, \<open>endsWith\<close>, \<open>indexOf\<close>, \<open>split\<close> and the reading of an
  array outside its range. Two collections carry the component proofs: \<open>js_simps\<close> for the string
  and number operations and \<open>dom_simps\<close> for the effects of the document operations.
\<close>

named_theorems js_simps
named_theorems dom_simps

unbundle bit_operations_syntax

subsection \<open>Numbers\<close>

text \<open>
  The integers and NaN: every number the modelled integer code computes is one of them. \<open>to_int32\<close>
  is the conversion ECMAScript applies to the operands of \<open>&\<close>, \<open>|\<close>, \<open><<\<close>; \<open>>>>\<close> reads the same
  32 bits as an unsigned value. NaN converts to 0.
\<close>

datatype jsnum = NaN | Num int

fun to_int32 :: "jsnum \<Rightarrow> int" where
  "to_int32 NaN = 0"
| "to_int32 (Num k) = signed_take_bit 31 k"

definition js_and :: "jsnum \<Rightarrow> jsnum \<Rightarrow> jsnum" where
  "js_and a b = Num (to_int32 a AND to_int32 b)"

definition js_or :: "jsnum \<Rightarrow> jsnum \<Rightarrow> jsnum" where
  "js_or a b = Num (to_int32 a OR to_int32 b)"

definition js_shl :: "jsnum \<Rightarrow> nat \<Rightarrow> jsnum" where
  "js_shl a n = Num (signed_take_bit 31 (push_bit n (to_int32 a)))"

definition js_shr :: "jsnum \<Rightarrow> nat \<Rightarrow> jsnum" where
  "js_shr a n = Num (drop_bit n (take_bit 32 (to_int32 a)))"

fun js_add :: "jsnum \<Rightarrow> jsnum \<Rightarrow> jsnum" where
  "js_add (Num a) (Num b) = Num (a + b)"
| "js_add _ _ = NaN"

subsection \<open>Decimal printing\<close>

definition digit :: "nat \<Rightarrow> char" where
  "digit d = ''0123456789'' ! d"

fun nat_str :: "nat \<Rightarrow> string" where
  "nat_str n = (if n < 10 then [digit n] else nat_str (n div 10) @ [digit (n mod 10)])"

declare nat_str.simps [simp del]

definition int_str :: "int \<Rightarrow> string" where
  "int_str k = (if k < 0 then CHR ''-'' # nat_str (nat (- k)) else nat_str (nat k))"

fun num_str :: "jsnum \<Rightarrow> string" where
  "num_str NaN = ''NaN''"
| "num_str (Num k) = int_str k"

definition padStart :: "nat \<Rightarrow> char \<Rightarrow> string \<Rightarrow> string" where
  "padStart n c s = replicate (n - length s) c @ s"

text \<open>Reading a decimal back, the reference for the printing: the value of a digit string.\<close>

definition digit_val :: "char \<Rightarrow> nat" where
  "digit_val c = of_char c - 48"

definition str_nat :: "string \<Rightarrow> nat" where
  "str_nat s = foldl (\<lambda>a c. a * 10 + digit_val c) 0 s"

subsection \<open>Strings and arrays\<close>

definition startsWith :: "string \<Rightarrow> string \<Rightarrow> bool" where
  "startsWith s p \<longleftrightarrow> take (length p) s = p"

definition endsWith :: "string \<Rightarrow> string \<Rightarrow> bool" where
  "endsWith s p \<longleftrightarrow> length p \<le> length s \<and> drop (length s - length p) s = p"

fun contains :: "string \<Rightarrow> string \<Rightarrow> bool" where
  "contains [] p = (p = [])"
| "contains (c # s) p = (startsWith (c # s) p \<or> contains s p)"

text \<open>\<open>Array.prototype.indexOf\<close>: the first position, or -1.\<close>

fun indexOf :: "'a list \<Rightarrow> 'a \<Rightarrow> int" where
  "indexOf [] x = -1"
| "indexOf (y # ys) x = (if y = x then 0 else (let i = indexOf ys x in if i < 0 then -1 else i + 1))"

text \<open>\<open>xs[i]\<close>: \<open>undefined\<close> (\<open>None\<close>) outside the range.\<close>

definition at :: "'a list \<Rightarrow> int \<Rightarrow> 'a option" where
  "at xs i = (if 0 \<le> i \<and> i < int (length xs) then Some (xs ! nat i) else None)"

text \<open>\<open>s.split(c)\<close> for a one-character separator: never empty.\<close>

fun split_on :: "char \<Rightarrow> string \<Rightarrow> string list" where
  "split_on c [] = [[]]"
| "split_on c (x # xs) =
     (if x = c then [] # split_on c xs
      else (case split_on c xs of [] \<Rightarrow> [[x]] | w # ws \<Rightarrow> (x # w) # ws))"

text \<open>\<open>String.prototype.trim\<close>'s and \<open>\s\<close>'s white space, in ASCII.\<close>

definition is_space :: "char \<Rightarrow> bool" where
  "is_space c \<longleftrightarrow> c \<in> {CHR '' '', CHR 0x09, CHR 0x0A, CHR 0x0B, CHR 0x0C, CHR 0x0D}"

subsection \<open>Facts on the 32-bit operations\<close>

text \<open>On operands below $2^{31}$ the bitwise operators are arithmetic on natural numbers.\<close>

lemma and_shifted_mask: "b AND push_bit k (mask n) = push_bit k (take_bit n (drop_bit k b))" for b :: int
  by (rule bit_eqI) (auto simp: bit_simps)

lemma signed_take_bit_small: "0 \<le> x \<Longrightarrow> x < 2 ^ 31 \<Longrightarrow> signed_take_bit 31 x = x" for x :: int
  by (rule signed_take_bit_int_eq_self) simp_all

lemma signed_wrap:
  fixes x :: int
  assumes "2 ^ 31 \<le> x" "x < 2 ^ 32"
  shows "signed_take_bit 31 x = x - 2 ^ 32"
proof -
  have "(x + 2 ^ 31) mod 2 ^ 32 = (x + 2 ^ 31 - 2 ^ 32) mod 2 ^ 32"
    by (rule minus_mod_self2 [symmetric])
  also have "\<dots> = x + 2 ^ 31 - 2 ^ 32"
    using assms by (intro mod_pos_pos_trivial) simp_all
  finally show ?thesis
    by (simp add: signed_take_bit_eq_take_bit_shift take_bit_eq_mod)
qed

lemma to_int32_small: "b < 2 ^ 31 \<Longrightarrow> to_int32 (Num (int b)) = int b"
  by (simp add: signed_take_bit_int_eq_self)

lemma field_bits:
  assumes b: "b < 2 ^ 31" and k: "k \<le> 31" "M = push_bit k (mask n)" "M < 2 ^ 31"
  shows "js_and (Num (int b)) (Num M) = Num (int (2 ^ k * (b div 2 ^ k mod 2 ^ n)))"
proof -
  have M0: "0 \<le> M" using k by (simp add: push_bit_eq_mult)
  have "int b AND M = int (2 ^ k * (b div 2 ^ k mod 2 ^ n))"
    unfolding k(2) and_shifted_mask
    by (simp add: push_bit_eq_mult take_bit_eq_mod drop_bit_eq_div zdiv_int zmod_int)
  moreover have "to_int32 (Num M) = M"
    using k(3) M0 by (simp add: signed_take_bit_int_eq_self)
  ultimately show ?thesis
    using b by (simp add: js_and_def to_int32_small del: to_int32.simps)
qed

lemma js_shr_nat: "b < 2 ^ 31 \<Longrightarrow> js_shr (Num (int b)) k = Num (int (b div 2 ^ k))"
  by (simp add: js_shr_def to_int32_small take_bit_int_eq_self drop_bit_eq_div zdiv_int del: to_int32.simps)

lemma js_shl_nat: "b * 2 ^ k < 2 ^ 31 \<Longrightarrow> js_shl (Num (int b)) k = Num (int (b * 2 ^ k))"
proof -
  assume a: "b * 2 ^ k < 2 ^ 31"
  have "b \<le> b * 2 ^ k" by simp
  with a have "b < 2 ^ 31" by linarith
  moreover have "int b * 2 ^ k < 2 ^ 31"
    using a by (simp flip: of_nat_less_iff [where 'a = int])
  ultimately show ?thesis
    by (simp add: js_shl_def to_int32_small push_bit_eq_mult signed_take_bit_small del: to_int32.simps)
qed

lemma js_or_nat:
  assumes "a < 2 ^ 31" "c < 2 ^ n" "n \<le> 31" "2 ^ n dvd a"
  shows "js_or (Num (int a)) (Num (int c)) = Num (int (a + c))"
proof -
  obtain q where q: "a = 2 ^ n * q" using assms(4) by auto
  have "(2::nat) ^ n \<le> 2 ^ 31" using power_increasing [OF assms(3), of "2 :: nat"] by simp
  then have c: "c < 2 ^ 31" using assms(2) by linarith
  have "int a OR int c = push_bit n (int q) OR take_bit n (int c)"
    using assms(2) by (simp add: q push_bit_eq_mult mult.commute take_bit_int_eq_self)
  also have "\<dots> = push_bit n (int q) + take_bit n (int c)"
    by (rule disjunctive_add_eq_or[symmetric]) (auto intro!: bit_eqI simp: bit_simps)
  also have "\<dots> = int (a + c)"
    using assms(2) by (simp add: q push_bit_eq_mult mult.commute take_bit_int_eq_self)
  finally show ?thesis
    using assms(1) c by (simp add: js_or_def to_int32_small del: to_int32.simps)
qed

lemma mod_small: "(x :: nat) mod n * k < m" if "0 < n" "n * k \<le> m" "0 < k"
  using that by (meson less_le_trans mod_less_divisor mult_less_mono1)

lemma field_shr:
  assumes "b < 2 ^ 31" "k \<le> 31" "M = push_bit k (mask n)" "M < 2 ^ 31"
  shows "js_shr (js_and (Num (int b)) (Num M)) k = Num (int (b div 2 ^ k mod 2 ^ n))"
proof -
  have "2 ^ k * (b div 2 ^ k mod 2 ^ n) \<le> 2 ^ k * (b div 2 ^ k)" by simp
  also have "\<dots> \<le> b" by (rule times_div_less_eq_dividend)
  finally have "2 ^ k * (b div 2 ^ k mod 2 ^ n) < 2 ^ 31" using assms(1) by linarith
  from js_shr_nat [OF this, of k] show ?thesis
    by (simp only: field_bits [OF assms]) simp
qed

lemma js_or_shl:
  assumes "a * 2 ^ n < 2 ^ 31" "c < 2 ^ n" "n \<le> 31"
  shows "js_or (js_shl (Num (int a)) n) (Num (int c)) = Num (int (a * 2 ^ n + c))"
  using assms by (simp only: js_shl_nat js_or_nat [where n = n] dvd_triv_right)

lemma js_add_nat: "js_add (Num (int a)) (Num (int b)) = Num (int (a + b))"
  by simp

lemma div_mod_low: "r < n \<Longrightarrow> (a * n + r) div n = a \<and> (a * n + r) mod n = r" for r :: nat
  by (cases "n = 0") (simp_all add: div_mult_self1)

subsection \<open>Facts on printing\<close>

lemma digit_range: "d < 10 \<Longrightarrow> d \<in> {0, 1, 2, 3, 4, 5, 6, 7, 8, 9}" for d :: nat
  by auto

lemma digit_val_digit [js_simps]: "d < 10 \<Longrightarrow> digit_val (digit d) = d"
  by (drule digit_range) (auto simp: digit_def digit_val_def)

lemma str_nat_snoc [js_simps]: "str_nat (s @ [c]) = str_nat s * 10 + digit_val c"
  by (simp add: str_nat_def)

lemma str_nat_nat_str [js_simps]: "str_nat (nat_str n) = n"
proof (induction n rule: nat_str.induct)
  case (1 n)
  show ?case
  proof (cases "n < 10")
    case True
    then show ?thesis
      by (simp add: nat_str.simps [of n] str_nat_def digit_val_digit)
  next
    case False
    with "1.IH" show ?thesis
      by (simp add: nat_str.simps [of n] js_simps)
  qed
qed

lemma num_str_nat [js_simps]: "num_str (Num (int n)) = nat_str n"
  by (simp add: int_str_def)

lemma nat_str_inj: "nat_str a = nat_str b \<Longrightarrow> a = b"
  by (metis str_nat_nat_str)

lemma nat_str_nonempty [simp]: "nat_str n \<noteq> []"
  by (subst nat_str.simps) simp

lemma length_nat_str_small: "n < 100 \<Longrightarrow> length (nat_str n) \<le> 2"
  by (auto simp: nat_str.simps [of n] nat_str.simps [of "n div 10"])

lemma length_padStart [simp]: "length (padStart n c s) = max n (length s)"
  by (simp add: padStart_def)

subsection \<open>Facts on arrays\<close>

lemma indexOf_ge: "-1 \<le> indexOf xs x"
  by (induction xs) (auto simp: Let_def)

lemma indexOf_less: "indexOf xs x < int (length xs)"
  by (induction xs) (auto simp: Let_def)

lemma indexOf_in: "x \<in> set xs \<Longrightarrow> 0 \<le> indexOf xs x"
  by (induction xs) (auto simp: Let_def)

lemma indexOf_notin: "x \<notin> set xs \<Longrightarrow> indexOf xs x = -1"
  by (induction xs) (auto simp: Let_def)

lemma indexOf_iff: "0 \<le> indexOf xs x \<longleftrightarrow> x \<in> set xs"
  using indexOf_in indexOf_notin by fastforce

lemma nth_indexOf: "x \<in> set xs \<Longrightarrow> xs ! nat (indexOf xs x) = x"
proof (induction xs)
  case (Cons y ys)
  show ?case
  proof (cases "y = x")
    case False
    with Cons have "x \<in> set ys" and IH: "ys ! nat (indexOf ys x) = x" by auto
    then have "0 \<le> indexOf ys x" by (simp add: indexOf_iff)
    with False IH show ?thesis by (simp add: Let_def nat_add_distrib)
  qed simp
qed simp

lemma indexOf_nth:
  "distinct xs \<Longrightarrow> i < length xs \<Longrightarrow> indexOf xs (xs ! i) = int i"
proof (induction xs arbitrary: i)
  case (Cons y ys)
  then show ?case by (cases i) (auto simp: Let_def)
qed simp

lemma at_Some_in: "at xs i = Some x \<Longrightarrow> x \<in> set xs"
  by (auto simp: at_def split: if_splits)

lemma at_in_range [simp]: "i < length xs \<Longrightarrow> at xs (int i) = Some (xs ! i)"
  by (simp add: at_def)

lemma split_on_nonempty [simp]: "split_on c s \<noteq> []"
  by (induction s) (auto split: list.splits)

subsection \<open>Folds and filters\<close>

lemma filter_only:
  "distinct xs \<Longrightarrow> b \<in> set xs \<Longrightarrow> (\<And>x. x \<in> set xs \<Longrightarrow> P x \<longleftrightarrow> x = b) \<Longrightarrow> filter P xs = [b]"
  by (induction xs) (auto simp: filter_empty_conv)

lemma fold_keeps: "(\<And>x w. P w \<Longrightarrow> P (f x w)) \<Longrightarrow> P w \<Longrightarrow> P (fold f xs w)"
  by (induction xs arbitrary: w) auto

lemma digit_char: "d < 10 \<Longrightarrow> 48 \<le> (of_char (digit d) :: nat) \<and> of_char (digit d) \<le> (57 :: nat)"
  by (drule digit_range) (auto simp: digit_def)

lemma nat_str_digits: "c \<in> set (nat_str n) \<Longrightarrow> 48 \<le> (of_char c :: nat) \<and> of_char c \<le> (57 :: nat)"
proof (induction n rule: nat_str.induct)
  case (1 n)
  then show ?case
    by (cases "n < 10") (auto simp: nat_str.simps [of n] digit_char)
qed

lemma split_on_append: "c \<notin> set s \<Longrightarrow> split_on c (s @ c # t) = s # split_on c t"
  by (induction s) auto

lemma split_on_none: "c \<notin> set s \<Longrightarrow> split_on c s = [s]"
  by (induction s) auto

subsection \<open>Sequences of steps\<close>

text \<open>A component that is driven by calls and moves of the browser: a step may throw (\<open>None\<close>), which ends the sequence.\<close>

fun run_steps :: "('m \<Rightarrow> 'w \<Rightarrow> 'w option) \<Rightarrow> 'm list \<Rightarrow> 'w \<Rightarrow> 'w option" where
  "run_steps step [] w = Some w"
| "run_steps step (m # ms) w = Option.bind (step m w) (run_steps step ms)"

lemma run_steps_append: "run_steps step (ms @ ns) w = Option.bind (run_steps step ms w) (run_steps step ns)"
proof (induction ms arbitrary: w)
  case (Cons m ms)
  then show ?case by (cases "step m w") simp_all
qed simp

text \<open>
  The contract of an invariant: every allowed step keeps it. Whatever allowed steps follow each other, it then
  holds at the end.
\<close>

locale step_invariant =
  fixes step :: "'m \<Rightarrow> 'w \<Rightarrow> 'w option" and allowed :: "'m \<Rightarrow> bool" and inv :: "'w \<Rightarrow> bool"
  assumes step_keeps: "inv w \<Longrightarrow> allowed m \<Longrightarrow> step m w = Some w' \<Longrightarrow> inv w'"
begin

lemma steps_keep: "inv w \<Longrightarrow> list_all allowed ms \<Longrightarrow> run_steps step ms w = Some w' \<Longrightarrow> inv w'"
proof (induction ms arbitrary: w)
  case (Cons m ms)
  then obtain w1 where "step m w = Some w1" "run_steps step ms w1 = Some w'"
    by (cases "step m w") auto
  with Cons step_keeps [of w m w1] show ?case by simp
qed simp

end

end
