(* ===== verification/Decompress.thy ===== *)
theory Decompress
  imports Path_List
begin

section \<open>The message decompressor of the JavaScript client (w3cdecompress.js)\<close>

text \<open>
  A compressed message is a JavaScript string, modelled as the list of its UTF-16 code units. Codes
  up to 127 stand for themselves; a code above 127 is an index into the keyword table, followed, for
  a time stamp, a path or a value, by the bytes of its payload. \<open>decompress_step\<close> is one iteration
  of the function's loop, \<open>decompress_loop\<close> the loop and \<open>decompressMessage\<close> the function.
  The current year (\<open>new Date().getFullYear()\<close>) and the printing of a float read by
  \<open>DataView.getFloat32\<close> are arguments.
\<close>

subsection \<open>Reading the message\<close>

definition charCodeAt :: "nat list \<Rightarrow> nat \<Rightarrow> jsnum" where
  "charCodeAt m i = (if i < length m then Num (int (m ! i)) else NaN)"

definition quote :: string where
  "quote = [CHR 0x22]"

definition colon_quote :: string where
  "colon_quote = [CHR 0x22, CHR '':'', CHR 0x22]"

subsection \<open>Time stamps\<close>

definition two :: "jsnum \<Rightarrow> string" where
  "two n = padStart 2 (CHR ''0'') (num_str n)"

definition timestamp :: "nat \<Rightarrow> jsnum \<Rightarrow> jsnum \<Rightarrow> jsnum \<Rightarrow> jsnum \<Rightarrow> string" where
  "timestamp year byte1 byte2 byte3 byte4 =
     (let yy = js_shr (js_and byte1 (Num 0b00111100)) 2;
          mm = js_or (js_shl (js_and byte1 (Num 0b00000011)) 2)
                     (js_shr (js_and byte2 (Num 0b11000000)) 6);
          dd = js_shr (js_and byte2 (Num 0b00111110)) 1;
          hh = js_or (js_shl (js_and byte2 (Num 0b00000001)) 4)
                     (js_shr (js_and byte3 (Num 0b11110000)) 4);
          MM = js_or (js_shl (js_and byte3 (Num 0b00001111)) 2)
                     (js_shr (js_and byte4 (Num 0b11000000)) 6);
          ss = js_and byte4 (Num 0b00111111)
      in num_str (js_add (Num (int (year div 10 * 10))) yy)
           @ ''-'' @ two mm @ ''-'' @ two dd @ ''T'' @ two hh @ '':'' @ two MM @ '':'' @ two ss @ ''Z'')"

subsection \<open>Values\<close>

text \<open>The width in bytes the type name asks for; 0 when no suffix matches.\<close>

definition num_vals :: "string \<Rightarrow> nat" where
  "num_vals testmsg =
     (if endsWith testmsg ''float'' then 4
      else if endsWith testmsg ''bool'' then 1
      else if endsWith testmsg ''int32'' then 4
      else if endsWith testmsg ''int24'' then 3
      else if endsWith testmsg ''int16'' then 2
      else if endsWith testmsg ''int8'' then 1
      else 0)"

text \<open>\<open>for (i = 0; i < numvals; i++) realval = (realval << 8) + message.charCodeAt(index + i)\<close>.\<close>

definition read_val :: "nat list \<Rightarrow> nat \<Rightarrow> nat \<Rightarrow> jsnum" where
  "read_val m index n =
     foldl (\<lambda>r i. js_add (js_shl r 8) (charCodeAt m (index + i))) (Num 0) [0..<n]"

definition value_text :: "(jsnum list \<Rightarrow> string) \<Rightarrow> nat list \<Rightarrow> nat \<Rightarrow> string \<Rightarrow> string" where
  "value_text getFloat32 m index testmsg =
     (let n = num_vals testmsg in
      if endsWith testmsg ''float'' then getFloat32 (map (\<lambda>i. charCodeAt m (index + i)) [0..<n])
      else (let realval = read_val m index n in
            if endsWith testmsg ''bool''
            then (if realval = Num 0 then ''false'' else ''true'')
            else num_str realval))"

text \<open>\<open>while (message.charCodeAt(index + i)) i = i + 1\<close>: stops at a zero code and at the end.\<close>

definition run_length :: "nat list \<Rightarrow> nat \<Rightarrow> nat" where
  "run_length m index = length (takeWhile (\<lambda>c. c \<noteq> 0) (drop index m))"

subsection \<open>The loop\<close>

text \<open>One iteration at \<open>index < message.length\<close>: the next index and the text appended.\<close>

definition decompress_step ::
  "nat \<Rightarrow> (jsnum list \<Rightarrow> string) \<Rightarrow> nat list \<Rightarrow> nat \<Rightarrow> nat \<times> string" where
  "decompress_step year getFloat32 m index =
     (let charmsg = m ! index in
      if charmsg > 127 then
        (let testmsg = keyword (charmsg - 128); k = charmsg - 128; index = index + 1 in
         if k = 3 then
           (index + 4,
            quote @ testmsg @ colon_quote
              @ timestamp year (charCodeAt m index) (charCodeAt m (index + 1))
                               (charCodeAt m (index + 2)) (charCodeAt m (index + 3)) @ quote)
         else if k = 4 then
           (let uuidindex = js_add (Num 0) (js_add (js_shl (Num 0) 8) (charCodeAt m (index + 1)));
                uuidindex = js_add uuidindex (charCodeAt m (index + 1))
            in (index + 2, quote @ testmsg @ colon_quote @ entry_str uuidlist uuidindex @ quote))
         else if k > 7 \<and> k < 13 then (index, quote @ testmsg @ quote)
         else if k > 12 \<and> k < 23 then
           (let sign = (if startsWith testmsg ''n'' then ''-'' else '''') in
            if num_vals testmsg \<noteq> 0
            then (index + num_vals testmsg,
                  quote @ sign @ value_text getFloat32 m index testmsg @ quote)
            else (index + run_length m index, quote @ sign @ quote))
         else if k \<noteq> 23 then (index, quote @ testmsg @ quote @ '':'')
         else (index, ''''))
      else (index + 1, [char_of charmsg]))"

lemma decompress_step_advances: "index < fst (decompress_step year f m index)"
  by (simp add: decompress_step_def Let_def)

function decompress_loop ::
  "nat \<Rightarrow> (jsnum list \<Rightarrow> string) \<Rightarrow> nat list \<Rightarrow> nat \<Rightarrow> string \<Rightarrow> string" where
  "decompress_loop year f m index finalMsg =
     (if index < length m
      then decompress_loop year f m (fst (decompress_step year f m index))
                           (finalMsg @ snd (decompress_step year f m index))
      else finalMsg)"
  by pat_completeness auto
termination
proof (relation "measure (\<lambda>(year, f, m, index, finalMsg). length m - index)")
  fix year f m index and finalMsg :: string
  assume "index < length (m :: nat list)"
  then show "((year, f, m, fst (decompress_step year f m index),
               finalMsg @ snd (decompress_step year f m index)), year, f, m, index, finalMsg)
             \<in> measure (\<lambda>(year, f, m, index, finalMsg). length m - index)"
    using decompress_step_advances [of index year f m] by simp
qed simp

declare decompress_loop.simps [simp del]

text \<open>\<open>replace(/ab/g, 'a,b')\<close> for a two-character pattern: left to right, without overlap.\<close>

fun insert_comma :: "char \<Rightarrow> char \<Rightarrow> string \<Rightarrow> string" where
  "insert_comma a b (x # y # s) =
     (if x = a \<and> y = b then [a, CHR '','', b] @ insert_comma a b s
      else x # insert_comma a b (y # s))"
| "insert_comma a b s = s"

definition add_commas :: "string \<Rightarrow> string" where
  "add_commas s = insert_comma (CHR ''}'') (CHR ''{'') (insert_comma (CHR 0x22) (CHR 0x22) s)"

definition decompressMessage :: "nat \<Rightarrow> (jsnum list \<Rightarrow> string) \<Rightarrow> nat list \<Rightarrow> string" where
  "decompressMessage year f m =
     ''{'' @ add_commas (decompress_loop year f m 0 '''') @ ''}''"

subsection \<open>The format as tokens\<close>

text \<open>
  The reference for the decoder: a compressed message is a sequence of tokens, each with its codes
  and with the JSON text it stands for. \<open>Stamp\<close> packs year-in-decade, month, day, hour, minute and
  second into four bytes; \<open>UInt\<close> is an integer keyword with its big-endian bytes.
\<close>

definition two_digits :: "nat \<Rightarrow> string" where
  "two_digits n = padStart 2 (CHR ''0'') (nat_str n)"

definition iso_text :: "nat \<Rightarrow> nat \<Rightarrow> nat \<Rightarrow> nat \<Rightarrow> nat \<Rightarrow> nat \<Rightarrow> string" where
  "iso_text y mo d h mi s =
     nat_str y @ ''-'' @ two_digits mo @ ''-'' @ two_digits d @ ''T''
       @ two_digits h @ '':'' @ two_digits mi @ '':'' @ two_digits s @ ''Z''"

definition stamp_codes :: "nat \<Rightarrow> nat \<Rightarrow> nat \<Rightarrow> nat \<Rightarrow> nat \<Rightarrow> nat \<Rightarrow> nat list" where
  "stamp_codes y mo d h mi s =
     [y * 4 + mo div 4, mo mod 4 * 64 + d * 2 + h div 16,
      h mod 16 * 16 + mi div 4, mi mod 4 * 64 + s]"

datatype token =
    Text nat
  | Key nat
  | Req nat
  | Stamp nat nat nat nat nat nat
  | Path nat nat
  | UInt nat "nat list"

definition be_val :: "nat list \<Rightarrow> nat" where
  "be_val bs = foldl (\<lambda>a b. a * 256 + b) 0 bs"

fun wf_token :: "token \<Rightarrow> bool" where
  "wf_token (Text c) = (c \<le> 127)"
| "wf_token (Key k) = (k \<notin> {3, 4} \<and> (k \<le> 7 \<or> 23 < k))"
| "wf_token (Req k) = (7 < k \<and> k < 13)"
| "wf_token (Stamp y mo d h mi s) = (y < 16 \<and> mo < 16 \<and> d < 32 \<and> h < 32 \<and> mi < 64 \<and> s < 64)"
| "wf_token (Path hi lo) = (lo < 256)"
| "wf_token (UInt k bs) = (14 < k \<and> k < 23 \<and> length bs = num_vals (keyword k) \<and> be_val bs < 2 ^ 31)"

fun token_codes :: "token \<Rightarrow> nat list" where
  "token_codes (Text c) = [c]"
| "token_codes (Key k) = [k + 128]"
| "token_codes (Req k) = [k + 128]"
| "token_codes (Stamp y mo d h mi s) = (3 + 128) # stamp_codes y mo d h mi s"
| "token_codes (Path hi lo) = [4 + 128, hi, lo]"
| "token_codes (UInt k bs) = (k + 128) # bs"

fun token_text :: "nat \<Rightarrow> token \<Rightarrow> string" where
  "token_text year (Text c) = [char_of c]"
| "token_text year (Key k) = quote @ keyword k @ quote @ '':''"
| "token_text year (Req k) = quote @ keyword k @ quote"
| "token_text year (Stamp y mo d h mi s) =
     quote @ keyword 3 @ colon_quote @ iso_text (year div 10 * 10 + y) mo d h mi s @ quote"
| "token_text year (Path hi lo) =
     quote @ keyword 4 @ colon_quote @ entry_str uuidlist (Num (int (2 * lo))) @ quote"
| "token_text year (UInt k bs) =
     quote @ (if startsWith (keyword k) ''n'' then ''-'' else '''') @ nat_str (be_val bs) @ quote"


subsection \<open>Decoding the fields\<close>

lemma two_nat [js_simps]: "two (Num (int n)) = two_digits n"
  by (simp add: two_def two_digits_def js_simps del: num_str.simps)

lemma masks:
  "0b00111100 = push_bit 2 (mask 4 :: int)" "0b00000011 = push_bit 0 (mask 2 :: int)"
  "0b11000000 = push_bit 6 (mask 2 :: int)" "0b00111110 = push_bit 1 (mask 5 :: int)"
  "0b00000001 = push_bit 0 (mask 1 :: int)" "0b11110000 = push_bit 4 (mask 4 :: int)"
  "0b00001111 = push_bit 0 (mask 4 :: int)" "0b00111111 = push_bit 0 (mask 6 :: int)"
  by (simp_all add: mask_eq_exp_minus_1 push_bit_eq_mult)

lemma timestamp_fields:
  assumes b: "b1 < 65536" "b2 < 65536" "b3 < 65536" "b4 < 65536"
  shows "timestamp year (Num (int b1)) (Num (int b2)) (Num (int b3)) (Num (int b4)) =
     iso_text (year div 10 * 10 + b1 div 4 mod 16) (b1 mod 4 * 4 + b2 div 64 mod 4)
       (b2 div 2 mod 32) (b2 mod 2 * 16 + b3 div 16 mod 16)
       (b3 mod 16 * 4 + b4 div 64 mod 4) (b4 mod 64)"
proof -
  have shifted: "js_shr (js_and (Num (int b1)) (Num 0b00111100)) 2 = Num (int (b1 div 2 ^ 2 mod 2 ^ 4))"
    "js_shr (js_and (Num (int b2)) (Num 0b11000000)) 6 = Num (int (b2 div 2 ^ 6 mod 2 ^ 2))"
    "js_shr (js_and (Num (int b2)) (Num 0b00111110)) 1 = Num (int (b2 div 2 ^ 1 mod 2 ^ 5))"
    "js_shr (js_and (Num (int b3)) (Num 0b11110000)) 4 = Num (int (b3 div 2 ^ 4 mod 2 ^ 4))"
    "js_shr (js_and (Num (int b4)) (Num 0b11000000)) 6 = Num (int (b4 div 2 ^ 6 mod 2 ^ 2))"
    using b by (intro field_shr masks; simp)+
  have low: "js_and (Num (int b1)) (Num 0b00000011) = Num (int (2 ^ 0 * (b1 div 2 ^ 0 mod 2 ^ 2)))"
    "js_and (Num (int b2)) (Num 0b00000001) = Num (int (2 ^ 0 * (b2 div 2 ^ 0 mod 2 ^ 1)))"
    "js_and (Num (int b3)) (Num 0b00001111) = Num (int (2 ^ 0 * (b3 div 2 ^ 0 mod 2 ^ 4)))"
    "js_and (Num (int b4)) (Num 0b00111111) = Num (int (2 ^ 0 * (b4 div 2 ^ 0 mod 2 ^ 6)))"
    using b by (intro field_bits masks; simp)+
  have or: "js_or (js_shl (Num (int (b1 mod 4))) 2) (Num (int (b2 div 64 mod 4)))
      = Num (int (b1 mod 4 * 2 ^ 2 + b2 div 64 mod 4))"
    "js_or (js_shl (Num (int (b2 mod 2))) 4) (Num (int (b3 div 16 mod 16)))
      = Num (int (b2 mod 2 * 2 ^ 4 + b3 div 16 mod 16))"
    "js_or (js_shl (Num (int (b3 mod 16))) 2) (Num (int (b4 div 64 mod 4)))
      = Num (int (b3 mod 16 * 2 ^ 2 + b4 div 64 mod 4))"
    by (intro js_or_shl; simp add: mod_small)+
  have low': "2 ^ 0 * (x div 2 ^ 0 mod n) = x mod n" for x n :: nat by simp
  have pows: "(2 :: nat) ^ 1 = 2" "(2 :: nat) ^ 2 = 4" "(2 :: nat) ^ 4 = 16" "(2 :: nat) ^ 5 = 32"
    "(2 :: nat) ^ 6 = 64" by simp_all
  show ?thesis
    by (simp only: timestamp_def Let_def shifted low low' pows or [unfolded pows] js_add_nat
        num_str_nat two_nat iso_text_def)
qed

lemma stamp_roundtrip:
  assumes "y < 16" "mo < 16" "d < 32" "h < 32" "mi < 64" "s < 64"
    and c: "stamp_codes y mo d h mi s = [b1, b2, b3, b4]"
  shows "timestamp year (Num (int b1)) (Num (int b2)) (Num (int b3)) (Num (int b4))
     = iso_text (year div 10 * 10 + y) mo d h mi s"
proof -
  have b: "b1 = y * 4 + mo div 4" "b2 = mo mod 4 * 64 + d * 2 + h div 16"
    "b3 = h mod 16 * 16 + mi div 4" "b4 = mi mod 4 * 64 + s"
    using c by (auto simp: stamp_codes_def)
  have m: "mo mod 4 < 4" "h mod 16 < 16" "mi mod 4 < 4" "mo div 4 < 4" "h div 16 < 2" "mi div 4 < 16"
    using assms by auto
  have "b1 < 65536" "b2 < 65536" "b3 < 65536" "b4 < 65536"
    unfolding b using assms m by linarith+
  moreover have "b1 div 4 = y" "b1 mod 4 = mo div 4" "b3 div 16 = h mod 16"
    "b3 mod 16 = mi div 4" "b4 div 64 = mi mod 4" "b4 mod 64 = s"
    using m assms(6) by (simp_all add: b)
  moreover have "b2 = (mo mod 4 * 32 + d) * 2 + h div 16" by (simp add: b)
  from div_mod_low [OF m(5), of "mo mod 4 * 32 + d", folded this]
  have "b2 div 2 mod 32 = d" "b2 mod 2 = h div 16"
    using assms(3) by simp_all
  moreover have "d * 2 + h div 16 < 64" using m(5) assms(3) by linarith
  from div_mod_low [OF this, of "mo mod 4"] have "b2 div 64 = mo mod 4" by (simp add: b add.assoc)
  ultimately show ?thesis
    using assms(1) by (simp add: timestamp_fields)
qed


subsection \<open>Decoding a token\<close>

lemma charCodeAt_append:
  "i < length xs \<Longrightarrow> charCodeAt (pre @ xs @ post) (length pre + i) = Num (int (xs ! i))"
  by (simp add: charCodeAt_def nth_append)

lemma be_val_snoc: "be_val (bs @ [b]) = be_val bs * 256 + b"
  by (simp add: be_val_def)

lemma read_bytes:
  "be_val bs < 2 ^ 31 \<Longrightarrow>
     foldl (\<lambda>r c. js_add (js_shl r 8) (Num (int c))) (Num 0) bs = Num (int (be_val bs))"
proof (induction bs rule: rev_induct)
  case Nil
  show ?case by (simp add: be_val_def)
next
  case (snoc b bs)
  from snoc.prems have lt: "be_val bs * 2 ^ 8 < 2 ^ 31" by (simp add: be_val_snoc)
  then have "be_val bs < 2 ^ 31" by simp
  from snoc.IH [OF this] lt show ?case
    by (simp only: foldl_append foldl.simps js_shl_nat js_add_nat) (simp add: be_val_snoc)
qed

lemma read_val_fold:
  "read_val (pre @ bs @ post) (length pre) (length bs)
     = foldl (\<lambda>r c. js_add (js_shl r 8) (Num (int c))) (Num 0) bs"
proof -
  have codes: "map (\<lambda>i. charCodeAt (pre @ bs @ post) (length pre + i)) [0..<length bs]
      = map (\<lambda>c. Num (int c)) bs"
    by (intro nth_equalityI) (simp_all add: charCodeAt_append)
  have "read_val (pre @ bs @ post) (length pre) (length bs)
      = foldl (\<lambda>r c. js_add (js_shl r 8) c) (Num 0)
          (map (\<lambda>i. charCodeAt (pre @ bs @ post) (length pre + i)) [0..<length bs])"
    by (simp only: read_val_def foldl_map)
  then show ?thesis by (simp only: codes foldl_map)
qed

lemma read_val_append:
  "be_val bs < 2 ^ 31 \<Longrightarrow>
     read_val (pre @ bs @ post) (length pre) (length bs) = Num (int (be_val bs))"
  by (simp only: read_val_fold read_bytes)

lemma value_keywords_list:
  "\<forall>k\<in>set [15, 16, 17, 18, 19, 20, 21, 22].
     num_vals (keyword k) \<noteq> 0 \<and> \<not> endsWith (keyword k) ''float'' \<and> \<not> endsWith (keyword k) ''bool''"
  by code_simp

lemma value_keywords:
  assumes "14 < k" "k < 23"
  shows "num_vals (keyword k) \<noteq> 0 \<and> \<not> endsWith (keyword k) ''float'' \<and> \<not> endsWith (keyword k) ''bool''"
proof -
  have "k \<in> set [15, 16, 17, 18, 19, 20, 21, 22]" using assms by auto
  with value_keywords_list show ?thesis by (rule bspec)
qed

lemma step_token:
  assumes "wf_token t"
  shows "decompress_step year f (pre @ token_codes t @ post) (length pre)
       = (length pre + length (token_codes t), token_text year t)"
proof (cases t)
  case (Stamp y mo d h mi s)
  define b where "b = stamp_codes y mo d h mi s"
  then obtain b1 b2 b3 b4 where b4: "b = [b1, b2, b3, b4]" by (simp add: stamp_codes_def)
  have c: "charCodeAt (pre @ (131 # b) @ post) (length pre + i) = Num (int ((131 # b) ! i))" if "i < 5" for i
    using that b4 by (intro charCodeAt_append) simp
  have "timestamp year (Num (int b1)) (Num (int b2)) (Num (int b3)) (Num (int b4))
     = iso_text (year div 10 * 10 + y) mo d h mi s"
    using assms Stamp b4 unfolding b_def by (intro stamp_roundtrip) auto
  with c [of 1] c [of 2] c [of 3] c [of "Suc (Suc (Suc (Suc 0)))"] b4 Stamp show ?thesis
    by (simp add: decompress_step_def nth_append b_def [symmetric] numeral_3_eq_3 )
next
  case (UInt k bs)
  with assms have k: "14 < k" "k < 23" "length bs = num_vals (keyword k)" "be_val bs < 2 ^ 31" by auto
  have "read_val ((pre @ [k + 128]) @ bs @ post) (length (pre @ [k + 128])) (length bs) = Num (int (be_val bs))"
    using k(4) by (rule read_val_append)
  with k value_keywords [OF k(1,2)] UInt show ?thesis
    by (simp add: decompress_step_def nth_append value_text_def Let_def num_str_nat del: num_str.simps)
next
  case (Path hi lo)
  have c: "charCodeAt (pre @ [132, hi, lo] @ post) (length pre + 2) = Num (int lo)"
    by (subst charCodeAt_append) simp_all
  with Path show ?thesis
    by (simp add: decompress_step_def nth_append js_shl_def)
qed (use assms in \<open>auto simp: decompress_step_def nth_append\<close>)

lemma loop_tokens:
  assumes "\<forall>t\<in>set ts. wf_token t"
  shows "decompress_loop year f (pre @ concat (map token_codes ts)) (length pre) acc
       = acc @ concat (map (token_text year) ts)"
  using assms
proof (induction ts arbitrary: pre acc)
  case Nil
  show ?case by (simp add: decompress_loop.simps)
next
  case (Cons t ts)
  have ne: "token_codes t \<noteq> []" by (cases t) auto
  have st: "decompress_step year f (pre @ token_codes t @ concat (map token_codes ts)) (length pre)
       = (length pre + length (token_codes t), token_text year t)"
    using Cons.prems by (intro step_token) simp
  have "decompress_loop year f ((pre @ token_codes t) @ concat (map token_codes ts))
          (length (pre @ token_codes t)) (acc @ token_text year t)
      = (acc @ token_text year t) @ concat (map (token_text year) ts)"
    using Cons.prems by (intro Cons.IH) simp
  with st ne show ?case
    by (subst decompress_loop.simps) simp
qed

lemma loop_path:
  "lo < 256 \<Longrightarrow> decompress_loop year f [132, hi, lo] 0 ''''
     = quote @ keyword 4 @ colon_quote @ entry_str uuidlist (Num (int (2 * lo))) @ quote"
  using loop_tokens [of "[Path hi lo]" year f "[]" "[]"] by simp

lemma entry_of_path:
  assumes "i < 352"
  shows "entry_str uuidlist (Num (int j)) = uuidlist ! i \<longleftrightarrow> j = i"
proof (cases "j < 352")
  case True
  with assms show ?thesis by (simp add: entry_str_def nth_eq_iff_index_eq distinct_uuidlist)
next
  case False
  have "uuidlist ! i \<in> set uuidlist" using assms by simp
  with False undefined_no_path assms show ?thesis by (auto simp: entry_str_def at_def)
qed

lemma be_val_bound: "\<forall>b\<in>set bs. b < 256 \<Longrightarrow> be_val bs < 256 ^ length bs"
proof (induction bs rule: rev_induct)
  case (snoc b bs)
  then have "be_val bs + 1 \<le> 256 ^ length bs" "b < 256" by simp_all
  then have "(be_val bs + 1) * 256 \<le> 256 ^ length bs * 256" by (intro mult_le_mono1)
  with \<open>b < 256\<close> show ?case by (simp add: be_val_snoc)
qed (simp add: be_val_def)

lemma signed_low_byte:
  assumes "v < 2 ^ 24" "b < 256"
  shows "signed_take_bit 31 (int (v * 256)) + int b = signed_take_bit 31 (int (v * 256 + b))"
proof (cases "v < 2 ^ 23")
  case True
  with assms show ?thesis by (simp add: signed_take_bit_small)
next
  case False
  with assms show ?thesis by (simp add: signed_wrap)
qed

lemma step_getFloat32: "decompress_step year f m index = decompress_step year g m index"
proof -
  have "value_text f m i (keyword k) = value_text g m i (keyword k)" if "12 < k" "k < 23" "num_vals (keyword k) \<noteq> 0" for k i
  proof (cases "14 < k")
    case True
    with value_keywords [OF this that(2)] show ?thesis by (simp add: value_text_def)
  next
    case False
    with that have "k = 13 \<or> k = 14" by auto
    moreover have "num_vals (keyword 13) = 0" "num_vals (keyword 14) = 0" by code_simp+
    ultimately show ?thesis using that(3) by auto
  qed
  then show ?thesis by (simp add: decompress_step_def Let_def)
qed



subsection \<open>Properties\<close>

text \<open>
  C1: the decoder is a left inverse of the format: the codes of any sequence of well-formed tokens
  decode to the texts of these tokens, in order, with the separators added and braces around.
\<close>

theorem decompress_tokens:
  assumes "\<forall>t\<in>set ts. wf_token t"
  shows "decompressMessage year f (concat (map token_codes ts))
       = ''{'' @ add_commas (concat (map (token_text year) ts)) @ ''}''"
  using loop_tokens [OF assms, where pre = "[]" and acc = "[]"] by (simp add: decompressMessage_def)

theorem decompress_tokens_witness:
  "decompressMessage 2026 (\<lambda>_. ''0.5'') (concat (map token_codes
      [Key 0, Req 10, Stamp 6 11 15 22 10 7, Key 2, UInt 15 [5], Text 125]))
   = ''{'' @ add_commas (concat (map (token_text 2026)
      [Key 0, Req 10, Stamp 6 11 15 22 10 7, Key 2, UInt 15 [5], Text 125])) @ ''}''"
proof (rule decompress_tokens)
  have "num_vals (keyword 15) = 1" by code_simp
  then show "\<forall>t\<in>set [Key 0, Req 10, Stamp 6 11 15 22 10 7, Key 2, UInt 15 [5], Text 125]. wf_token t"
    by (simp add: be_val_def)
qed

text \<open>
  C11: of the 352 paths of the table only the first one survives the two-byte index: the decoder
  drops the high byte and doubles the low one, so the bytes of index i give the path at i exactly
  for i = 0.
\<close>

theorem path_decodes_only_first:
  assumes "i < 352"
  shows "decompress_loop year f [132, i div 256, i mod 256] 0 ''''
           = quote @ keyword 4 @ colon_quote @ uuidlist ! i @ quote
         \<longleftrightarrow> i = 0"
proof -
  have "decompress_loop year f [132, i div 256, i mod 256] 0 ''''
      = quote @ keyword 4 @ colon_quote @ entry_str uuidlist (Num (int (2 * (i mod 256)))) @ quote"
    by (rule loop_path) simp
  moreover have "i mod 256 = (if i < 256 then i else i - 256)"
    using assms by (simp add: mod_if [of i])
  then have "2 * (i mod 256) = i \<longleftrightarrow> i = 0" using assms by auto
  ultimately show ?thesis by (simp only: append_same_eq same_append_eq entry_of_path [OF assms])
qed

theorem path_decodes_only_first_witness:
  "decompress_loop 2026 (\<lambda>_. '''') [132, 0, 3] 0 ''''
     \<noteq> quote @ keyword 4 @ colon_quote @ uuidlist ! 3 @ quote"
  using path_decodes_only_first [of 3 2026 "\<lambda>_. ''''"] by simp

text \<open>
  A four-byte value is read as a signed 32-bit number: \<open>realval << 8\<close> wraps, so an unsigned
  value of $2^{31}$ or more comes out as the value minus $2^{32}$.
\<close>

theorem uint32_reads_signed:
  assumes "length bs = 4" "\<forall>b\<in>set bs. b < 256"
  shows "read_val (pre @ bs @ post) (length pre) 4 = Num (signed_take_bit 31 (int (be_val bs)))"
proof -
  obtain cs b where bs: "bs = cs @ [b]" using assms(1) by (cases bs rule: rev_cases) auto
  then have cs: "be_val cs < 2 ^ 24" using be_val_bound [of cs] assms by simp
  then have c31: "be_val cs < 2 ^ 31" by simp
  have b: "b < 256" using assms bs by simp
  have "read_val (pre @ bs @ post) (length pre) 4
      = foldl (\<lambda>r c. js_add (js_shl r 8) (Num (int c))) (Num 0) bs"
    using read_val_fold [of pre bs post] assms(1) by simp
  also have "\<dots> = js_add (js_shl (Num (int (be_val cs))) 8) (Num (int b))"
    by (simp only: bs foldl_append foldl.simps read_bytes [OF c31])
  also have "\<dots> = Num (signed_take_bit 31 (int (be_val cs * 256)) + int b)"
    using c31 by (simp add: js_shl_def to_int32_small push_bit_eq_mult del: to_int32.simps)
  finally show ?thesis
    by (simp only: signed_low_byte [OF cs b] bs be_val_snoc)
qed

theorem uint32_reads_signed_witness: "read_val [150, 255, 255, 255, 254] 1 4 = Num (- 2)"
  using uint32_reads_signed [of "[255, 255, 255, 254]" "[150]" "[]"]
  by (simp add: be_val_def signed_wrap)

text \<open>
  No message makes the decoder read a float: the indices it takes for value types end before
  the table's entry for float, so the result does not depend on how floats are read or printed.
\<close>

theorem float_never_read: "decompressMessage year f m = decompressMessage year g m"
proof -
  have "decompress_loop year f m i acc = decompress_loop year g m i acc" for i acc
  proof (induction year f m i acc rule: decompress_loop.induct)
    case (1 year f m index finalMsg)
    then show ?case
      by (subst (1 2) decompress_loop.simps) (simp add: step_getFloat32 [of year f m index g])
  qed
  then show ?thesis by (simp add: decompressMessage_def)
qed


end
