(* ===== verification/Json.thy ===== *)
theory Json
  imports Prelude
begin

section \<open>JSON as the language provides it\<close>

text \<open>
  \<open>JSON.parse\<close>, \<open>JSON.stringify\<close> and the conversion of a value to a string, which the web socket client
  uses. A number literal is kept as its decimal digits and exponent, m * 10^e. Characters are single
  bytes: a \<open>\u\<close> escape above 255 is not represented and counts as a syntax error here. The parser takes
  fuel; of two nested calls at least one consumes a character, so twice the length of the text plus one is enough.
\<close>

datatype json =
    Null
  | Bool bool
  | Number int int
  | Str string
  | Arr "json list"
  | Obj "(string \<times> json) list"

subsection \<open>Printing\<close>

definition hex_digit :: "nat \<Rightarrow> char" where
  "hex_digit n = ''0123456789abcdef'' ! n"

abbreviation dquote :: char where "dquote \<equiv> CHR 0x22"
abbreviation backslash :: char where "backslash \<equiv> CHR 0x5C"

definition quote_char :: "char \<Rightarrow> string" where
  "quote_char c =
     (if c = dquote then [backslash, dquote]
      else if c = backslash then [backslash, backslash]
      else if c = CHR 0x08 then [backslash, CHR ''b'']
      else if c = CHR 0x09 then [backslash, CHR ''t'']
      else if c = CHR 0x0A then [backslash, CHR ''n'']
      else if c = CHR 0x0C then [backslash, CHR ''f'']
      else if c = CHR 0x0D then [backslash, CHR ''r'']
      else if (of_char c :: nat) < 32
      then [backslash, CHR ''u'', CHR ''0'', CHR ''0'', hex_digit (of_char c div 16), hex_digit (of_char c mod 16)]
      else [c])"

definition quote_string :: "string \<Rightarrow> string" where
  "quote_string s = dquote # concat (map quote_char s) @ [dquote]"

text \<open>A positive number from its digits, k of them, and the position n of the point, as ECMAScript prints it.\<close>

fun strip_zeros :: "nat \<Rightarrow> int \<Rightarrow> nat \<times> int" where
  "strip_zeros m e = (if m \<noteq> 0 \<and> m mod 10 = 0 then strip_zeros (m div 10) (e + 1) else (m, e))"

declare strip_zeros.simps [simp del]

definition digits_text :: "string \<Rightarrow> int \<Rightarrow> string" where
  "digits_text ds n =
     (let k = int (length ds)
      in if k \<le> n \<and> n \<le> 21 then ds @ replicate (nat (n - k)) CHR ''0''
         else if 0 < n \<and> n \<le> 21 then take (nat n) ds @ CHR ''.'' # drop (nat n) ds
         else if -6 < n \<and> n \<le> 0 then ''0.'' @ replicate (nat (- n)) CHR ''0'' @ ds
         else take 1 ds @ (if k = 1 then [] else CHR ''.'' # drop 1 ds) @ ''e'' @ (if n \<ge> 1 then ''+'' else ''-'') @ nat_str (nat \<bar>n - 1\<bar>))"

definition number_text :: "int \<Rightarrow> int \<Rightarrow> string" where
  "number_text m e =
     (if m = 0 then ''0''
      else
        let (d, x) = strip_zeros (nat \<bar>m\<bar>) e;
            ds = nat_str d
        in (if m < 0 then ''-'' else []) @ digits_text ds (int (length ds) + x))"

definition separated :: "string list \<Rightarrow> string" where
  "separated xs = (case xs of [] \<Rightarrow> [] | y # ys \<Rightarrow> y @ concat (map (\<lambda>z. CHR '','' # z) ys))"

fun stringify :: "json \<Rightarrow> string" where
  "stringify Null = ''null''"
| "stringify (Bool b) = (if b then ''true'' else ''false'')"
| "stringify (Number m e) = number_text m e"
| "stringify (Str s) = quote_string s"
| "stringify (Arr xs) = ''['' @ separated (map stringify xs) @ '']''"
| "stringify (Obj kvs) = ''{'' @ separated (map (\<lambda>(k, v). quote_string k @ '':'' @ stringify v) kvs) @ ''}''"

text \<open>How a value reads inside a string.\<close>

fun text_of :: "json \<Rightarrow> string" where
  "text_of Null = ''null''"
| "text_of (Bool b) = (if b then ''true'' else ''false'')"
| "text_of (Number m e) = number_text m e"
| "text_of (Str s) = s"
| "text_of (Arr xs) = separated (map (\<lambda>x. case x of Null \<Rightarrow> [] | _ \<Rightarrow> text_of x) xs)"
| "text_of (Obj kvs) = ''[object Object]''"

subsection \<open>Parsing\<close>

definition is_ws :: "char \<Rightarrow> bool" where
  "is_ws c \<longleftrightarrow> c \<in> {CHR '' '', CHR 0x09, CHR 0x0A, CHR 0x0D}"

definition skip_ws :: "string \<Rightarrow> string" where
  "skip_ws s = dropWhile is_ws s"

definition is_dec :: "char \<Rightarrow> bool" where
  "is_dec c \<longleftrightarrow> 48 \<le> (of_char c :: nat) \<and> (of_char c :: nat) \<le> 57"

definition hex_val :: "char \<Rightarrow> nat option" where
  "hex_val c =
     (let n = (of_char c :: nat)
      in if 48 \<le> n \<and> n \<le> 57 then Some (n - 48)
         else if 65 \<le> n \<and> n \<le> 70 then Some (n - 55)
         else if 97 \<le> n \<and> n \<le> 102 then Some (n - 87)
         else None)"

definition unescape :: "char \<Rightarrow> char option" where
  "unescape c =
     map_of [(dquote, dquote), (backslash, backslash), (CHR ''/'', CHR ''/''), (CHR ''b'', CHR 0x08), (CHR ''f'', CHR 0x0C),
             (CHR ''n'', CHR 0x0A), (CHR ''r'', CHR 0x0D), (CHR ''t'', CHR 0x09)] c"

definition code_unit :: "char \<Rightarrow> char \<Rightarrow> char \<Rightarrow> char \<Rightarrow> char option" where
  "code_unit a b c d =
     (case (hex_val a, hex_val b, hex_val c, hex_val d) of
        (Some 0, Some 0, Some x, Some y) \<Rightarrow> Some (char_of (x * 16 + y))
      | _ \<Rightarrow> None)"

definition push :: "char option \<Rightarrow> (string \<times> string) option \<Rightarrow> (string \<times> string) option" where
  "push c r = (case (c, r) of (Some x, Some (s, t)) \<Rightarrow> Some (x # s, t) | _ \<Rightarrow> None)"

text \<open>The characters up to the closing quote, and the rest.\<close>

fun scan_string :: "string \<Rightarrow> (string \<times> string) option" where
  "scan_string [] = None"
| "scan_string (c # s) =
     (if c = dquote then Some ([], s)
      else if c = backslash
      then (case s of
              [] \<Rightarrow> None
            | x # r \<Rightarrow>
                if x = CHR ''u''
                then (case r of
                        h1 # h2 # h3 # h4 # q \<Rightarrow> push (code_unit h1 h2 h3 h4) (scan_string q)
                      | _ \<Rightarrow> None)
                else push (unescape x) (scan_string r))
      else if (of_char c :: nat) < 32 then None
      else push (Some c) (scan_string s))"

declare scan_string.simps [simp del]

definition scan_exponent :: "string \<Rightarrow> (int \<times> string) option" where
  "scan_exponent s =
     (case s of
        c # r \<Rightarrow>
          if c = CHR ''e'' \<or> c = CHR ''E''
          then
            let (neg, r) = (case r of d # q \<Rightarrow> if d = CHR ''-'' then (True, q) else if d = CHR ''+'' then (False, q) else (False, r)
                                    | [] \<Rightarrow> (False, []));
                ds = takeWhile is_dec r
            in if ds = [] then None else Some ((if neg then - int (str_nat ds) else int (str_nat ds)), dropWhile is_dec r)
          else Some (0, s)
      | [] \<Rightarrow> Some (0, s))"

definition scan_unsigned :: "string \<Rightarrow> (nat \<times> int \<times> string) option" where
  "scan_unsigned s =
     (let whole = (if take 1 s = ''0'' then ''0'' else takeWhile is_dec s);
          r = drop (length whole) s;
          dot = take 1 r = ''.'';
          frac = (if dot then takeWhile is_dec (drop 1 r) else []);
          r = (if dot then dropWhile is_dec (drop 1 r) else r)
      in if whole = [] \<or> dot \<and> frac = [] then None
         else (case scan_exponent r of
                 None \<Rightarrow> None
               | Some (x, r) \<Rightarrow> Some (str_nat (whole @ frac), x - int (length frac), r)))"

definition scan_number :: "string \<Rightarrow> (json \<times> string) option" where
  "scan_number s =
     (if take 1 s = ''-''
      then (case scan_unsigned (drop 1 s) of None \<Rightarrow> None | Some (m, e, r) \<Rightarrow> Some (Number (- int m) e, r))
      else (case scan_unsigned s of None \<Rightarrow> None | Some (m, e, r) \<Rightarrow> Some (Number (int m) e, r)))"

definition literal :: "string \<Rightarrow> json \<Rightarrow> string \<Rightarrow> (json \<times> string) option" where
  "literal w v s = (if take (length w) s = w then Some (v, drop (length w) s) else None)"

fun parse_value :: "nat \<Rightarrow> string \<Rightarrow> (json \<times> string) option"
  and parse_elements :: "nat \<Rightarrow> string \<Rightarrow> (json list \<times> string) option"
  and parse_members :: "nat \<Rightarrow> string \<Rightarrow> ((string \<times> json) list \<times> string) option" where
  "parse_value 0 s = None"
| "parse_value (Suc n) s =
     (case skip_ws s of
        [] \<Rightarrow> None
      | c # r \<Rightarrow>
          if c = dquote then map_option (\<lambda>(t, q). (Str t, q)) (scan_string r)
          else if c = CHR ''{''
          then (case skip_ws r of
                  CHR ''}'' # q \<Rightarrow> Some (Obj [], q)
                | _ \<Rightarrow> map_option (\<lambda>(kvs, q). (Obj kvs, q)) (parse_members n r))
          else if c = CHR ''[''
          then (case skip_ws r of
                  CHR '']'' # q \<Rightarrow> Some (Arr [], q)
                | _ \<Rightarrow> map_option (\<lambda>(xs, q). (Arr xs, q)) (parse_elements n r))
          else if c = CHR ''t'' then literal ''true'' (Bool True) (c # r)
          else if c = CHR ''f'' then literal ''false'' (Bool False) (c # r)
          else if c = CHR ''n'' then literal ''null'' Null (c # r)
          else scan_number (c # r))"
| "parse_elements 0 s = None"
| "parse_elements (Suc n) s =
     (case parse_value n s of
        None \<Rightarrow> None
      | Some (v, r) \<Rightarrow>
          (case skip_ws r of
             CHR '','' # q \<Rightarrow> map_option (\<lambda>(vs, z). (v # vs, z)) (parse_elements n q)
           | CHR '']'' # q \<Rightarrow> Some ([v], q)
           | _ \<Rightarrow> None))"
| "parse_members 0 s = None"
| "parse_members (Suc n) s =
     (case skip_ws s of
        CHR 0x22 # r \<Rightarrow>
          (case scan_string r of
             None \<Rightarrow> None
           | Some (k, r) \<Rightarrow>
               (case skip_ws r of
                  CHR '':'' # r \<Rightarrow>
                    (case parse_value n r of
                       None \<Rightarrow> None
                     | Some (v, r) \<Rightarrow>
                         (case skip_ws r of
                            CHR '','' # q \<Rightarrow> map_option (\<lambda>(kvs, z). ((k, v) # kvs, z)) (parse_members n q)
                          | CHR ''}'' # q \<Rightarrow> Some ([(k, v)], q)
                          | _ \<Rightarrow> None))
                | _ \<Rightarrow> None))
      | _ \<Rightarrow> None)"

definition parse :: "string \<Rightarrow> json option" where
  "parse s =
     (case parse_value (Suc (2 * length s)) s of
        None \<Rightarrow> None
      | Some (v, r) \<Rightarrow> if skip_ws r = [] then Some v else None)"

text \<open>\<open>o[k]\<close> and \<open>o.k\<close>: the last member of that name; \<open>None\<close> is \<open>undefined\<close>.\<close>

fun member :: "string \<Rightarrow> json \<Rightarrow> json option" where
  "member k (Obj kvs) = map_of (rev kvs) k"
| "member k _ = None"

subsection \<open>Reading back what was printed\<close>

text \<open>
  The contract of a reader that hands back the rest: on a printed value followed by a text that may
  follow it, it returns the value and that text.
\<close>

locale reader =
  fixes put :: "'a \<Rightarrow> string" and scan :: "string \<Rightarrow> ('a \<times> string) option"
    and ok :: "'a \<Rightarrow> bool" and ends :: "string \<Rightarrow> bool"
  assumes scan_put: "ok x \<Longrightarrow> ends r \<Longrightarrow> scan (put x @ r) = Some (x, r)"
begin

lemma put_prefix_free:
  assumes "ok x" "ok y" "ends r" "ends q" "put x @ r = put y @ q"
  shows "x = y \<and> r = q"
proof -
  have "Some (x, r) = scan (put x @ r)" by (rule scan_put [OF assms(1,3), symmetric])
  also have "\<dots> = scan (put y @ q)" by (simp only: assms(5))
  also have "\<dots> = Some (y, q)" by (rule scan_put [OF assms(2,4)])
  finally show ?thesis by simp
qed

end

lemma hex_val_digit: "n < 16 \<Longrightarrow> hex_val (hex_digit n) = Some n"
proof -
  have "\<forall>n \<in> set [0..<16]. hex_val (hex_digit n) = Some n" by code_simp
  then show "n < 16 \<Longrightarrow> hex_val (hex_digit n) = Some n" by simp
qed

lemma digit_head: "0 < n \<Longrightarrow> n < 10 \<Longrightarrow> digit n \<noteq> CHR ''0'' \<and> is_dec (digit n)"
proof -
  have "\<forall>n \<in> set [1..<10]. digit n \<noteq> CHR ''0'' \<and> is_dec (digit n)" by code_simp
  then show "0 < n \<Longrightarrow> n < 10 \<Longrightarrow> digit n \<noteq> CHR ''0'' \<and> is_dec (digit n)" by simp
qed

lemma scan_quote_char: "scan_string (quote_char c @ s) = push (Some c) (scan_string s)"
proof -
  have u: "code_unit (CHR ''0'') (CHR ''0'') (hex_digit (of_char c div 16)) (hex_digit (of_char c mod 16)) = Some c" if "(of_char c :: nat) < 32"
  proof -
    have "(of_char c :: nat) div 16 < 16" using that by simp
    moreover have "hex_val (CHR ''0'') = Some 0" by code_simp
    ultimately show ?thesis by (simp add: code_unit_def hex_val_digit div_mult_mod_eq)
  qed
  have e: "unescape dquote = Some dquote" "unescape backslash = Some backslash" "unescape (CHR ''b'') = Some (CHR 0x08)"
    "unescape (CHR ''t'') = Some (CHR 0x09)" "unescape (CHR ''n'') = Some (CHR 0x0A)" "unescape (CHR ''f'') = Some (CHR 0x0C)"
    "unescape (CHR ''r'') = Some (CHR 0x0D)" by code_simp+
  show ?thesis using u by (simp add: quote_char_def e scan_string.simps)
qed

lemma scan_string_put: "scan_string (concat (map quote_char s) @ dquote # r) = Some (s, r)"
proof (induction s)
  case Nil
  then show ?case by (simp add: scan_string.simps)
next
  case (Cons c s)
  then show ?case using scan_quote_char [of c "concat (map quote_char s) @ dquote # r"] by (simp add: push_def)
qed

interpretation str: reader "\<lambda>s. concat (map quote_char s) @ [dquote]" scan_string "\<lambda>_. True" "\<lambda>_. True"
  by unfold_locales (simp add: scan_string_put)

text \<open>Whole numbers that print as their digits, and what may follow a number in an object.\<close>

definition plain_nat :: "int \<Rightarrow> bool" where
  "plain_nat m \<longleftrightarrow> 0 < m \<and> m mod 10 \<noteq> 0 \<and> length (nat_str (nat m)) \<le> 21"

definition ends_value :: "string \<Rightarrow> bool" where
  "ends_value r \<longleftrightarrow> (case r of [] \<Rightarrow> True | c # _ \<Rightarrow> c = CHR '','' \<or> c = CHR ''}'')"

lemma number_text_plain: "plain_nat m \<Longrightarrow> number_text m 0 = nat_str (nat m)"
proof -
  assume m: "plain_nat m"
  then have "int (nat m mod 10) = m mod 10" by (simp add: plain_nat_def zmod_int)
  then have "nat m mod 10 \<noteq> 0" using m by (auto simp: plain_nat_def)
  then have "strip_zeros (nat m) 0 = (nat m, 0)" by (simp add: strip_zeros.simps)
  then show ?thesis using m by (simp add: number_text_def plain_nat_def digits_text_def Let_def)
qed

lemma nat_str_head: "0 < n \<Longrightarrow> \<exists>c t. nat_str n = c # t \<and> c \<noteq> CHR ''0'' \<and> is_dec c"
proof (induction n rule: nat_str.induct)
  case (1 n)
  show ?case
  proof (cases "n < 10")
    case True
    then show ?thesis using digit_head 1(2) by (simp add: nat_str.simps [of n])
  next
    case False
    then have "0 < n div 10" by (simp add: div_greater_zero_iff)
    from 1(1) [OF False this] show ?thesis using False by (auto simp: nat_str.simps [of n])
  qed
qed

lemma takeWhile_dec: "ends_value r \<Longrightarrow> takeWhile is_dec (nat_str n @ r) = nat_str n"
proof -
  assume r: "ends_value r"
  have "takeWhile is_dec r = []" using r by (cases r) (auto simp: ends_value_def is_dec_def)
  moreover have "\<forall>c \<in> set (nat_str n). is_dec c" using nat_str_digits by (auto simp: is_dec_def)
  ultimately show ?thesis by (simp add: takeWhile_append2)
qed

lemma scan_number_put:
  assumes m: "plain_nat m" and r: "ends_value r"
  shows "scan_number (nat_str (nat m) @ r) = Some (Number m 0, r)"
proof -
  from m obtain c t where c: "nat_str (nat m) = c # t" "c \<noteq> CHR ''0''" "is_dec c"
    using nat_str_head [of "nat m"] by (auto simp: plain_nat_def)
  have "c \<noteq> CHR ''-''" using c(3) by (auto simp: is_dec_def)
  moreover have "scan_exponent r = Some (0, r)" using r by (cases r) (auto simp: scan_exponent_def ends_value_def)
  moreover have "take 1 r \<noteq> ''.''" using r by (cases r) (auto simp: ends_value_def)
  moreover have "take 1 (nat_str (nat m) @ r) = [c]" using c by simp
  ultimately have "scan_unsigned (nat_str (nat m) @ r) = Some (nat m, 0, r)" "take 1 (nat_str (nat m) @ r) \<noteq> ''-''"
    using c(2) by (simp_all add: scan_unsigned_def Let_def takeWhile_dec [OF r] str_nat_nat_str)
  then show ?thesis using m by (simp add: scan_number_def plain_nat_def)
qed

interpretation nr: reader "\<lambda>m. nat_str (nat m)" "\<lambda>s. map_option (\<lambda>(v, r). (case v of Number m e \<Rightarrow> m | _ \<Rightarrow> 0, r)) (scan_number s)" plain_nat ends_value
  by unfold_locales (simp add: scan_number_put)

text \<open>The values of a flat object: strings and such numbers.\<close>

fun flat :: "json \<Rightarrow> bool" where
  "flat (Str s) = True"
| "flat (Number m e) = (plain_nat m \<and> e = 0)"
| "flat _ = False"

lemma parse_value_put:
  assumes v: "flat v" and r: "ends_value r"
  shows "parse_value (Suc n) (stringify v @ r) = Some (v, r)"
proof (cases v)
  case (Str s)
  have "skip_ws (quote_string s @ r) = quote_string s @ r" by (simp add: skip_ws_def quote_string_def is_ws_def)
  then show ?thesis by (simp add: Str quote_string_def scan_string_put)
next
  case (Number m e)
  then have m: "plain_nat m" "e = 0" using v by auto
  obtain c t where c: "nat_str (nat m) = c # t" "is_dec c" using nat_str_head [of "nat m"] m by (auto simp: plain_nat_def)
  have "\<not> is_ws c" "c \<noteq> dquote" "c \<noteq> CHR ''{''" "c \<noteq> CHR ''[''" "c \<noteq> CHR ''t''" "c \<noteq> CHR ''f''" "c \<noteq> CHR ''n''"
    using c(2) by (auto simp: is_ws_def is_dec_def)
  then show ?thesis using scan_number_put [OF m(1) r] by (simp add: Number m number_text_plain c skip_ws_def)
qed (use v in auto)

lemma parse_members_put:
  assumes "kvs \<noteq> []" "\<forall>(k, v) \<in> set kvs. flat v" "length kvs < n"
  shows "parse_members n (separated (map (\<lambda>(k, v). quote_string k @ '':'' @ stringify v) kvs) @ CHR ''}'' # r) = Some (kvs, r)"
  using assms
proof (induction kvs arbitrary: n)
  case (Cons kv kvs)
  obtain k v where kv: "kv = (k, v)" by (cases kv)
  obtain n' where n: "n = Suc (Suc n')" using Cons.prems(3) by (cases n; cases "n - 1") auto
  have ws: "skip_ws (dquote # s) = dquote # s" "skip_ws (CHR '':'' # s) = CHR '':'' # s" "skip_ws (CHR '','' # s) = CHR '','' # s"
    "skip_ws (CHR ''}'' # s) = CHR ''}'' # s" for s by (simp_all add: skip_ws_def is_ws_def)
  have fv: "flat v" using Cons.prems(2) kv by simp
  show ?case
  proof (cases kvs)
    case Nil
    have "parse_value (Suc n') (stringify v @ CHR ''}'' # r) = Some (v, CHR ''}'' # r)"
      by (rule parse_value_put [OF fv]) (simp add: ends_value_def)
    then show ?thesis by (simp add: Nil kv n separated_def quote_string_def ws scan_string_put)
  next
    case kvs: (Cons kv2 kvs2)
    let ?f = "\<lambda>(k, v). quote_string k @ '':'' @ stringify v"
    have sep: "separated (map ?f ((k, v) # kvs)) = quote_string k @ '':'' @ stringify v @ CHR '','' # separated (map ?f kvs)"
      by (simp add: kvs separated_def)
    have "parse_value (Suc n') (stringify v @ CHR '','' # separated (map ?f kvs) @ CHR ''}'' # r)
        = Some (v, CHR '','' # separated (map ?f kvs) @ CHR ''}'' # r)"
      by (rule parse_value_put [OF fv]) (simp add: ends_value_def)
    moreover have "parse_members (Suc n') (separated (map ?f kvs) @ CHR ''}'' # r) = Some (kvs, r)"
      using Cons.IH [of "Suc n'"] Cons.prems kvs n by simp
    ultimately show ?thesis unfolding kv sep by (simp add: n quote_string_def ws scan_string_put)
  qed
qed simp

lemma parse_stringify_flat:
  assumes kvs: "kvs \<noteq> []" "\<forall>(k, v) \<in> set kvs. flat v"
  shows "parse (stringify (Obj kvs)) = Some (Obj kvs)"
proof -
  let ?f = "\<lambda>(k, v). quote_string k @ '':'' @ stringify v"
  let ?body = "separated (map ?f kvs) @ ''}''"
  have whole: "stringify (Obj kvs) = CHR ''{'' # ?body" by simp
  have "length kvs \<le> length (concat (map ?f kvs))"
    by (induction kvs) (auto simp: quote_string_def)
  moreover have "length (concat (map ?f kvs)) \<le> length (separated (map ?f kvs))"
  proof (cases kvs)
    case (Cons kv rest)
    have "length (concat (map ?f rest)) \<le> length (concat (map (\<lambda>z. CHR '','' # z) (map ?f rest)))" by (induction rest) auto
    then show ?thesis using Cons by (simp add: separated_def)
  qed (use kvs in simp)
  ultimately have fuel: "length kvs < 2 * length (stringify (Obj kvs))" unfolding whole by simp
  have body: "parse_members (2 * length (stringify (Obj kvs))) ?body = Some (kvs, [])"
    using parse_members_put [OF kvs fuel, of "[]"] by simp
  obtain k v rest where "kvs = (k, v) # rest" using kvs(1) by (cases kvs) auto
  then obtain s where "?body = dquote # s" by (simp add: separated_def quote_string_def)
  then have ws: "skip_ws ?body = dquote # s" by (simp add: skip_ws_def is_ws_def)
  have br: "skip_ws (CHR ''{'' # t) = CHR ''{'' # t" for t by (simp add: skip_ws_def is_ws_def)
  have "parse_value (Suc (2 * length (stringify (Obj kvs)))) (CHR ''{'' # ?body) = Some (Obj kvs, [])"
    unfolding parse_value.simps br list.case ws body by simp
  then show ?thesis unfolding parse_def whole [symmetric] by (simp add: skip_ws_def)
qed

end
