(* ===== verification/Js_Number.thy ===== *)
theory Js_Number
  imports Prelude Complex_Main
begin

section \<open>Numbers written in strings\<close>

text \<open>
  The conversion of a string to a number that the arithmetic and comparison operators and the unary
  plus apply, and \<open>parseFloat\<close>. Numbers are exact rationals, with NaN and the two infinities.
\<close>

subsection \<open>The number a string stands for\<close>

datatype reading = NotANumber | Finite rat | Infinite bool

definition is_digit :: "char \<Rightarrow> bool" where
  "is_digit c \<longleftrightarrow> 48 \<le> (of_char c :: nat) \<and> (of_char c :: nat) \<le> 57"

definition trim :: "string \<Rightarrow> string" where
  "trim s = rev (dropWhile is_space (rev (dropWhile is_space s)))"

definition ten_pow :: "int \<Rightarrow> rat" where
  "ten_pow e = (if e \<ge> 0 then 10 ^ nat e else 1 / 10 ^ nat (- e))"

text \<open>The exponent part: absent, or a letter e, an optional sign and at least one digit.\<close>

definition exponent :: "string \<Rightarrow> int option" where
  "exponent s =
     (case s of
        [] \<Rightarrow> Some 0
      | c # r \<Rightarrow>
          if c = CHR ''e'' \<or> c = CHR ''E''
          then (case r of
                  [] \<Rightarrow> None
                | d # q \<Rightarrow>
                    let ds = (if d = CHR ''+'' \<or> d = CHR ''-'' then q else r);
                        k = int (str_nat ds)
                    in if ds \<noteq> [] \<and> list_all is_digit ds then Some (if d = CHR ''-'' then - k else k) else None)
          else None)"

definition unsigned_number :: "string \<Rightarrow> reading" where
  "unsigned_number s =
     (if s = ''Infinity'' then Infinite True
      else
        let whole = takeWhile is_digit s;
            r = dropWhile is_digit s;
            dot = take 1 r = ''.'';
            frac = (if dot then takeWhile is_digit (drop 1 r) else []);
            r = (if dot then dropWhile is_digit (drop 1 r) else r)
        in if whole = [] \<and> frac = [] then NotANumber
           else (case exponent r of
                   None \<Rightarrow> NotANumber
                 | Some e \<Rightarrow> Finite (of_nat (str_nat (whole @ frac)) * ten_pow (e - int (length frac)))))"

fun negate :: "reading \<Rightarrow> reading" where
  "negate NotANumber = NotANumber"
| "negate (Finite q) = Finite (- q)"
| "negate (Infinite b) = Infinite (\<not> b)"

definition radix_digit :: "nat \<Rightarrow> char \<Rightarrow> nat option" where
  "radix_digit b c =
     (let n = (of_char c :: nat);
          d = (if 48 \<le> n \<and> n \<le> 57 then n - 48 else if 65 \<le> n \<and> n \<le> 70 then n - 55 else if 97 \<le> n \<and> n \<le> 102 then n - 87 else b)
      in if d < b then Some d else None)"

definition radix_number :: "nat \<Rightarrow> string \<Rightarrow> reading" where
  "radix_number b s =
     (if s \<noteq> [] \<and> list_all (\<lambda>c. radix_digit b c \<noteq> None) s
      then Finite (of_nat (foldl (\<lambda>a c. a * b + (case radix_digit b c of None \<Rightarrow> 0 | Some d \<Rightarrow> d)) 0 s))
      else NotANumber)"

definition to_number :: "string \<Rightarrow> reading" where
  "to_number s =
     (let t = trim s
      in if t = [] then Finite 0
         else if take 2 t \<in> {''0x'', ''0X''} then radix_number 16 (drop 2 t)
         else if take 2 t \<in> {''0o'', ''0O''} then radix_number 8 (drop 2 t)
         else if take 2 t \<in> {''0b'', ''0B''} then radix_number 2 (drop 2 t)
         else if take 1 t = ''-'' then negate (unsigned_number (drop 1 t))
         else if take 1 t = ''+'' then unsigned_number (drop 1 t)
         else unsigned_number t)"

subsection \<open>parseFloat\<close>

text \<open>
  \<open>parseFloat\<close> reads the longest prefix that is a decimal literal; whether it is NaN only depends on how
  the text begins.
\<close>

definition parseFloat_isNaN :: "string \<Rightarrow> bool" where
  "parseFloat_isNaN s =
     (let t = dropWhile is_space s;
          u = (if take 1 t \<in> {''+'', ''-''} then drop 1 t else t)
      in \<not> (startsWith u ''Infinity'' \<or> list_ex is_digit (take 1 u) \<or> (take 1 u = ''.'' \<and> list_ex is_digit (take 1 (drop 1 u)))))"

subsection \<open>Printed integers\<close>

definition digits_text :: "string \<Rightarrow> bool" where
  "digits_text s \<longleftrightarrow> s \<noteq> [] \<and> list_all is_digit s"

lemma is_digit_plain: "is_digit c \<Longrightarrow> \<not> is_space c \<and> c \<notin> {CHR ''+'', CHR ''-'', CHR '','', CHR ''.'', CHR ''x'', CHR ''X'', CHR ''o'', CHR ''O'', CHR ''b'', CHR ''B'', CHR ''I''}"
proof -
  have "\<forall>c \<in> set '' +-,.xXoObBI''. \<not> is_digit c" "\<forall>c \<in> {CHR 0x09, CHR 0x0A, CHR 0x0B, CHR 0x0C, CHR 0x0D}. \<not> is_digit c"
    by code_simp+
  moreover assume "is_digit c"
  ultimately show ?thesis unfolding is_space_def by auto
qed

lemma digits_text_nat_str: "digits_text (nat_str n)"
  using nat_str_digits [of _ n] by (auto simp: digits_text_def is_digit_def list_all_iff)

lemma trim_plain: "s = [] \<or> \<not> is_space (hd s) \<and> \<not> is_space (last s) \<Longrightarrow> trim s = s"
proof -
  assume a: "s = [] \<or> \<not> is_space (hd s) \<and> \<not> is_space (last s)"
  then have "dropWhile is_space s = s" by (cases s) auto
  moreover have "dropWhile is_space (rev s) = rev s" using a by (cases s rule: rev_cases) auto
  ultimately show ?thesis by (simp add: trim_def)
qed

lemma digits_text_ends: "digits_text s \<Longrightarrow> \<not> is_space (hd s) \<and> \<not> is_space (last s)"
  by (metis digits_text_def hd_in_set is_digit_plain last_in_set list_all_iff)

lemma takeWhile_digits [simp]:
  "digits_text s \<Longrightarrow> takeWhile is_digit s = s" "digits_text s \<Longrightarrow> dropWhile is_digit s = []"
  by (simp_all add: digits_text_def list_all_iff)

lemma unsigned_number_digits: "digits_text s \<Longrightarrow> unsigned_number s = Finite (of_nat (str_nat s))"
proof -
  assume d: "digits_text s"
  then have "s \<noteq> ''Infinity''" using is_digit_plain [of "CHR ''I''"] by (auto simp: digits_text_def)
  then show ?thesis using d by (simp add: unsigned_number_def exponent_def ten_pow_def digits_text_def list_all_iff)
qed

lemma radix_prefix_digits:
  assumes "digits_text s"
  shows "take 2 s \<notin> {''0x'', ''0X''}" "take 2 s \<notin> {''0o'', ''0O''}" "take 2 s \<notin> {''0b'', ''0B''}"
    "take 1 s \<noteq> ''-''" "take 1 s \<noteq> ''+''"
proof -
  have no: "take n s \<noteq> t" if "\<not> list_all is_digit t" for n t
    using assms that by (auto simp: digits_text_def list_all_iff dest: in_set_takeD)
  have "\<not> list_all is_digit ''0x''" "\<not> list_all is_digit ''0X''" "\<not> list_all is_digit ''0o''" "\<not> list_all is_digit ''0O''"
    "\<not> list_all is_digit ''0b''" "\<not> list_all is_digit ''0B''" "\<not> list_all is_digit ''-''" "\<not> list_all is_digit ''+''"
    by code_simp+
  note nd = this [THEN no]
  show "take 2 s \<notin> {''0x'', ''0X''}" "take 2 s \<notin> {''0o'', ''0O''}" "take 2 s \<notin> {''0b'', ''0B''}"
    using nd(1-6) by (simp_all only: insert_iff empty_iff) blast+
  show "take 1 s \<noteq> ''-''" "take 1 s \<noteq> ''+''"
    by (rule nd)+
qed

text \<open>Converting a printed integer to a number gives it back.\<close>

lemma to_number_int_str: "to_number (int_str x) = Finite (of_int x)"
proof (cases "x < 0")
  case True
  let ?d = "nat_str (nat (- x))"
  note d = digits_text_nat_str [of "nat (- x)"]
  have "trim (CHR ''-'' # ?d) = CHR ''-'' # ?d"
    using digits_text_ends [OF d] by (intro trim_plain) (simp add: is_space_def)
  moreover have "(of_nat (nat (- x)) :: rat) = - of_int x" using True by simp
  ultimately show ?thesis
    using True unsigned_number_digits [OF d] by (simp add: int_str_def to_number_def str_nat_nat_str Let_def)
next
  case False
  let ?d = "nat_str (nat x)"
  note d = digits_text_nat_str [of "nat x"]
  have "trim ?d = ?d" using digits_text_ends [OF d] by (intro trim_plain) simp
  moreover have "?d \<noteq> []" by simp
  ultimately show ?thesis
    using False unsigned_number_digits [OF d] radix_prefix_digits [OF d]
    by (simp add: int_str_def to_number_def str_nat_nat_str Let_def)
qed

end
