(* ===== verification/Speedometer.thy ===== *)
theory Speedometer
  imports Js_Number
begin

section \<open>The speedometer\<close>

text \<open>
  The jQuery plugin of \<open>speedometer.js\<close>: the options, the style sheet, the scale with its marks and the
  handler that moves the needle. Numbers are exact: the rounding of JavaScript's floating-point
  arithmetic is not modelled, and the places of the marks on the circle, which use sine and cosine, are
  real numbers. The numeric options hold numbers. A reading is the string of the input element, converted
  the way the comparison and arithmetic operators convert it.
\<close>

subsection \<open>Options\<close>

datatype pref = PNum rat | PStr string

type_synonym prefs = "string \<Rightarrow> pref option"

definition defaultProperty :: prefs where
  "defaultProperty = map_of
     [(''maxVal'', PNum 180), (''divFact'', PNum 10), (''dangerLevel'', PNum 120), (''initDeg'', PNum (-45)),
      (''maxDeg'', PNum 270), (''edgeRadius'', PNum 150), (''speedNobeH'', PNum 4), (''speedoNobeW'', PNum 95),
      (''speedoNobeL'', PNum 13), (''indicatorRadius'', PNum 125), (''indicatorNumbRadius'', PNum 90),
      (''speedPositionTxtWH'', PNum 80), (''nobW'', PNum 20), (''nobH'', PNum 4), (''numbW'', PNum 30), (''numbH'', PNum 16),
      (''midNobW'', PNum 10), (''midNobH'', PNum 3), (''noOfSmallDiv'', PNum 2), (''eventListenerType'', PStr ''change''),
      (''multiplier'', PNum 1), (''gagueLabel'', PStr ''km/h'')]"

definition with_prefs :: "prefs \<Rightarrow> prefs" where
  "with_prefs userPref = defaultProperty ++ userPref"

definition num :: "prefs \<Rightarrow> string \<Rightarrow> rat" where
  "num p k = (case p k of Some (PNum q) \<Rightarrow> q | _ \<Rightarrow> 0)"

definition str_pref :: "prefs \<Rightarrow> string \<Rightarrow> string" where
  "str_pref p k = (case p k of Some (PStr s) \<Rightarrow> s | _ \<Rightarrow> [])"

definition noOfDev :: "prefs \<Rightarrow> rat" where
  "noOfDev p = num p ''maxVal'' / num p ''divFact''"

text \<open>The angle between two steps; a zero \<open>maxVal\<close> makes it infinite or NaN (\<open>None\<close>), and so is no angle computed from it a number.\<close>

definition divDeg :: "prefs \<Rightarrow> rat option" where
  "divDeg p = (if noOfDev p = 0 then None else Some (num p ''maxDeg'' / noOfDev p))"

definition curDig :: "prefs \<Rightarrow> nat \<Rightarrow> rat option" where
  "curDig p i = map_option (\<lambda>d. num p ''initDeg'' + of_nat i * d) (divDeg p)"

subsection \<open>The style sheet\<close>

datatype css_value = Px rat | Rotate rat

definition setCssProperty :: "prefs \<Rightarrow> string \<Rightarrow> (string \<times> (string \<times> css_value) list) list" where
  "setCssProperty p parentElemId =
     (let speedoWH = num p ''edgeRadius'' * 2;
          speedNobeTop = num p ''edgeRadius'' - num p ''speedNobeH'' / 2;
          speedNobeAngle = num p ''initDeg'';
          speedPositionTxtTL = num p ''edgeRadius'' - num p ''speedPositionTxtWH'' / 2
      in map (\<lambda>(sel, rules). (''#'' @ parentElemId @ sel, rules))
        [('' .envelope'', [(''width'', Px speedoWH), (''height'', Px speedoWH)]),
         ('' .speedNobe'', [(''height'', Px (num p ''speedNobeH'')), (''top'', Px speedNobeTop),
            (''transform'', Rotate speedNobeAngle), (''-webkit-transform'', Rotate speedNobeAngle),
            (''-moz-transform'', Rotate speedNobeAngle), (''-o-transform'', Rotate speedNobeAngle)]),
         ('' .speedPosition'', [(''width'', Px (num p ''speedPositionTxtWH'')), (''height'', Px (num p ''speedPositionTxtWH'')),
            (''top'', Px speedPositionTxtTL), (''left'', Px speedPositionTxtTL)]),
         ('' .speedNobe div'', [(''width'', Px (num p ''speedoNobeW'')), (''left'', Px (num p ''speedoNobeL''))]),
         ('' .nob'', [(''width'', Px (num p ''nobW'')), (''height'', Px (num p ''nobH''))]),
         ('' .numb'', [(''width'', Px (num p ''numbW'')), (''height'', Px (num p ''numbH''))]),
         ('' .midNob'', [(''width'', Px (num p ''midNobW'')), (''height'', Px (num p ''midNobH''))])])"

subsection \<open>The scale\<close>

text \<open>
  One step of the scale has a line (\<open>nob\<close>) and a number (\<open>numb\<close>); between main steps the line is a short
  one and the number stays empty.
\<close>

record mark =
  mk_deg :: "rat option"
  mk_main :: bool
  nob_danger :: bool
  nob_bright :: bool
  numb_danger :: bool
  numb_text :: "rat option"
  numb_bright :: bool

definition is_main :: "prefs \<Rightarrow> nat \<Rightarrow> bool" where
  "is_main p i \<longleftrightarrow> num p ''noOfSmallDiv'' \<noteq> 0 \<and> snd (quotient_of (of_nat i / num p ''noOfSmallDiv'')) = 1"

definition indicator :: "prefs \<Rightarrow> nat \<Rightarrow> mark" where
  "indicator p i =
     (let curIndVal = of_nat i * num p ''divFact'';
          danger = curIndVal \<ge> num p ''dangerLevel''
      in if is_main p i
         then \<lparr>mk_deg = curDig p i, mk_main = True, nob_danger = danger, nob_bright = False,
               numb_danger = danger, numb_text = Some curIndVal, numb_bright = False\<rparr>
         else \<lparr>mk_deg = curDig p i, mk_main = False, nob_danger = danger, nob_bright = False,
               numb_danger = False, numb_text = None, numb_bright = False\<rparr>)"

function indicators_from :: "prefs \<Rightarrow> nat \<Rightarrow> mark list" where
  "indicators_from p i = (if of_nat i \<le> noOfDev p then indicator p i # indicators_from p (Suc i) else [])"
  by pat_completeness auto

termination indicators_from
  by (relation "measure (\<lambda>(p, i). nat (\<lfloor>noOfDev p\<rfloor> + 1 - int i))") (auto simp: le_floor_iff)

declare indicators_from.simps [simp del]

text \<open>
  With \<open>divFact\<close> zero and a positive \<open>maxVal\<close> the bound of the loop is infinite and it never ends
  (\<open>None\<close>); with any other \<open>maxVal\<close> the bound is NaN or negative and the scale is empty.
\<close>

definition createIndicators :: "prefs \<Rightarrow> mark list option" where
  "createIndicators p =
     (if num p ''divFact'' = 0 then (if num p ''maxVal'' > 0 then None else Some []) else Some (indicators_from p 0))"

text \<open>Where the line and the number of a step are put (the source swaps the roles of left and top).\<close>

definition angle :: "prefs \<Rightarrow> nat \<Rightarrow> real option" where
  "angle p i = map_option (\<lambda>d. 0.01746 * of_rat d) (curDig p i)"

definition nob_left :: "prefs \<Rightarrow> nat \<Rightarrow> real option" where
  "nob_left p i = map_option (\<lambda>a. of_rat (num p ''edgeRadius'') - of_rat (num p ''indicatorRadius'') * cos a
     - (if is_main p i then 10 else of_rat (num p ''midNobW'') / 2)) (angle p i)"

definition nob_top :: "prefs \<Rightarrow> nat \<Rightarrow> real option" where
  "nob_top p i = map_option (\<lambda>a. of_rat (num p ''edgeRadius'') - of_rat (num p ''indicatorRadius'') * sin a
     - (if is_main p i then 2 else of_rat (num p ''midNobH'') / 2)) (angle p i)"

definition numb_left :: "prefs \<Rightarrow> nat \<Rightarrow> real option" where
  "numb_left p i = map_option (\<lambda>a. of_rat (num p ''edgeRadius'') - of_rat (num p ''indicatorNumbRadius'') * cos a - of_rat (num p ''numbH'') / 2) (angle p i)"

definition numb_top :: "prefs \<Rightarrow> nat \<Rightarrow> real option" where
  "numb_top p i = map_option (\<lambda>a. of_rat (num p ''edgeRadius'') - of_rat (num p ''indicatorNumbRadius'') * sin a - of_rat (num p ''numbW'') / 2) (angle p i)"

subsection \<open>The meter\<close>

text \<open>
  A meter: its options, its style sheet, its marks, the inline rotation of the needle per CSS property
  (\<open>Some None\<close> when it is not a number), and the value and label in the middle.
\<close>

record meter =
  mt_prefs :: prefs
  mt_parentElemId :: string
  mt_style :: "(string \<times> (string \<times> css_value) list) list"
  mt_marks :: "mark list"
  mt_needle :: "string \<Rightarrow> rat option option"
  mt_center :: "(rat \<times> string) option"

definition addSpeedometer :: "prefs \<Rightarrow> string \<Rightarrow> meter option" where
  "addSpeedometer userPref elemId =
     (let p = with_prefs userPref;
          parentElemId = ''speedometerWraper-'' @ elemId
      in case createIndicators p of
           None \<Rightarrow> None
         | Some marks \<Rightarrow>
             Some \<lparr>mt_prefs = p, mt_parentElemId = parentElemId, mt_style = setCssProperty p parentElemId,
                   mt_marks = marks, mt_needle = (\<lambda>_. None), mt_center = None\<rparr>)"

fun greater :: "reading \<Rightarrow> rat \<Rightarrow> bool" where
  "greater NotANumber m = False"
| "greater (Finite q) m = (q > m)"
| "greater (Infinite b) m = b"

fun negative :: "reading \<Rightarrow> bool" where
  "negative NotANumber = False"
| "negative (Finite q) = (q < 0)"
| "negative (Infinite b) = (\<not> b)"

definition clamp :: "prefs \<Rightarrow> reading \<Rightarrow> rat" where
  "clamp p speed =
     (let speed = (if greater speed (num p ''maxVal'') then Finite (num p ''maxVal'') else speed);
          speed = (if negative speed \<or> speed = NotANumber then Finite 0 else speed)
      in case speed of Finite q \<Rightarrow> q | _ \<Rightarrow> 0)"

definition speedInDeg :: "prefs \<Rightarrow> rat \<Rightarrow> rat option" where
  "speedInDeg p speed =
     (if num p ''maxVal'' = 0 then None
      else Some ((num p ''maxDeg'' / num p ''maxVal'') * speed + num p ''initDeg''))"

definition brighten :: "mark \<Rightarrow> mark" where
  "brighten k = k\<lparr>nob_bright := True, numb_bright := True\<rparr>"

definition darken :: "mark \<Rightarrow> mark" where
  "darken k = k\<lparr>nob_bright := False, numb_bright := False\<rparr>"

text \<open>The loop over the steps; \<open>eq(i)\<close> outside the list is the empty set.\<close>

function bright_from :: "prefs \<Rightarrow> rat \<Rightarrow> nat \<Rightarrow> mark list \<Rightarrow> mark list" where
  "bright_from p speed i marks =
     (if of_nat i \<le> noOfDev p
      then if speed \<ge> of_nat i * num p ''divFact''
           then bright_from p speed (Suc i) (if i < length marks then marks[i := brighten (marks ! i)] else marks)
           else marks
      else marks)"
  by pat_completeness auto

termination bright_from
  by (relation "measure (\<lambda>(p, s, i, ms). nat (\<lfloor>noOfDev p\<rfloor> + 1 - int i))") (auto simp: le_floor_iff)

declare bright_from.simps [simp del]

definition changePosition :: "string \<Rightarrow> meter \<Rightarrow> meter" where
  "changePosition val m =
     (let p = mt_prefs m;
          speed = clamp p (to_number val);
          deg = speedInDeg p speed
      in m\<lparr>mt_needle := (mt_needle m)(''-webkit-transform'' \<mapsto> deg, ''-moz-transform'' \<mapsto> deg, ''-o-transform'' \<mapsto> deg),
           mt_center := Some (speed * num p ''multiplier'', str_pref p ''gagueLabel''),
           mt_marks := bright_from p speed 0 (map darken (mt_marks m))\<rparr>)"

text \<open>An event on the input element runs the handler if it is of the type the handler was bound to.\<close>

definition trigger_input :: "string \<Rightarrow> string \<Rightarrow> meter \<Rightarrow> meter" where
  "trigger_input ev val m = (if ev \<in> set (split_on (CHR '' '') (str_pref (mt_prefs m) ''eventListenerType'')) then changePosition val m else m)"

subsection \<open>The needle and the scale\<close>

lemma changePosition_simps [simp]:
  "mt_prefs (changePosition v m) = mt_prefs m"
  "mt_marks (changePosition v m) = bright_from (mt_prefs m) (clamp (mt_prefs m) (to_number v)) 0 (map darken (mt_marks m))"
  "mt_needle (changePosition v m) k =
     (if k \<in> {''-webkit-transform'', ''-moz-transform'', ''-o-transform''} then Some (speedInDeg (mt_prefs m) (clamp (mt_prefs m) (to_number v)))
      else mt_needle m k)"
  by (simp_all add: changePosition_def Let_def)

lemma clamp_range: "0 \<le> num p ''maxVal'' \<Longrightarrow> 0 \<le> clamp p r \<and> clamp p r \<le> num p ''maxVal''"
  by (cases r) (auto simp: clamp_def)

lemma clamp_id: "0 \<le> q \<Longrightarrow> q \<le> num p ''maxVal'' \<Longrightarrow> clamp p (Finite q) = q"
  by (simp add: clamp_def)

lemma indicators_from_length:
  "0 \<le> noOfDev p \<Longrightarrow> int i \<le> \<lfloor>noOfDev p\<rfloor> + 1 \<Longrightarrow> length (indicators_from p i) = nat (\<lfloor>noOfDev p\<rfloor> + 1 - int i)"
proof (induction p i rule: indicators_from.induct)
  case (1 p i)
  show ?case
  proof (cases "of_nat i \<le> noOfDev p")
    case True
    then have "int i \<le> \<lfloor>noOfDev p\<rfloor>" by (simp add: le_floor_iff)
    then show ?thesis using 1 True by (subst indicators_from.simps) simp
  next
    case False
    then have "\<not> int i \<le> \<lfloor>noOfDev p\<rfloor>" by (simp add: le_floor_iff)
    then show ?thesis using False 1(3) by (subst indicators_from.simps) simp
  qed
qed

lemma indicators_from_nth: "k < length (indicators_from p i) \<Longrightarrow> indicators_from p i ! k = indicator p (i + k)"
proof (induction p i arbitrary: k rule: indicators_from.induct)
  case (1 p i)
  show ?case
  proof (cases "of_nat i \<le> noOfDev p")
    case True
    then have s: "indicators_from p i = indicator p i # indicators_from p (Suc i)" by (subst indicators_from.simps) simp
    then show ?thesis using 1 True by (cases k) auto
  next
    case False
    then have "indicators_from p i = []" by (subst indicators_from.simps) simp
    then show ?thesis using 1(2) by simp
  qed
qed

lemma mk_deg_indicator: "mk_deg (indicator p i) = curDig p i"
  by (simp add: indicator_def Let_def)

lemma addSpeedometer_marks:
  assumes "addSpeedometer userPref elemId = Some m" "num (mt_prefs m) ''maxVal'' > 0" "num (mt_prefs m) ''divFact'' > 0"
  shows "mt_marks m = indicators_from (mt_prefs m) 0" "length (mt_marks m) = nat (\<lfloor>noOfDev (mt_prefs m)\<rfloor> + 1)" "0 \<le> noOfDev (mt_prefs m)"
    "map darken (mt_marks m) = mt_marks m"
proof -
  show marks: "mt_marks m = indicators_from (mt_prefs m) 0"
    using assms by (auto simp: addSpeedometer_def createIndicators_def Let_def split: option.splits if_splits)
  show n: "0 \<le> noOfDev (mt_prefs m)" using assms by (simp add: noOfDev_def)
  then show "length (mt_marks m) = nat (\<lfloor>noOfDev (mt_prefs m)\<rfloor> + 1)" using indicators_from_length [of "mt_prefs m" 0] by (simp add: marks)
  show "map darken (mt_marks m) = mt_marks m"
    by (rule nth_equalityI) (simp_all add: marks indicators_from_nth darken_def indicator_def Let_def)
qed

lemma mark_value_in_range:
  assumes "addSpeedometer userPref elemId = Some m" "num (mt_prefs m) ''maxVal'' > 0" "num (mt_prefs m) ''divFact'' > 0"
    and i: "i < length (mt_marks m)" and v: "to_number val = Finite (of_nat i * num (mt_prefs m) ''divFact'')"
  shows "clamp (mt_prefs m) (to_number val) = of_nat i * num (mt_prefs m) ''divFact''"
proof -
  have "int i \<le> \<lfloor>noOfDev (mt_prefs m)\<rfloor>" using i addSpeedometer_marks(2) [OF assms(1-3)] by simp
  then have "of_nat i * num (mt_prefs m) ''divFact'' \<le> num (mt_prefs m) ''maxVal''"
    using assms(3) by (simp add: le_floor_iff noOfDev_def field_simps)
  then show ?thesis using assms(3) by (simp add: v clamp_id)
qed

lemma needle_on_mark:
  assumes "addSpeedometer userPref elemId = Some m" "num (mt_prefs m) ''maxVal'' > 0" "num (mt_prefs m) ''divFact'' > 0"
    and i: "i < length (mt_marks m)" and v: "to_number val = Finite (of_nat i * num (mt_prefs m) ''divFact'')"
  shows "speedInDeg (mt_prefs m) (clamp (mt_prefs m) (to_number val)) = mk_deg (mt_marks m ! i)"
  using assms(2,3) i mark_value_in_range [OF assms] addSpeedometer_marks(1) [OF assms(1-3)]
  by (simp add: speedInDeg_def indicators_from_nth mk_deg_indicator curDig_def divDeg_def noOfDev_def field_simps)

text \<open>
  C28: the needle stays on the scale and points at the marks. For a meter with positive \<open>maxVal\<close> and
  \<open>divFact\<close> and a non-negative \<open>maxDeg\<close>, whatever string the input holds the needle's angle lies between
  \<open>initDeg\<close> and \<open>initDeg + maxDeg\<close>; and if the string stands for the value of the i-th mark, the angle is
  the one of that mark.
\<close>

theorem needle_points_at_mark:
  assumes m: "addSpeedometer userPref elemId = Some m"
    and p: "num (mt_prefs m) ''maxVal'' > 0" "num (mt_prefs m) ''divFact'' > 0" "num (mt_prefs m) ''maxDeg'' \<ge> 0"
  shows "\<exists>deg. mt_needle (changePosition val m) ''-webkit-transform'' = Some (Some deg)
    \<and> num (mt_prefs m) ''initDeg'' \<le> deg \<and> deg \<le> num (mt_prefs m) ''initDeg'' + num (mt_prefs m) ''maxDeg''
    \<and> (\<forall>i < length (mt_marks m). to_number val = Finite (of_nat i * num (mt_prefs m) ''divFact'') \<longrightarrow> mk_deg (mt_marks m ! i) = Some deg)"
proof -
  let ?p = "mt_prefs m"
  let ?s = "clamp ?p (to_number val)"
  let ?deg = "(num ?p ''maxDeg'' / num ?p ''maxVal'') * ?s + num ?p ''initDeg''"
  have deg: "speedInDeg ?p ?s = Some ?deg" using p by (simp add: speedInDeg_def)
  have s: "0 \<le> ?s" "?s \<le> num ?p ''maxVal''" using clamp_range [of ?p] p by auto
  have "0 \<le> num ?p ''maxDeg'' / num ?p ''maxVal'' * ?s" using p s by simp
  moreover have "num ?p ''maxDeg'' / num ?p ''maxVal'' * ?s \<le> num ?p ''maxDeg''"
    using mult_left_mono [OF s(2), of "num ?p ''maxDeg'' / num ?p ''maxVal''"] p by simp
  moreover have "mk_deg (mt_marks m ! i) = Some ?deg"
    if "i < length (mt_marks m)" "to_number val = Finite (of_nat i * num ?p ''divFact'')" for i
    using needle_on_mark [OF m p(1,2) that] deg by simp
  ultimately show ?thesis by (simp add: deg)
qed

lemma bright_from_nth:
  assumes "num p ''divFact'' > 0" "int i \<le> \<lfloor>noOfDev p\<rfloor> + 1" "length ms \<le> nat (\<lfloor>noOfDev p\<rfloor> + 1)"
  shows "length (bright_from p s i ms) = length ms \<and> (\<forall>k < length ms. bright_from p s i ms ! k
     = (if i \<le> k \<and> of_nat k * num p ''divFact'' \<le> s then brighten (ms ! k) else ms ! k))"
  using assms
proof (induction p s i ms rule: bright_from.induct)
  case (1 p s i ms)
  show ?case
  proof (cases "of_nat i \<le> noOfDev p \<and> of_nat i * num p ''divFact'' \<le> s")
    case True
    let ?ms = "if i < length ms then ms[i := brighten (ms ! i)] else ms"
    have eq: "bright_from p s i ms = bright_from p s (Suc i) ?ms" using True by (subst bright_from.simps) simp
    have "int (Suc i) \<le> \<lfloor>noOfDev p\<rfloor> + 1" using True by (simp add: le_floor_iff)
    then have IH: "length (bright_from p s (Suc i) ?ms) = length ?ms"
      "\<forall>k < length ?ms. bright_from p s (Suc i) ?ms ! k = (if Suc i \<le> k \<and> of_nat k * num p ''divFact'' \<le> s then brighten (?ms ! k) else ?ms ! k)"
      using 1 True by (simp_all split: if_splits)
    have "bright_from p s (Suc i) ?ms ! k = (if i \<le> k \<and> of_nat k * num p ''divFact'' \<le> s then brighten (ms ! k) else ms ! k)" if "k < length ms" for k
      using IH(2) that True by (cases "k = i") (auto simp: nth_list_update)
    then show ?thesis unfolding eq using IH(1) by simp
  next
    case False
    then have eq: "bright_from p s i ms = ms" by (subst bright_from.simps) auto
    have "\<not> of_nat k * num p ''divFact'' \<le> s" if k: "k < length ms" "i \<le> k" for k
    proof
      assume s: "of_nat k * num p ''divFact'' \<le> s"
      have "int k \<le> \<lfloor>noOfDev p\<rfloor>" using k 1(4) by linarith
      then have "int i \<le> \<lfloor>noOfDev p\<rfloor>" using k by simp
      then have i: "of_nat i \<le> noOfDev p" by (simp add: le_floor_iff)
      have "of_nat i * num p ''divFact'' \<le> of_nat k * num p ''divFact''" using k 1(2) by (intro mult_right_mono) auto
      then show False using False i s by simp
    qed
    then show ?thesis unfolding eq by auto
  qed
qed

lemma bright_from_darken: "map darken (bright_from p s i ms) = map darken ms"
proof (induction p s i ms rule: bright_from.induct)
  case (1 p s i ms)
  have "map darken (ms[i := brighten (ms ! i)]) = map darken ms" if "i < length ms"
    using that by (intro nth_equalityI) (auto simp: nth_list_update darken_def brighten_def)
  then show ?case using 1 by (subst bright_from.simps) auto
qed

lemma darken_darken [simp]: "darken (darken k) = darken k" "darken \<circ> darken = darken"
  by (auto simp: darken_def)

lemma marks_after_change:
  assumes m0: "addSpeedometer userPref elemId = Some m0" "num (mt_prefs m0) ''maxVal'' > 0" "num (mt_prefs m0) ''divFact'' > 0"
    and m: "mt_prefs m = mt_prefs m0" "map darken (mt_marks m) = mt_marks m0" and i: "i < length (mt_marks m0)"
  shows "mt_marks (changePosition val m) ! i
    = (if of_nat i * num (mt_prefs m0) ''divFact'' \<le> clamp (mt_prefs m0) (to_number val)
       then brighten (mt_marks m0 ! i) else mt_marks m0 ! i)"
proof -
  have "length (mt_marks m0) \<le> nat (\<lfloor>noOfDev (mt_prefs m0)\<rfloor> + 1)" using addSpeedometer_marks(2) [OF m0] by simp
  from bright_from_nth [OF m0(3) _ this, of 0] addSpeedometer_marks(3) [OF m0] show ?thesis using i m by simp
qed

text \<open>
  C10: exactly the marks up to the reading shine. After every change of the input, whatever was lit
  before, the line and the number of the i-th mark are bright if and only if the value of the mark is at
  most the reading, cut to the range of the meter; their other properties are unchanged.
\<close>

theorem bright_up_to_reading:
  assumes m: "addSpeedometer userPref elemId = Some m0"
    and p: "num (mt_prefs m0) ''maxVal'' > 0" "num (mt_prefs m0) ''divFact'' > 0" and i: "i < length (mt_marks m0)"
  shows "mt_marks (changePosition val (foldr changePosition vals m0)) ! i
    = (if of_nat i * num (mt_prefs m0) ''divFact'' \<le> clamp (mt_prefs m0) (to_number val)
       then brighten (mt_marks m0 ! i) else mt_marks m0 ! i)"
proof -
  note dark = addSpeedometer_marks(4) [OF m p]
  have "mt_prefs (foldr changePosition vals m0) = mt_prefs m0 \<and> map darken (mt_marks (foldr changePosition vals m0)) = mt_marks m0"
    by (induction vals) (simp_all add: bright_from_darken dark)
  then show ?thesis by (intro marks_after_change [OF m p _ _ i]) simp_all
qed

text \<open>The handler sets \<open>-webkit-transform\<close> twice and never \<open>transform\<close>.\<close>

lemma standard_transform_unset:
  assumes "addSpeedometer userPref elemId = Some m"
  shows "mt_needle (foldr changePosition vals m) ''transform'' = None"
  using assms by (induction vals) (auto simp: addSpeedometer_def Let_def split: option.splits)

subsection \<open>The meter with its default options\<close>

definition demo_meter :: meter where
  "demo_meter = (case addSpeedometer (\<lambda>_. None) ''ws-speedometer'' of None \<Rightarrow>
     \<lparr>mt_prefs = (\<lambda>_. None), mt_parentElemId = [], mt_style = [], mt_marks = [], mt_needle = (\<lambda>_. None), mt_center = None\<rparr>
   | Some m \<Rightarrow> m)"

lemma default_num:
  "num (with_prefs (\<lambda>_. None)) ''maxVal'' = 180" "num (with_prefs (\<lambda>_. None)) ''divFact'' = 10"
  "num (with_prefs (\<lambda>_. None)) ''maxDeg'' = 270" "num (with_prefs (\<lambda>_. None)) ''initDeg'' = -45"
  by (simp_all add: num_def with_prefs_def map_add_def defaultProperty_def)

lemma default_event: "''change'' \<in> set (split_on (CHR '' '') (str_pref (with_prefs (\<lambda>_. None)) ''eventListenerType''))"
  by (simp add: str_pref_def with_prefs_def map_add_def defaultProperty_def)

lemma demo_meter:
  "addSpeedometer (\<lambda>_. None) ''ws-speedometer'' = Some demo_meter" "mt_prefs demo_meter = with_prefs (\<lambda>_. None)"
  "mt_marks demo_meter = indicators_from (with_prefs (\<lambda>_. None)) 0" "length (mt_marks demo_meter) = 19"
proof -
  show "addSpeedometer (\<lambda>_. None) ''ws-speedometer'' = Some demo_meter" "mt_prefs demo_meter = with_prefs (\<lambda>_. None)"
    and m: "mt_marks demo_meter = indicators_from (with_prefs (\<lambda>_. None)) 0"
    by (simp_all add: demo_meter_def addSpeedometer_def createIndicators_def Let_def default_num)
  have "noOfDev (with_prefs (\<lambda>_. None)) = 18" by (simp add: noOfDev_def default_num)
  then show "length (mt_marks demo_meter) = 19" using indicators_from_length [of "with_prefs (\<lambda>_. None)" 0] by (simp add: m)
qed

lemma to_number_90: "to_number ''90'' = Finite 90"
  by code_simp

theorem needle_points_at_mark_witness:
  "\<exists>deg. mt_needle (changePosition ''90'' demo_meter) ''-webkit-transform'' = Some (Some deg) \<and> mk_deg (mt_marks demo_meter ! 9) = Some deg"
proof -
  have "to_number ''90'' = Finite (of_nat 9 * num (mt_prefs demo_meter) ''divFact'')"
    by (simp add: to_number_90 demo_meter(2) default_num)
  with needle_points_at_mark [OF demo_meter(1), of "''90''"] demo_meter(4) show ?thesis
    by (auto simp: demo_meter(2) default_num)
qed

theorem bright_up_to_reading_witness:
  "mt_marks (changePosition ''90'' (foldr changePosition [''30''] demo_meter)) ! 9 = brighten (mt_marks demo_meter ! 9)
   \<and> mt_marks (changePosition ''90'' (foldr changePosition [''30''] demo_meter)) ! 10 = mt_marks demo_meter ! 10"
proof -
  have "clamp (mt_prefs demo_meter) (to_number ''90'') = 90" by (simp add: to_number_90 demo_meter(2) clamp_id default_num)
  then show ?thesis
    using bright_up_to_reading [OF demo_meter(1), of 9 "''90''" "[''30'']"]
      bright_up_to_reading [OF demo_meter(1), of 10 "''90''" "[''30'']"] demo_meter(4)
    by (simp add: demo_meter(2) default_num)
qed

end
