(* ===== verification/W3c_Client.thy ===== *)
theory W3c_Client
  imports Json Speedometer
begin

section \<open>The demo clients\<close>

text \<open>
  The classes of \<open>w3c-client.js\<close>, \<open>ws-w3c.js\<close> and \<open>rest-w3c.js\<close> behind the demo pages: requests to the
  server over a web socket and over HTTP, the log lists of the page, and the messages that move the
  speedometer. The page is a record: the globals, the log lists by element id, the input elements and
  the speedometers by selector, the console, and what was sent. An operation that throws gives the
  error and the state it reached.
\<close>

datatype client_error = SyntaxError | TypeError string | ReferenceError string | InvalidStateError

datatype ready_state = Connecting | Open | Closed

record client_page =
  cp_debug :: bool
  cp_signals :: "string \<rightharpoonup> string"
  cp_logs :: "string \<rightharpoonup> string list"
  cp_inputs :: "string \<Rightarrow> string"
  cp_meters :: "string \<rightharpoonup> meter"
  cp_console :: "string list"
  cp_socket :: "(string \<times> ready_state \<times> string list) option"
  cp_global_socket :: "string list option"
  cp_ajax :: "(string \<times> string \<times> string option) list"

type_synonym client_result = "client_error option \<times> client_page"

fun andThen :: "client_result \<Rightarrow> (client_page \<Rightarrow> client_result) \<Rightarrow> client_result" where
  "andThen (Some err, p) f = (Some err, p)"
| "andThen (None, p) f = f p"

definition console_log :: "string \<Rightarrow> client_page \<Rightarrow> client_page" where
  "console_log s p = p\<lparr>cp_console := cp_console p @ [s]\<rparr>"

subsection \<open>The base class\<close>

text \<open>The console keeps what \<open>log\<close> and \<open>error\<close> write. \<open>self\<close> is the window: the flag is shared by all clients.\<close>

definition new_client :: "bool \<Rightarrow> client_page \<Rightarrow> client_page" where
  "new_client debug p = p\<lparr>cp_debug := debug\<rparr>"

definition handleRequest :: "json \<Rightarrow> client_page \<Rightarrow> client_result" where
  "handleRequest request p =
     (if request = Null then (Some (TypeError ''Cannot read property 'action' of null''), p)
      else (None, if cp_debug p then console_log (text_of request) p else p))"

subsection \<open>What both clients do with the page\<close>

definition append_log :: "string \<Rightarrow> string \<Rightarrow> client_page \<Rightarrow> client_result" where
  "append_log val log_id p =
     (case cp_logs p log_id of
        None \<Rightarrow> (Some (TypeError ''Cannot read property 'append' of null''), p)
      | Some items \<Rightarrow> (None, p\<lparr>cp_logs := (cp_logs p)(log_id \<mapsto> items @ [val])\<rparr>))"

definition val_text :: "json option \<Rightarrow> string" where
  "val_text v = (case v of None \<Rightarrow> [] | Some Null \<Rightarrow> [] | Some x \<Rightarrow> text_of x)"

text \<open>\<open>$(id).val(value)\<close> and the change event, which goes to the speedometer on the input.\<close>

definition updateSpeedometerValue :: "string \<Rightarrow> json option \<Rightarrow> client_page \<Rightarrow> client_page" where
  "updateSpeedometerValue i v p =
     (let s = val_text v
      in p\<lparr>cp_inputs := (cp_inputs p)(i := s),
           cp_meters := (cp_meters p)(i := map_option (trigger_input ''change'' s) (cp_meters p i))\<rparr>)"

definition path_text :: "json \<Rightarrow> string" where
  "path_text request = (case member ''path'' request of None \<Rightarrow> ''undefined'' | Some v \<Rightarrow> text_of v)"

text \<open>
  The switch over the action; its two cases are the same. The operator \<open>in\<close> also finds the names every
  object inherits, such as \<open>toString\<close>; what they stand for selects no input, so nothing changes there.
\<close>

definition dispatch_action :: "json \<Rightarrow> client_page \<Rightarrow> client_page" where
  "dispatch_action request p =
     (if member ''action'' request = Some (Str ''get'') \<or> member ''action'' request = Some (Str ''subscription'')
      then (case cp_signals p (path_text request) of
              None \<Rightarrow> p
            | Some i \<Rightarrow> updateSpeedometerValue i (member ''value'' request) p)
      else p)"

subsection \<open>The web socket client\<close>

definition ws_signals :: "client_page \<Rightarrow> client_page" where
  "ws_signals p = p\<lparr>cp_signals := [''Speed'' \<mapsto> ''#ws-speedometer'']\<rparr>"


definition websocket_onclose :: "client_page \<Rightarrow> client_page" where
  "websocket_onclose p = console_log ''Socket closed'' p"

definition ws_addLog :: "string \<Rightarrow> string \<Rightarrow> client_page \<Rightarrow> client_result" where
  "ws_addLog val log_id p = append_log val log_id (console_log val p)"

definition websocket_onmessage :: "string \<Rightarrow> client_page \<Rightarrow> client_result" where
  "websocket_onmessage data p =
     (case parse data of
        None \<Rightarrow> (Some SyntaxError, p)
      | Some request \<Rightarrow>
          andThen (handleRequest request p)
            (\<lambda>p. andThen (ws_addLog data ''ws-receive-log-list'' p) (\<lambda>p. (None, dispatch_action request p))))"

text \<open>A socket that is still connecting refuses to send, one that is closed drops the message.\<close>

definition send :: "string \<Rightarrow> client_page \<Rightarrow> client_result" where
  "send msg p =
     (case cp_socket p of
        None \<Rightarrow> (Some (TypeError ''Cannot read property 'send' of undefined''), p)
      | Some (url, Connecting, sent) \<Rightarrow> (Some InvalidStateError, p)
      | Some (url, Open, sent) \<Rightarrow> (None, p\<lparr>cp_socket := Some (url, Open, sent @ [msg])\<rparr>)
      | Some (url, Closed, sent) \<Rightarrow> (None, p))"










subsection \<open>The REST client\<close>

definition rest_signals :: "client_page \<Rightarrow> client_page" where
  "rest_signals p = p\<lparr>cp_signals := [''Speed'' \<mapsto> ''#rest-speedometer'']\<rparr>"

definition rest_setup :: "client_page \<Rightarrow> client_page" where
  "rest_setup p = p"

definition ajax :: "string \<Rightarrow> string \<Rightarrow> string option \<Rightarrow> client_page \<Rightarrow> client_page" where
  "ajax method url body p = p\<lparr>cp_ajax := cp_ajax p @ [(method, url, body)]\<rparr>"

definition send_get_request :: "string \<Rightarrow> client_page \<Rightarrow> client_page" where
  "send_get_request request p = ajax ''GET'' (''http://localhost:8888/'' @ request) None p"

definition send_post_request :: "string \<Rightarrow> json \<Rightarrow> client_page \<Rightarrow> client_page" where
  "send_post_request request val p = ajax ''POST'' (''http://localhost:8888/'' @ request) (Some ''123'') p"

definition ajax_error :: "client_page \<Rightarrow> client_page" where
  "ajax_error p = console_log ''error'' p"

definition rest_addLog :: "string \<Rightarrow> string \<Rightarrow> client_page \<Rightarrow> client_result" where
  "rest_addLog val log_id p = append_log val log_id p"

definition message_success :: "json \<Rightarrow> client_page \<Rightarrow> client_result" where
  "message_success request p =
     andThen (handleRequest request p)
       (\<lambda>p. andThen (rest_addLog (text_of request) ''rest-receive-log-list'' p) (\<lambda>p. (None, dispatch_action request p)))"

definition rest_requestGet :: "string \<Rightarrow> client_page \<Rightarrow> client_result" where
  "rest_requestGet path p = andThen (rest_addLog path ''rest-send-log-list'' p) (\<lambda>p. (None, send_get_request path p))"

definition rest_requestSet :: "string \<Rightarrow> json \<Rightarrow> client_page \<Rightarrow> client_result" where
  "rest_requestSet path val p =
     andThen (rest_addLog (path @ '', data: '' @ text_of val) ''rest-send-log-list'' p) (\<lambda>p. (None, send_post_request path val p))"

subsection \<open>What the clients send\<close>




text \<open>The value of a REST set request is not sent.\<close>

lemma rest_set_ignores_value:
  "cp_logs p ''rest-send-log-list'' = Some items \<Longrightarrow>
     cp_ajax (snd (rest_requestSet path v p)) = cp_ajax p @ [(''POST'', ''http://localhost:8888/'' @ path, Some ''123'')]"
  by (simp add: rest_requestSet_def rest_addLog_def append_log_def send_post_request_def ajax_def)

subsection \<open>What a message does\<close>

text \<open>Only a get or subscription message for a known signal reaches an input.\<close>

lemma dispatch_other:
  "member ''action'' request \<noteq> Some (Str ''get'') \<Longrightarrow> member ''action'' request \<noteq> Some (Str ''subscription'') \<Longrightarrow> dispatch_action request p = p"
  by (simp add: dispatch_action_def)

lemma onmessage_speed:
  assumes r: "parse data = Some request" "request \<noteq> Null"
    and a: "member ''action'' request = Some (Str ''get'') \<or> member ''action'' request = Some (Str ''subscription'')"
    and sp: "member ''path'' request = Some (Str ''Speed'')" and v: "member ''value'' request = Some (Str v)"
    and p: "cp_logs p ''ws-receive-log-list'' = Some items" "cp_signals p ''Speed'' = Some i" "cp_meters p i = Some m"
    and ev: "''change'' \<in> set (split_on (CHR '' '') (str_pref (mt_prefs m) ''eventListenerType''))"
  shows "\<exists>p'. websocket_onmessage data p = (None, p') \<and> cp_inputs p' i = v \<and> cp_meters p' i = Some (changePosition v m)
    \<and> cp_logs p' ''ws-receive-log-list'' = Some (items @ [data])"
  using assms
  by (auto simp: websocket_onmessage_def handleRequest_def ws_addLog_def append_log_def console_log_def
        dispatch_action_def path_text_def updateSpeedometerValue_def trigger_input_def val_text_def Let_def)

subsection \<open>The page of the web socket demo\<close>




end
