(* ===== verification/Dom.thy ===== *)
theory Dom
  imports Prelude
begin

section \<open>The document and the jQuery operations the components use\<close>

text \<open>
  The document as the code sees it through jQuery: elements are numbers; a record holds the tree
  (each element's parent and one list with every element in tree order, detached ones included),
  class lists, attributes, inline styles, form state and the focused element. The last field is the
  environment and no operation changes it: \<open>vetoes\<close> says whether the page's own handlers call
  \<open>preventDefault\<close> on the last event of a history, \<open>query\<close> is the selector engine applied to a
  selector string taken from an attribute (\<open>None\<close> when it throws), and \<open>touch\<close> tells whether
  \<open>'ontouchstart' in document.documentElement\<close>. \<open>escapeSelector\<close> is jQuery's function of that name
  (absent before jQuery 3), \<open>visibilityState\<close> says whether the browser reports page visibility and
  \<open>visible\<close> whether an element can be seen at a point of the history; \<open>has_popper\<close> says
  whether the Popper library is loaded and \<open>popper_sets\<close> the placement it writes on what it positions;
  \<open>parse_html\<close> gives the classes of the element a template makes, \<open>call_fn\<close> what a function among an
  element's options returns, \<open>random\<close> the random draws; \<open>measure_of\<close> is what layout
  reports for a property of an element, such as \<open>scrollHeight\<close>, in pixels. Page handlers veto events; they do not call back
  into the components.
\<close>

subsection \<open>JavaScript values and objects\<close>

type_synonym elem = nat

datatype jsval =
    JUndef
  | JNull
  | JBool bool
  | JNum int
  | JStr string
  | JFun
  | JArr "string list"
  | JObj
  | JElem elem
  | JQuery "elem list"

type_synonym jsobj = "string \<Rightarrow> jsval option"

fun truthy :: "jsval \<Rightarrow> bool" where
  "truthy JUndef = False"
| "truthy JNull = False"
| "truthy (JBool b) = b"
| "truthy (JNum n) = (n \<noteq> 0)"
| "truthy (JStr s) = (s \<noteq> '''')"
| "truthy _ = True"

definition get :: "jsobj \<Rightarrow> string \<Rightarrow> jsval" where
  "get ob k = (case ob k of None \<Rightarrow> JUndef | Some v \<Rightarrow> v)"

subsection \<open>Events and the document\<close>

datatype event = Event (ev_name: string) (ev_target: elem) (ev_related: "elem option")

record tree =
  node_order :: "elem list"
  parent_of :: "elem \<Rightarrow> elem option"
  html_elem :: elem
  body_elem :: elem

record env =
  vetoes :: "event list \<Rightarrow> bool"
  query :: "tree \<times> (elem \<Rightarrow> string list) \<times> (elem \<Rightarrow> string \<Rightarrow> string option) \<Rightarrow> string \<Rightarrow> elem list option"
  touch :: bool
  escapeSelector :: "(string \<Rightarrow> string) option"
  visibilityState :: bool
  visible :: "event list \<Rightarrow> elem \<Rightarrow> bool"
  has_popper :: bool
  popper_sets :: "event list \<Rightarrow> string option"
  parse_html :: "string \<Rightarrow> string list"
  call_fn :: "event list \<Rightarrow> elem \<Rightarrow> string \<Rightarrow> jsval"
  random :: "event list \<Rightarrow> nat \<Rightarrow> nat"
  measure_of :: "event list \<Rightarrow> elem \<Rightarrow> string \<Rightarrow> int"

record dom =
  dtree :: tree
  tag_of :: "elem \<Rightarrow> string"
  class_of :: "elem \<Rightarrow> string list"
  attr_of :: "elem \<Rightarrow> string \<Rightarrow> string option"
  style_of :: "elem \<Rightarrow> string \<Rightarrow> string"
  data_of :: "elem \<Rightarrow> jsobj"
  checked_of :: "elem \<Rightarrow> bool"
  focused :: "elem option"
  event_log :: "event list"
  env :: env

subsection \<open>The tree\<close>

fun chain :: "nat \<Rightarrow> (elem \<Rightarrow> elem option) \<Rightarrow> elem \<Rightarrow> elem list" where
  "chain 0 p x = []"
| "chain (Suc n) p x = (case p x of None \<Rightarrow> [] | Some q \<Rightarrow> q # chain n p q)"

text \<open>The proper ancestors, nearest first. A chain of distinct elements is no longer than the list.\<close>

definition ancestors :: "tree \<Rightarrow> elem \<Rightarrow> elem list" where
  "ancestors t x = chain (length (node_order t)) (parent_of t) x"

definition is_desc :: "tree \<Rightarrow> elem \<Rightarrow> elem \<Rightarrow> bool" where
  "is_desc t r x \<longleftrightarrow> r \<in> set (ancestors t x)"

definition in_subtree :: "tree \<Rightarrow> elem \<Rightarrow> elem \<Rightarrow> bool" where
  "in_subtree t r x \<longleftrightarrow> x = r \<or> is_desc t r x"

definition attached :: "tree \<Rightarrow> elem \<Rightarrow> bool" where
  "attached t x \<longleftrightarrow> in_subtree t (html_elem t) x"

definition document_elems :: "tree \<Rightarrow> elem list" where
  "document_elems t = filter (attached t) (node_order t)"

text \<open>\<open>$(root).find(sel)\<close>, \<open>$(sel)\<close>, \<open>$(root).children(sel)\<close>, \<open>$(x).closest(sel)\<close> for a selector as a predicate.\<close>

type_synonym selector = "dom \<Rightarrow> elem \<Rightarrow> bool"

definition jq_find :: "selector \<Rightarrow> elem \<Rightarrow> dom \<Rightarrow> elem list" where
  "jq_find sel root d = filter (\<lambda>x. is_desc (dtree d) root x \<and> sel d x) (node_order (dtree d))"

definition jq_all :: "selector \<Rightarrow> dom \<Rightarrow> elem list" where
  "jq_all sel d = filter (sel d) (document_elems (dtree d))"

definition jq_children :: "selector \<Rightarrow> elem \<Rightarrow> dom \<Rightarrow> elem list" where
  "jq_children sel root d =
     filter (\<lambda>x. parent_of (dtree d) x = Some root \<and> sel d x) (node_order (dtree d))"

definition first :: "'a list \<Rightarrow> 'a option" where
  "first xs = (case xs of [] \<Rightarrow> None | x # _ \<Rightarrow> Some x)"

definition jq_closest :: "selector \<Rightarrow> elem \<Rightarrow> dom \<Rightarrow> elem option" where
  "jq_closest sel x d = first (filter (sel d) (x # ancestors (dtree d) x))"

text \<open>\<open>$(s)\<close> for a selector string: the engine's answer on the current document.\<close>

definition select :: "string \<Rightarrow> dom \<Rightarrow> elem list option" where
  "select s d = query (env d) (dtree d, class_of d, attr_of d) s"

subsection \<open>Classes, attributes, styles\<close>

definition hasClass :: "elem \<Rightarrow> string \<Rightarrow> dom \<Rightarrow> bool" where
  "hasClass e c d \<longleftrightarrow> c \<in> set (class_of d e)"

definition addClass :: "string \<Rightarrow> elem \<Rightarrow> dom \<Rightarrow> dom" where
  "addClass c e d =
     d\<lparr>class_of := (class_of d)(e := if c \<in> set (class_of d e) then class_of d e else class_of d e @ [c])\<rparr>"

definition removeClass :: "string \<Rightarrow> elem \<Rightarrow> dom \<Rightarrow> dom" where
  "removeClass c e d = d\<lparr>class_of := (class_of d)(e := filter (\<lambda>k. k \<noteq> c) (class_of d e))\<rparr>"

definition toggleClass :: "string \<Rightarrow> elem \<Rightarrow> dom \<Rightarrow> dom" where
  "toggleClass c e d = (if hasClass e c d then removeClass c e d else addClass c e d)"

definition toggleClassTo :: "string \<Rightarrow> bool \<Rightarrow> elem \<Rightarrow> dom \<Rightarrow> dom" where
  "toggleClassTo c b e d = (if b then addClass c e d else removeClass c e d)"

definition setAttr :: "string \<Rightarrow> string \<Rightarrow> elem \<Rightarrow> dom \<Rightarrow> dom" where
  "setAttr k v e d = d\<lparr>attr_of := (attr_of d)(e := (attr_of d e)(k \<mapsto> v))\<rparr>"

definition removeAttr :: "string \<Rightarrow> elem \<Rightarrow> dom \<Rightarrow> dom" where
  "removeAttr k e d = d\<lparr>attr_of := (attr_of d)(e := (attr_of d e)(k := None))\<rparr>"

definition setStyle :: "string \<Rightarrow> string \<Rightarrow> elem \<Rightarrow> dom \<Rightarrow> dom" where
  "setStyle k v e d = d\<lparr>style_of := (style_of d)(e := (style_of d e)(k := v))\<rparr>"

definition setData :: "string \<Rightarrow> jsval \<Rightarrow> elem \<Rightarrow> dom \<Rightarrow> dom" where
  "setData k v e d = d\<lparr>data_of := (data_of d)(e := (data_of d e)(k \<mapsto> v))\<rparr>"

definition removeData :: "string \<Rightarrow> elem \<Rightarrow> dom \<Rightarrow> dom" where
  "removeData k e d = d\<lparr>data_of := (data_of d)(e := (data_of d e)(k := None))\<rparr>"

definition setChecked :: "bool \<Rightarrow> elem \<Rightarrow> dom \<Rightarrow> dom" where
  "setChecked b e d = d\<lparr>checked_of := (checked_of d)(e := b)\<rparr>"

definition focus :: "elem \<Rightarrow> dom \<Rightarrow> dom" where
  "focus e d = d\<lparr>focused := Some e\<rparr>"

definition bool_str :: "bool \<Rightarrow> string" where
  "bool_str b = (if b then ''true'' else ''false'')"

text \<open>How a value reads inside a string.\<close>

fun js_string :: "jsval \<Rightarrow> string" where
  "js_string (JStr s) = s"
| "js_string JUndef = ''undefined''"
| "js_string JNull = ''null''"
| "js_string (JBool b) = bool_str b"
| "js_string (JNum n) = int_str n"
| "js_string (JElem _) = ''[object HTMLElement]''"
| "js_string _ = ''[object Object]''"

definition px :: "int \<Rightarrow> string" where
  "px k = int_str k @ ''px''"

definition layout :: "elem \<Rightarrow> string \<Rightarrow> dom \<Rightarrow> int" where
  "layout e k d = measure_of (env d) (event_log d) e k"

subsection \<open>Moving elements\<close>

definition detach :: "elem \<Rightarrow> dom \<Rightarrow> dom" where
  "detach e d = d\<lparr>dtree := (dtree d)\<lparr>parent_of := (parent_of (dtree d))(e := None)\<rparr>\<rparr>"

text \<open>\<open>document.body.appendChild(e)\<close>: the body's subtree ends the tree order, so the moved subtree does.\<close>

definition append_to_body :: "elem \<Rightarrow> dom \<Rightarrow> dom" where
  "append_to_body e d =
     (let t = dtree d;
          moved = (if e \<in> set (node_order t) then filter (in_subtree t e) (node_order t) else [e])
      in d\<lparr>dtree := t\<lparr>node_order := filter (\<lambda>x. \<not> in_subtree t e x) (node_order t) @ moved,
                      parent_of := (parent_of t)(e \<mapsto> body_elem t)\<rparr>\<rparr>)"

text \<open>\<open>parent.appendChild(e)\<close>: after the last element below the parent.\<close>

definition append_child :: "elem \<Rightarrow> elem \<Rightarrow> dom \<Rightarrow> dom" where
  "append_child c e d =
     (let t = dtree d;
          moved = (if e \<in> set (node_order t) then filter (in_subtree t e) (node_order t) else [e]);
          others = filter (\<lambda>x. \<not> in_subtree t e x) (node_order t);
          after = takeWhile (\<lambda>x. \<not> in_subtree t c x) (rev others)
      in d\<lparr>dtree := t\<lparr>node_order := take (length others - length after) others @ moved @ rev after,
                      parent_of := (parent_of t)(e \<mapsto> c)\<rparr>\<rparr>)"

text \<open>\<open>document.createElement(tag)\<close> with its \<open>className\<close>: an element no document has had.\<close>

definition fresh_elem :: "dom \<Rightarrow> elem" where
  "fresh_elem d = Suc (fold max (node_order (dtree d)) 0)"

definition createElement :: "string \<Rightarrow> string list \<Rightarrow> elem \<Rightarrow> dom \<Rightarrow> dom" where
  "createElement tag classes x d =
     d\<lparr>tag_of := (tag_of d)(x := tag), class_of := (class_of d)(x := classes), attr_of := (attr_of d)(x := \<lambda>_. None),
       style_of := (style_of d)(x := \<lambda>_. []), data_of := (data_of d)(x := \<lambda>_. None), checked_of := (checked_of d)(x := False)\<rparr>"

text \<open>An element made and not yet inserted.\<close>

definition new_detached :: "string \<Rightarrow> string list \<Rightarrow> elem \<Rightarrow> dom \<Rightarrow> dom" where
  "new_detached tag classes x d =
     (createElement tag classes x d)\<lparr>dtree := (dtree d)\<lparr>node_order := node_order (dtree d) @ [x],
        parent_of := (parent_of (dtree d))(x := None)\<rparr>\<rparr>"

subsection \<open>Events\<close>

text \<open>\<open>$(e).trigger(ev)\<close>: the event joins the history; the result says whether a handler prevented it.\<close>

definition trigger :: "string \<Rightarrow> elem option \<Rightarrow> elem \<Rightarrow> dom \<Rightarrow> bool \<times> dom" where
  "trigger ev rel e d =
     (let log = event_log d @ [Event ev e rel] in (vetoes (env d) log, d\<lparr>event_log := log\<rparr>))"

definition fire :: "string \<Rightarrow> elem option \<Rightarrow> elem \<Rightarrow> dom \<Rightarrow> dom" where
  "fire ev rel e d = snd (trigger ev rel e d)"

subsection \<open>What each operation leaves alone\<close>

text \<open>Every operation writes one field of the document; the other nine are as before.\<close>

lemma addClass_frame [simp, dom_simps]:
  "dtree (addClass c e d) = dtree d" "tag_of (addClass c e d) = tag_of d" "attr_of (addClass c e d) = attr_of d"
  "style_of (addClass c e d) = style_of d" "data_of (addClass c e d) = data_of d" "checked_of (addClass c e d) = checked_of d"
  "focused (addClass c e d) = focused d" "event_log (addClass c e d) = event_log d" "env (addClass c e d) = env d"
  by (simp_all add: addClass_def)

lemma removeClass_frame [simp, dom_simps]:
  "dtree (removeClass c e d) = dtree d" "tag_of (removeClass c e d) = tag_of d" "attr_of (removeClass c e d) = attr_of d"
  "style_of (removeClass c e d) = style_of d" "data_of (removeClass c e d) = data_of d" "checked_of (removeClass c e d) = checked_of d"
  "focused (removeClass c e d) = focused d" "event_log (removeClass c e d) = event_log d" "env (removeClass c e d) = env d"
  by (simp_all add: removeClass_def)

lemma toggleClass_frame [simp, dom_simps]:
  "dtree (toggleClass c e d) = dtree d" "tag_of (toggleClass c e d) = tag_of d" "attr_of (toggleClass c e d) = attr_of d"
  "style_of (toggleClass c e d) = style_of d" "data_of (toggleClass c e d) = data_of d" "checked_of (toggleClass c e d) = checked_of d"
  "focused (toggleClass c e d) = focused d" "event_log (toggleClass c e d) = event_log d" "env (toggleClass c e d) = env d"
  by (simp_all add: toggleClass_def)

lemma toggleClassTo_frame [simp, dom_simps]:
  "dtree (toggleClassTo c b e d) = dtree d" "tag_of (toggleClassTo c b e d) = tag_of d" "attr_of (toggleClassTo c b e d) = attr_of d"
  "style_of (toggleClassTo c b e d) = style_of d" "data_of (toggleClassTo c b e d) = data_of d" "checked_of (toggleClassTo c b e d) = checked_of d"
  "focused (toggleClassTo c b e d) = focused d" "event_log (toggleClassTo c b e d) = event_log d" "env (toggleClassTo c b e d) = env d"
  by (simp_all add: toggleClassTo_def)

lemma setAttr_frame [simp, dom_simps]:
  "dtree (setAttr k v e d) = dtree d" "tag_of (setAttr k v e d) = tag_of d" "class_of (setAttr k v e d) = class_of d"
  "style_of (setAttr k v e d) = style_of d" "data_of (setAttr k v e d) = data_of d" "checked_of (setAttr k v e d) = checked_of d"
  "focused (setAttr k v e d) = focused d" "event_log (setAttr k v e d) = event_log d" "env (setAttr k v e d) = env d"
  by (simp_all add: setAttr_def)

lemma removeAttr_frame [simp, dom_simps]:
  "dtree (removeAttr k e d) = dtree d" "tag_of (removeAttr k e d) = tag_of d" "class_of (removeAttr k e d) = class_of d"
  "style_of (removeAttr k e d) = style_of d" "data_of (removeAttr k e d) = data_of d" "checked_of (removeAttr k e d) = checked_of d"
  "focused (removeAttr k e d) = focused d" "event_log (removeAttr k e d) = event_log d" "env (removeAttr k e d) = env d"
  by (simp_all add: removeAttr_def)

lemma setStyle_frame [simp, dom_simps]:
  "dtree (setStyle k v e d) = dtree d" "tag_of (setStyle k v e d) = tag_of d" "class_of (setStyle k v e d) = class_of d"
  "attr_of (setStyle k v e d) = attr_of d" "data_of (setStyle k v e d) = data_of d" "checked_of (setStyle k v e d) = checked_of d"
  "focused (setStyle k v e d) = focused d" "event_log (setStyle k v e d) = event_log d" "env (setStyle k v e d) = env d"
  by (simp_all add: setStyle_def)

lemma setData_frame [simp, dom_simps]:
  "dtree (setData k w e d) = dtree d" "tag_of (setData k x e d) = tag_of d" "class_of (setData k x e d) = class_of d"
  "attr_of (setData k w e d) = attr_of d" "style_of (setData k x e d) = style_of d" "checked_of (setData k x e d) = checked_of d"
  "focused (setData k w e d) = focused d" "event_log (setData k x e d) = event_log d" "env (setData k x e d) = env d"
  by (simp_all add: setData_def)

lemma removeData_frame [simp, dom_simps]:
  "dtree (removeData k e d) = dtree d" "tag_of (removeData k e d) = tag_of d" "class_of (removeData k e d) = class_of d"
  "attr_of (removeData k e d) = attr_of d" "style_of (removeData k e d) = style_of d" "checked_of (removeData k e d) = checked_of d"
  "focused (removeData k e d) = focused d" "event_log (removeData k e d) = event_log d" "env (removeData k e d) = env d"
  by (simp_all add: removeData_def)

lemma setChecked_frame [simp, dom_simps]:
  "dtree (setChecked b e d) = dtree d" "tag_of (setChecked b e d) = tag_of d" "class_of (setChecked b e d) = class_of d"
  "attr_of (setChecked b e d) = attr_of d" "style_of (setChecked b e d) = style_of d" "data_of (setChecked b e d) = data_of d"
  "focused (setChecked b e d) = focused d" "event_log (setChecked b e d) = event_log d" "env (setChecked b e d) = env d"
  by (simp_all add: setChecked_def)

lemma focus_frame [simp, dom_simps]:
  "dtree (focus e d) = dtree d" "tag_of (focus e d) = tag_of d" "class_of (focus e d) = class_of d"
  "attr_of (focus e d) = attr_of d" "style_of (focus e d) = style_of d" "data_of (focus e d) = data_of d"
  "checked_of (focus e d) = checked_of d" "event_log (focus e d) = event_log d" "env (focus e d) = env d"
  by (simp_all add: focus_def)

lemma detach_frame [simp, dom_simps]:
  "tag_of (detach e d) = tag_of d" "class_of (detach e d) = class_of d" "attr_of (detach e d) = attr_of d"
  "style_of (detach e d) = style_of d" "data_of (detach e d) = data_of d" "checked_of (detach e d) = checked_of d"
  "focused (detach e d) = focused d" "event_log (detach e d) = event_log d" "env (detach e d) = env d"
  by (simp_all add: detach_def)

lemma append_to_body_frame [simp, dom_simps]:
  "tag_of (append_to_body e d) = tag_of d" "class_of (append_to_body e d) = class_of d" "attr_of (append_to_body e d) = attr_of d"
  "style_of (append_to_body e d) = style_of d" "data_of (append_to_body e d) = data_of d" "checked_of (append_to_body e d) = checked_of d"
  "focused (append_to_body e d) = focused d" "event_log (append_to_body e d) = event_log d" "env (append_to_body e d) = env d"
  by (simp_all add: append_to_body_def Let_def)

lemma fire_frame [simp, dom_simps]:
  "dtree (fire n r e d) = dtree d" "tag_of (fire n r e d) = tag_of d" "class_of (fire n r e d) = class_of d"
  "attr_of (fire n r e d) = attr_of d" "style_of (fire n r e d) = style_of d" "data_of (fire n r e d) = data_of d"
  "checked_of (fire n r e d) = checked_of d" "focused (fire n r e d) = focused d" "env (fire n r e d) = env d"
  by (simp_all add: fire_def trigger_def Let_def)

lemma fire_log [simp, dom_simps]: "event_log (fire n r e d) = event_log d @ [Event n e r]"
  by (simp add: fire_def trigger_def Let_def)

lemma trigger_fire: "trigger n r e d = (vetoes (env d) (event_log d @ [Event n e r]), fire n r e d)"
  by (simp add: fire_def trigger_def Let_def)

subsection \<open>Classes after a change\<close>

lemma hasClass_addClass [simp, dom_simps]:
  "hasClass x k (addClass c e d) \<longleftrightarrow> hasClass x k d \<or> (x = e \<and> k = c)"
  by (auto simp: hasClass_def addClass_def)

lemma hasClass_removeClass [simp, dom_simps]:
  "hasClass x k (removeClass c e d) \<longleftrightarrow> hasClass x k d \<and> \<not> (x = e \<and> k = c)"
  by (auto simp: hasClass_def removeClass_def)

lemma hasClass_toggleClass [simp, dom_simps]:
  "hasClass x k (toggleClass c e d) \<longleftrightarrow> (if x = e \<and> k = c then \<not> hasClass x k d else hasClass x k d)"
  by (auto simp: toggleClass_def)

lemma hasClass_toggleClassTo [simp, dom_simps]:
  "hasClass x k (toggleClassTo c b e d) \<longleftrightarrow> (if x = e \<and> k = c then b else hasClass x k d)"
  by (auto simp: toggleClassTo_def)

lemma hasClass_cong: "class_of d' = class_of d \<Longrightarrow> hasClass x k d' = hasClass x k d"
  by (simp add: hasClass_def)

lemma hasClass_other [simp, dom_simps]:
  "hasClass x c (setAttr k v e d) = hasClass x c d"
  "hasClass x c (removeAttr k e d) = hasClass x c d"
  "hasClass x c (setStyle k v e d) = hasClass x c d"
  "hasClass x c (setData k w e d) = hasClass x c d"
  "hasClass x c (removeData k e d) = hasClass x c d"
  "hasClass x c (setChecked b e d) = hasClass x c d"
  "hasClass x c (focus e d) = hasClass x c d"
  "hasClass x c (detach e d) = hasClass x c d"
  "hasClass x c (append_to_body e d) = hasClass x c d"
  "hasClass x c (fire n r e d) = hasClass x c d"
  by (simp_all add: hasClass_def)

lemma addClass_idem: "hasClass e c d \<Longrightarrow> addClass c e d = d"
  by (simp add: addClass_def hasClass_def)

lemma attr_of_setAttr [simp, dom_simps]:
  "attr_of (setAttr k v e d) x j = (if x = e \<and> j = k then Some v else attr_of d x j)"
  "attr_of (removeAttr k e d) x j = (if x = e \<and> j = k then None else attr_of d x j)"
  by (simp_all add: setAttr_def removeAttr_def)

lemma style_of_setStyle [simp, dom_simps]:
  "style_of (setStyle k v e d) x j = (if x = e \<and> j = k then v else style_of d x j)"
  by (simp add: setStyle_def)

lemma data_of_setData [simp, dom_simps]:
  "data_of (setData k v e d) x j = (if x = e \<and> j = k then Some v else data_of d x j)"
  "data_of (removeData k e d) x j = (if x = e \<and> j = k then None else data_of d x j)"
  by (simp_all add: setData_def removeData_def)

lemma checked_of_setChecked [simp, dom_simps]:
  "checked_of (setChecked b e d) x = (if x = e then b else checked_of d x)"
  by (simp add: setChecked_def)

lemma focused_focus [simp, dom_simps]: "focused (focus e d) = Some e"
  by (simp add: focus_def)

subsection \<open>The same change on several elements\<close>

lemma fold_frame: "(\<And>x d. g (f x d) = g d) \<Longrightarrow> g (fold f xs d) = g d"
  by (induction xs arbitrary: d) auto

lemma fold_addClass_frame [simp, dom_simps]:
  "dtree (fold (addClass c) xs d) = dtree d" "tag_of (fold (addClass c) xs d) = tag_of d"
  "attr_of (fold (addClass c) xs d) = attr_of d" "style_of (fold (addClass c) xs d) = style_of d"
  "data_of (fold (addClass c) xs d) = data_of d" "checked_of (fold (addClass c) xs d) = checked_of d"
  "focused (fold (addClass c) xs d) = focused d" "event_log (fold (addClass c) xs d) = event_log d"
  "env (fold (addClass c) xs d) = env d"
  by (rule fold_frame, simp)+

lemma fold_removeClass_frame [simp, dom_simps]:
  "dtree (fold (removeClass c) xs d) = dtree d" "tag_of (fold (removeClass c) xs d) = tag_of d"
  "attr_of (fold (removeClass c) xs d) = attr_of d" "style_of (fold (removeClass c) xs d) = style_of d"
  "data_of (fold (removeClass c) xs d) = data_of d" "checked_of (fold (removeClass c) xs d) = checked_of d"
  "focused (fold (removeClass c) xs d) = focused d" "event_log (fold (removeClass c) xs d) = event_log d"
  "env (fold (removeClass c) xs d) = env d"
  by (rule fold_frame, simp)+

lemma fold_setAttr_frame [simp, dom_simps]:
  "dtree (fold (setAttr k v) xs d) = dtree d" "tag_of (fold (setAttr k v) xs d) = tag_of d"
  "class_of (fold (setAttr k v) xs d) = class_of d" "style_of (fold (setAttr k v) xs d) = style_of d"
  "data_of (fold (setAttr k v) xs d) = data_of d" "checked_of (fold (setAttr k v) xs d) = checked_of d"
  "focused (fold (setAttr k v) xs d) = focused d" "event_log (fold (setAttr k v) xs d) = event_log d"
  "env (fold (setAttr k v) xs d) = env d"
  by (rule fold_frame, simp)+

lemma fold_setStyle_frame [simp, dom_simps]:
  "dtree (fold (setStyle k v) xs d) = dtree d" "tag_of (fold (setStyle k v) xs d) = tag_of d"
  "class_of (fold (setStyle k v) xs d) = class_of d" "attr_of (fold (setStyle k v) xs d) = attr_of d"
  "data_of (fold (setStyle k v) xs d) = data_of d" "checked_of (fold (setStyle k v) xs d) = checked_of d"
  "focused (fold (setStyle k v) xs d) = focused d" "event_log (fold (setStyle k v) xs d) = event_log d"
  "env (fold (setStyle k v) xs d) = env d"
  by (rule fold_frame, simp)+

lemma fold_toggleClassTo_frame [simp, dom_simps]:
  "dtree (fold (toggleClassTo c b) xs d) = dtree d" "tag_of (fold (toggleClassTo c b) xs d) = tag_of d"
  "attr_of (fold (toggleClassTo c b) xs d) = attr_of d" "style_of (fold (toggleClassTo c b) xs d) = style_of d"
  "data_of (fold (toggleClassTo c b) xs d) = data_of d" "checked_of (fold (toggleClassTo c b) xs d) = checked_of d"
  "focused (fold (toggleClassTo c b) xs d) = focused d" "event_log (fold (toggleClassTo c b) xs d) = event_log d"
  "env (fold (toggleClassTo c b) xs d) = env d"
  by (rule fold_frame, simp)+

lemma hasClass_fold_addClass [simp, dom_simps]:
  "hasClass x k (fold (addClass c) xs d) \<longleftrightarrow> hasClass x k d \<or> (x \<in> set xs \<and> k = c)"
  by (induction xs arbitrary: d) auto

lemma hasClass_fold_removeClass [simp, dom_simps]:
  "hasClass x k (fold (removeClass c) xs d) \<longleftrightarrow> hasClass x k d \<and> \<not> (x \<in> set xs \<and> k = c)"
  by (induction xs arbitrary: d) auto

lemma hasClass_fold_toggleClassTo [simp, dom_simps]:
  "hasClass x k (fold (toggleClassTo c b) xs d) \<longleftrightarrow> (if x \<in> set xs \<and> k = c then b else hasClass x k d)"
  by (induction xs arbitrary: d) auto

lemma hasClass_fold_setAttr [simp, dom_simps]: "hasClass x c (fold (setAttr k v) xs d) = hasClass x c d"
  by (simp add: hasClass_def)

lemma attr_of_fold_setAttr [simp, dom_simps]:
  "attr_of (fold (setAttr k v) xs d) x j = (if x \<in> set xs \<and> j = k then Some v else attr_of d x j)"
  by (induction xs arbitrary: d) auto

subsection \<open>Finding elements\<close>

lemma set_jq_find: "x \<in> set (jq_find sel r d) \<longleftrightarrow> x \<in> set (node_order (dtree d)) \<and> is_desc (dtree d) r x \<and> sel d x"
  by (auto simp: jq_find_def)

lemma set_jq_all: "x \<in> set (jq_all sel d) \<longleftrightarrow> x \<in> set (document_elems (dtree d)) \<and> sel d x"
  by (auto simp: jq_all_def)

lemma set_jq_children:
  "x \<in> set (jq_children sel r d) \<longleftrightarrow> x \<in> set (node_order (dtree d)) \<and> parent_of (dtree d) x = Some r \<and> sel d x"
  by (auto simp: jq_children_def)

lemma first_Some: "first xs = Some x \<Longrightarrow> x \<in> set xs"
  by (cases xs) (auto simp: first_def)

lemma first_simps [simp]: "first [] = None" "first (x # xs) = Some x"
  by (simp_all add: first_def)

lemma first_None [simp]: "first xs = None \<longleftrightarrow> xs = []"
  by (cases xs) auto

lemma jq_closest_Some:
  "jq_closest sel x d = Some r \<Longrightarrow> sel d r \<and> (r = x \<or> is_desc (dtree d) r x)"
  by (drule first_Some [of "filter (sel d) (x # ancestors (dtree d) x)" r, folded jq_closest_def])
     (auto simp: is_desc_def split: if_splits)

lemma jq_closest_None: "jq_closest sel x d = None \<longleftrightarrow> \<not> (\<exists>r. in_subtree (dtree d) r x \<and> sel d r)"
  by (auto simp: jq_closest_def in_subtree_def is_desc_def filter_empty_conv)

lemma detached_not_attached:
  assumes "e \<noteq> html_elem (dtree d)"
  shows "\<not> attached (dtree (detach e d)) e"
proof (cases "length (node_order (dtree d))")
  case 0
  then show ?thesis using assms by (simp add: attached_def in_subtree_def is_desc_def ancestors_def detach_def)
next
  case (Suc n)
  then show ?thesis using assms by (simp add: attached_def in_subtree_def is_desc_def ancestors_def detach_def)
qed

subsection \<open>Documents that differ only in classes and \<open>aria-expanded\<close>\<close>

text \<open>What stays: the tree and every attribute but \<open>aria-expanded\<close>.\<close>

definition same_frame :: "dom \<Rightarrow> dom \<Rightarrow> bool" where
  "same_frame d' d \<longleftrightarrow> dtree d' = dtree d \<and> env d' = env d
     \<and> (\<forall>x k. k \<noteq> ''aria-expanded'' \<longrightarrow> attr_of d' x k = attr_of d x k)"

lemma same_frame_trans: "same_frame d'' d' \<Longrightarrow> same_frame d' d \<Longrightarrow> same_frame d'' d"
  by (simp add: same_frame_def)

subsection \<open>Concrete documents\<close>

text \<open>
  A document from a listing of its elements in tree order, each with its parent, tag, classes and
  attributes; element 0 is the root and element 1 the body. The page prevents no event and the
  selector engine knows id selectors.
\<close>

type_synonym listing = "(elem \<times> elem option \<times> string \<times> string list \<times> (string \<times> string) list) list"

definition page :: "listing \<Rightarrow> dom" where
  "page es =
     \<lparr>dtree = \<lparr>node_order = map fst es, parent_of = (\<lambda>x. case map_of es x of None \<Rightarrow> None | Some (p, _) \<Rightarrow> p),
              html_elem = 0, body_elem = 1\<rparr>,
      tag_of = (\<lambda>x. case map_of es x of None \<Rightarrow> '''' | Some (_, t, _) \<Rightarrow> t),
      class_of = (\<lambda>x. case map_of es x of None \<Rightarrow> [] | Some (_, _, c, _) \<Rightarrow> c),
      attr_of = (\<lambda>x. case map_of es x of None \<Rightarrow> (\<lambda>_. None) | Some (_, _, _, a) \<Rightarrow> map_of a),
      style_of = (\<lambda>_ _. ''''), data_of = (\<lambda>_ _. None), checked_of = (\<lambda>_. False), focused = None,
      event_log = [],
      env = \<lparr>vetoes = (\<lambda>_. False),
             query = (\<lambda>(t, c, a) s. Some (filter (\<lambda>x. map_option (\<lambda>i. CHR ''#'' # i) (a x ''id'') = Some s) (document_elems t))),
             touch = False, escapeSelector = None, visibilityState = True, visible = (\<lambda>_ _. True), has_popper = True,
             popper_sets = (\<lambda>_. Some ''top''), parse_html = (\<lambda>s. [s]), call_fn = (\<lambda>_ _ _. JUndef), random = (\<lambda>_ k. k), measure_of = (\<lambda>_ _ _. 0)\<rparr>\<rparr>"

lemma page_simps [simp]:
  "node_order (dtree (page es)) = map fst es"
  "html_elem (dtree (page es)) = 0" "body_elem (dtree (page es)) = 1"
  "parent_of (dtree (page es)) x = (case map_of es x of None \<Rightarrow> None | Some (p, _) \<Rightarrow> p)"
  "tag_of (page es) x = (case map_of es x of None \<Rightarrow> '''' | Some (_, t, _) \<Rightarrow> t)"
  "class_of (page es) x = (case map_of es x of None \<Rightarrow> [] | Some (_, _, c, _) \<Rightarrow> c)"
  "attr_of (page es) x = (case map_of es x of None \<Rightarrow> (\<lambda>_. None) | Some (_, _, _, a) \<Rightarrow> map_of a)"
  "style_of (page es) = (\<lambda>_ _. '''')" "data_of (page es) = (\<lambda>_ _. None)" "checked_of (page es) = (\<lambda>_. False)"
  "focused (page es) = None" "event_log (page es) = []" "vetoes (env (page es)) = (\<lambda>_. False)"
  "escapeSelector (env (page es)) = None" "touch (env (page es)) = False"
  "visibilityState (env (page es))" "visible (env (page es)) = (\<lambda>_ _. True)"
  by (simp_all add: page_def)

lemma hasClass_page [simp]:
  "hasClass x c (page es) = (case map_of es x of None \<Rightarrow> False | Some (_, _, cs, _) \<Rightarrow> c \<in> set cs)"
  by (simp add: hasClass_def split: option.split prod.split)

lemma select_page:
  "select s (page es) =
     Some (filter (\<lambda>x. map_option (\<lambda>i. CHR ''#'' # i) (attr_of (page es) x ''id'') = Some s)
                  (document_elems (dtree (page es))))"
  by (simp add: select_def page_def)

end
