(* ===== verification/Bs_Util.thy ===== *)
theory Bs_Util
  imports Dom
begin

section \<open>Bootstrap's utilities\<close>

text \<open>
  The \<open>Util\<close> object of \<open>bootstrap.js\<close>: the type check of option objects, the selector an element
  points to, fresh ids, and the transition-end protocol. A component's page state is a \<open>world\<close>: the
  document, the instance stored on each element under the component's data key, the handlers bound
  with \<open>one\<close> to the end of a transition, the pending timers of \<open>emulateTransitionEnd\<close> with their
  \<open>called\<close> flags, and the callbacks passed to \<open>setTimeout\<close>. Callbacks are data; each component has a
  function that runs them. The locale \<open>transition_host\<close> is what the protocol needs of that function.
\<close>

subsection \<open>Option objects\<close>

datatype js_error = ErrorMsg string | TypeErrorMsg string

definition extends :: "jsobj \<Rightarrow> jsobj \<Rightarrow> jsobj" where
  "extends target source = target ++ source"

fun toType :: "jsval \<Rightarrow> string" where
  "toType JUndef = ''undefined''"
| "toType JNull = ''null''"
| "toType (JBool _) = ''boolean''"
| "toType (JNum _) = ''number''"
| "toType (JStr _) = ''string''"
| "toType JFun = ''function''"
| "toType (JArr _) = ''array''"
| "toType JObj = ''object''"
| "toType (JElem _) = ''htmlelement''"
| "toType (JQuery _) = ''object''"

fun isElement :: "jsval \<Rightarrow> bool" where
  "isElement (JElem _) = True"
| "isElement (JQuery xs) = (xs \<noteq> [])"
| "isElement _ = False"

definition valueType :: "jsval \<Rightarrow> string" where
  "valueType v = (if truthy v \<and> isElement v then ''element'' else toType v)"

text \<open>The patterns are alternatives, perhaps in parentheses, and are not anchored.\<close>

definition type_alternatives :: "string \<Rightarrow> string list" where
  "type_alternatives pat = split_on CHR ''|'' (filter (\<lambda>c. c \<noteq> CHR ''('' \<and> c \<noteq> CHR '')'') pat)"

definition type_test :: "string \<Rightarrow> string \<Rightarrow> bool" where
  "type_test pat s \<longleftrightarrow> list_ex (contains s) (type_alternatives pat)"

definition toUpperCase :: "string \<Rightarrow> string" where
  "toUpperCase = map (\<lambda>c. if 97 \<le> (of_char c :: nat) \<and> (of_char c :: nat) \<le> 122 then char_of (of_char c - 32 :: nat) else c)"

definition quoted :: "string \<Rightarrow> string" where
  "quoted s = CHR 0x22 # s @ [CHR 0x22]"

definition option_error :: "string \<Rightarrow> string \<Rightarrow> string \<Rightarrow> string \<Rightarrow> js_error" where
  "option_error name key actual expected =
     ErrorMsg (toUpperCase name @ '': Option '' @ quoted key @ '' provided type '' @ quoted actual
       @ '' but expected type '' @ quoted expected @ ''.'')"

fun typeCheckConfig :: "string \<Rightarrow> jsobj \<Rightarrow> (string \<times> string) list \<Rightarrow> js_error + unit" where
  "typeCheckConfig name config [] = Inr ()"
| "typeCheckConfig name config ((key, expected) # types) =
     (let t = valueType (get config key)
      in if \<not> type_test expected t then Inl (option_error name key t expected)
         else typeCheckConfig name config types)"

text \<open>The argument of a plugin call: none, an option object, the name of a method, or a number.\<close>

datatype plugin_arg = NoArg | ObjArg jsobj | StrArg string | NumArg int

definition no_method :: "string \<Rightarrow> js_error" where
  "no_method name = TypeErrorMsg (''No method named '' @ quoted name)"

text \<open>\<open>this.each(f)\<close> for a body that may throw.\<close>

fun each_err :: "('a \<Rightarrow> 'w \<Rightarrow> js_error + 'w) \<Rightarrow> 'a list \<Rightarrow> 'w \<Rightarrow> js_error + 'w" where
  "each_err f [] w = Inr w"
| "each_err f (x # xs) w = (case f x w of Inl err \<Rightarrow> Inl err | Inr w \<Rightarrow> each_err f xs w)"

subsection \<open>Selectors and ids\<close>

definition special_chars :: string where
  "special_chars = '':.[],=@''"

definition escapeId :: "dom \<Rightarrow> string \<Rightarrow> string" where
  "escapeId d sel =
     (case escapeSelector (env d) of
        Some esc \<Rightarrow> drop 1 (esc sel)
      | None \<Rightarrow> concat (map (\<lambda>c. if c \<in> set special_chars then [CHR 0x5C, c] else [c]) sel))"

definition raw_selector :: "dom \<Rightarrow> elem \<Rightarrow> string" where
  "raw_selector d e =
     (let sel = (case attr_of d e ''data-target'' of None \<Rightarrow> '''' | Some s \<Rightarrow> s)
      in if sel = '''' \<or> sel = ''#'' then (case attr_of d e ''href'' of None \<Rightarrow> '''' | Some h \<Rightarrow> h)
         else sel)"

definition getSelectorFromElement :: "elem \<Rightarrow> dom \<Rightarrow> string option" where
  "getSelectorFromElement e d =
     (let raw = raw_selector d e;
          sel = (if take 1 raw = ''#'' then escapeId d raw else raw)
      in case select sel d of
           None \<Rightarrow> None
         | Some xs \<Rightarrow> if xs \<noteq> [] then Some sel else None)"

text \<open>\<open>$(selector)[0]\<close> for the selector of an element.\<close>

definition target_of :: "elem \<Rightarrow> dom \<Rightarrow> elem option" where
  "target_of e d =
     (case getSelectorFromElement e d of
        None \<Rightarrow> None
      | Some sel \<Rightarrow> (case select sel d of None \<Rightarrow> None | Some xs \<Rightarrow> first xs))"

text \<open>The draws of \<open>~~(Math.random() * MAX_UID)\<close> are a sequence; the digits accumulate on the prefix.\<close>

function getUID :: "(nat \<Rightarrow> nat) \<Rightarrow> nat \<Rightarrow> string list \<Rightarrow> string \<Rightarrow> string" where
  "getUID draw k ids p =
     (let p' = p @ nat_str (draw k)
      in if p' \<in> set ids then getUID draw (Suc k) ids p' else p')"
  by pat_completeness auto

lemma length_le_total: "x \<in> set xs \<Longrightarrow> length x \<le> sum_list (map length xs)"
  by (simp add: member_le_sum_list)

termination getUID
proof (relation "measure (\<lambda>(draw, k, ids, p). Suc (sum_list (map length ids)) - length p)", goal_cases)
  case (2 draw k ids p p')
  have "length p < length p'" using 2(1) by simp
  moreover have "length p' \<le> sum_list (map length ids)" using 2(2) by (rule length_le_total)
  ultimately show ?case by simp
qed simp

declare getUID.simps [simp del]

definition document_ids :: "dom \<Rightarrow> string list" where
  "document_ids d = List.map_filter (\<lambda>x. attr_of d x ''id'') (document_elems (dtree d))"

subsection \<open>The end of a transition\<close>

datatype 'cb handler = Callback 'cb | MarkCalled nat

record ('i, 'cb) world =
  dm :: dom
  insts :: "elem \<Rightarrow> 'i option"
  bound :: "(nat \<times> elem \<times> 'cb handler) list"
  timers :: "(nat \<times> elem) list"
  called :: "nat \<Rightarrow> bool"
  next_id :: nat
  later :: "'cb list"
  intervals :: "(nat \<times> 'cb) list"
  has_transition :: bool

definition on_dom :: "(dom \<Rightarrow> dom) \<Rightarrow> ('i, 'cb) world \<Rightarrow> ('i, 'cb) world" where
  "on_dom f w = w\<lparr>dm := f (dm w)\<rparr>"

definition one_end :: "elem \<Rightarrow> 'cb \<Rightarrow> ('i, 'cb) world \<Rightarrow> ('i, 'cb) world" where
  "one_end e cb w = w\<lparr>bound := bound w @ [(next_id w, e, Callback cb)], next_id := Suc (next_id w)\<rparr>"

definition emulateTransitionEnd :: "elem \<Rightarrow> ('i, 'cb) world \<Rightarrow> ('i, 'cb) world" where
  "emulateTransitionEnd e w =
     (let n = next_id w
      in w\<lparr>bound := bound w @ [(n, e, MarkCalled n)], timers := timers w @ [(n, e)],
           called := (called w)(n := False), next_id := Suc n\<rparr>)"

definition await_end :: "elem \<Rightarrow> 'cb \<Rightarrow> ('i, 'cb) world \<Rightarrow> ('i, 'cb) world" where
  "await_end e cb w = emulateTransitionEnd e (one_end e cb w)"

definition unbind :: "nat \<Rightarrow> ('i, 'cb) world \<Rightarrow> ('i, 'cb) world" where
  "unbind i w = w\<lparr>bound := filter (\<lambda>b. fst b \<noteq> i) (bound w)\<rparr>"

fun run_handler ::
  "('cb \<Rightarrow> ('i, 'cb) world \<Rightarrow> ('i, 'cb) world) \<Rightarrow> 'cb handler \<Rightarrow> ('i, 'cb) world \<Rightarrow> ('i, 'cb) world" where
  "run_handler run (Callback cb) w = run cb w"
| "run_handler run (MarkCalled n) w = w\<lparr>called := (called w)(n := True)\<rparr>"

text \<open>
  A \<open>transitionend\<close> event whose target is e: the handlers bound on e when the event arrives run in
  order, each unbound first. Handlers of ancestors see the event bubble and ignore it, because its
  target is not theirs.
\<close>

definition bound_on :: "elem \<Rightarrow> ('i, 'cb) world \<Rightarrow> (nat \<times> elem \<times> 'cb handler) list" where
  "bound_on e w = filter (\<lambda>(i, x, h). x = e) (bound w)"

definition triggerTransitionEnd ::
  "('cb \<Rightarrow> ('i, 'cb) world \<Rightarrow> ('i, 'cb) world) \<Rightarrow> elem \<Rightarrow> ('i, 'cb) world \<Rightarrow> ('i, 'cb) world" where
  "triggerTransitionEnd run e w =
     fold (\<lambda>(i, x, h) w. run_handler run h (unbind i w)) (bound_on e w) w"

definition timer_fires ::
  "('cb \<Rightarrow> ('i, 'cb) world \<Rightarrow> ('i, 'cb) world) \<Rightarrow> nat \<Rightarrow> ('i, 'cb) world \<Rightarrow> ('i, 'cb) world" where
  "timer_fires run n w =
     (case map_of (timers w) n of
        None \<Rightarrow> w
      | Some e \<Rightarrow>
          (let w = w\<lparr>timers := filter (\<lambda>t. fst t \<noteq> n) (timers w)\<rparr>
           in if \<not> called w n then triggerTransitionEnd run e w else w))"

definition setTimeout :: "'cb \<Rightarrow> ('i, 'cb) world \<Rightarrow> ('i, 'cb) world" where
  "setTimeout cb w = w\<lparr>later := later w @ [cb]\<rparr>"

definition setInterval :: "'cb \<Rightarrow> ('i, 'cb) world \<Rightarrow> nat \<times> ('i, 'cb) world" where
  "setInterval cb w =
     (next_id w, w\<lparr>intervals := intervals w @ [(next_id w, cb)], next_id := Suc (next_id w)\<rparr>)"

definition clearInterval :: "nat option \<Rightarrow> ('i, 'cb) world \<Rightarrow> ('i, 'cb) world" where
  "clearInterval i w = w\<lparr>intervals := filter (\<lambda>t. Some (fst t) \<noteq> i) (intervals w)\<rparr>"

text \<open>
  The environment's moves between two calls: a transition ends, a timer fires, a deferred callback
  runs, an interval elapses.
\<close>

datatype tick = Ended elem | Timer nat | Later nat | Interval nat

fun tick_step ::
  "('cb \<Rightarrow> ('i, 'cb) world \<Rightarrow> ('i, 'cb) world) \<Rightarrow> tick \<Rightarrow> ('i, 'cb) world \<Rightarrow> ('i, 'cb) world" where
  "tick_step run (Ended e) w = triggerTransitionEnd run e w"
| "tick_step run (Timer n) w = timer_fires run n w"
| "tick_step run (Later k) w =
     (if k < length (later w)
      then run (later w ! k) (w\<lparr>later := take k (later w) @ drop (Suc k) (later w)\<rparr>) else w)"
| "tick_step run (Interval n) w = (case map_of (intervals w) n of None \<Rightarrow> w | Some cb \<Rightarrow> run cb w)"

subsection \<open>Facts about options, selectors and ids\<close>

lemma typeCheckConfig_ok:
  "typeCheckConfig name config types = Inr ()
     \<longleftrightarrow> (\<forall>(key, expected) \<in> set types. type_test expected (valueType (get config key)))"
  by (induction name config types rule: typeCheckConfig.induct) (auto simp: Let_def)

lemma typeCheckConfig_error:
  "typeCheckConfig name config types = Inl err \<Longrightarrow>
     \<exists>key expected. (key, expected) \<in> set types
       \<and> err = option_error name key (valueType (get config key)) expected"
  by (induction name config types rule: typeCheckConfig.induct) (auto simp: Let_def split: if_splits)

lemma get_extends [simp]:
  "get (extends a b) k = (case b k of None \<Rightarrow> get a k | Some v \<Rightarrow> v)"
  by (simp add: get_def extends_def map_add_def split: option.splits)

lemma getUID_extends: "\<exists>s. s \<noteq> [] \<and> getUID draw k ids p = p @ s"
proof (induction draw k ids p rule: getUID.induct)
  case (1 draw k ids p)
  show ?case
  proof (cases "p @ nat_str (draw k) \<in> set ids")
    case True
    then show ?thesis using 1 by (fastforce simp: getUID.simps [of draw k ids p] Let_def)
  next
    case False
    then show ?thesis by (simp add: getUID.simps [of draw k ids p])
  qed
qed

lemma getUID_notin: "getUID draw k ids p \<notin> set ids"
  by (induction draw k ids p rule: getUID.induct) (subst getUID.simps, simp add: Let_def)

lemma target_of_select:
  "target_of e d = Some x \<Longrightarrow>
     \<exists>sel xs. getSelectorFromElement e d = Some sel \<and> select sel d = Some (x # xs)"
  by (auto simp: target_of_def first_def split: option.splits list.splits)

lemma getSelectorFromElement_target: "getSelectorFromElement e d \<noteq> None \<longleftrightarrow> target_of e d \<noteq> None"
  by (auto simp: target_of_def getSelectorFromElement_def first_def Let_def split: option.splits list.splits if_splits)

lemma document_ids_iff:
  "i \<in> set (document_ids d) \<longleftrightarrow> (\<exists>x \<in> set (document_elems (dtree d)). attr_of d x ''id'' = Some i)"
  by (force simp: document_ids_def List.map_filter_def image_iff)

subsection \<open>The transition protocol\<close>

lemma on_dom_simps [simp]:
  "dm (on_dom f w) = f (dm w)" "insts (on_dom f w) = insts w" "bound (on_dom f w) = bound w"
  "timers (on_dom f w) = timers w" "called (on_dom f w) = called w" "next_id (on_dom f w) = next_id w"
  "later (on_dom f w) = later w" "intervals (on_dom f w) = intervals w"
  "has_transition (on_dom f w) = has_transition w"
  by (simp_all add: on_dom_def)

lemma await_end_simps [simp]:
  "dm (await_end e cb w) = dm w" "insts (await_end e cb w) = insts w"
  "next_id (await_end e cb w) = Suc (Suc (next_id w))" "later (await_end e cb w) = later w" "intervals (await_end e cb w) = intervals w"
  "has_transition (await_end e cb w) = has_transition w"
  "bound (await_end e cb w) = bound w @ [(next_id w, e, Callback cb), (Suc (next_id w), e, MarkCalled (Suc (next_id w)))]"
  "timers (await_end e cb w) = timers w @ [(Suc (next_id w), e)]"
  "called (await_end e cb w) = (called w)(Suc (next_id w) := False)"
  by (simp_all add: await_end_def emulateTransitionEnd_def one_end_def Let_def)

lemma unbind_simps [simp]:
  "dm (unbind i w) = dm w" "insts (unbind i w) = insts w" "timers (unbind i w) = timers w"
  "called (unbind i w) = called w" "next_id (unbind i w) = next_id w" "later (unbind i w) = later w" "intervals (unbind i w) = intervals w"
  "has_transition (unbind i w) = has_transition w"
  "bound (unbind i w) = filter (\<lambda>b. fst b \<noteq> i) (bound w)"
  by (simp_all add: unbind_def)

lemma bound_on_unbind: "bound_on r (unbind i w) = filter (\<lambda>b. fst b \<noteq> i) (bound_on r w)"
  by (auto simp: bound_on_def intro: filter_cong)

lemma setTimeout_simps [simp]:
  "dm (setTimeout cb w) = dm w" "insts (setTimeout cb w) = insts w" "timers (setTimeout cb w) = timers w"
  "called (setTimeout cb w) = called w" "next_id (setTimeout cb w) = next_id w"
  "later (setTimeout cb w) = later w @ [cb]" "intervals (setTimeout cb w) = intervals w" "has_transition (setTimeout cb w) = has_transition w"
  "bound (setTimeout cb w) = bound w"
  by (simp_all add: setTimeout_def)

lemma clearInterval_simps [simp]:
  "dm (clearInterval i w) = dm w" "insts (clearInterval i w) = insts w" "timers (clearInterval i w) = timers w"
  "called (clearInterval i w) = called w" "next_id (clearInterval i w) = next_id w" "later (clearInterval i w) = later w"
  "has_transition (clearInterval i w) = has_transition w" "bound (clearInterval i w) = bound w"
  "intervals (clearInterval i w) = filter (\<lambda>t. Some (fst t) \<noteq> i) (intervals w)"
  by (simp_all add: clearInterval_def)

lemma bound_on_await [simp]:
  "bound_on x (await_end e cb w) =
     bound_on x w @ (if x = e then [(next_id w, e, Callback cb), (Suc (next_id w), e, MarkCalled (Suc (next_id w)))] else [])"
  by (auto simp: bound_on_def)

text \<open>Nothing bound: the event changes nothing.\<close>

lemma no_handlers: "bound_on e w = [] \<Longrightarrow> triggerTransitionEnd run e w = w"
  by (simp add: triggerTransitionEnd_def)

text \<open>One awaited callback: it runs, and the emulator's flag is set.\<close>

lemma awaited_runs:
  assumes "bound_on e w = [(i, e, Callback cb), (n, e, MarkCalled n)]"
  shows "triggerTransitionEnd run e w = run_handler run (MarkCalled n) (unbind n (run cb (unbind i w)))"
  using assms by (simp add: triggerTransitionEnd_def)

lemma timer_after_end: "called w n \<Longrightarrow> timer_fires run n w = w\<lparr>timers := filter (\<lambda>t. fst t \<noteq> n) (timers w)\<rparr> \<or> timer_fires run n w = w"
  by (simp add: timer_fires_def split: option.split)

text \<open>Identifiers in use are below the next one.\<close>

definition ids_ok :: "('i, 'cb) world \<Rightarrow> bool" where
  "ids_ok w \<longleftrightarrow> (\<forall>b \<in> set (bound w). fst b < next_id w) \<and> (\<forall>t \<in> set (timers w). fst t < next_id w)"

locale transition_host =
  fixes run :: "'cb \<Rightarrow> ('i, 'cb) world \<Rightarrow> ('i, 'cb) world"
  assumes run_bound:
      "b \<in> set (bound (run cb w)) \<Longrightarrow> b \<in> set (bound w) \<or> (next_id w \<le> fst b \<and> fst b < next_id (run cb w))"
    and run_timers:
      "t \<in> set (timers (run cb w)) \<Longrightarrow> t \<in> set (timers w) \<or> (next_id w \<le> fst t \<and> fst t < next_id (run cb w))"
    and run_next: "next_id w \<le> next_id (run cb w)"
    and run_called: "n < next_id w \<Longrightarrow> called (run cb w) n = called w n"
begin

lemma handler_next: "next_id w \<le> next_id (run_handler run h w)"
  using run_next by (cases h) auto

lemma handler_bound:
  "b \<in> set (bound (run_handler run h w)) \<Longrightarrow>
     b \<in> set (bound w) \<or> (next_id w \<le> fst b \<and> fst b < next_id (run_handler run h w))"
  using run_bound by (cases h) auto

lemma handler_timers:
  "t \<in> set (timers (run_handler run h w)) \<Longrightarrow>
     t \<in> set (timers w) \<or> (next_id w \<le> fst t \<and> fst t < next_id (run_handler run h w))"
  using run_timers by (cases h) auto

lemma handler_called: "n < next_id w \<Longrightarrow> called w n \<Longrightarrow> called (run_handler run h w) n"
  using run_called by (cases h) auto

abbreviation handle_all ::
  "(nat \<times> elem \<times> 'cb handler) list \<Rightarrow> ('i, 'cb) world \<Rightarrow> ('i, 'cb) world" where
  "handle_all \<equiv> fold (\<lambda>(i, x, h) w. run_handler run h (unbind i w))"

lemma all_next: "next_id w \<le> next_id (handle_all hs w)"
proof (induction hs arbitrary: w)
  case (Cons a hs)
  obtain i x h where a: "a = (i, x, h)" by (cases a)
  show ?case using Cons [of "run_handler run h (unbind i w)"] handler_next [of "unbind i w" h] a by simp
qed simp

lemma all_bound:
  "b \<in> set (bound (handle_all hs w)) \<Longrightarrow>
     (b \<in> set (bound w) \<and> fst b \<notin> fst ` set hs) \<or> (next_id w \<le> fst b \<and> fst b < next_id (handle_all hs w))"
proof (induction hs arbitrary: w)
  case (Cons a hs)
  obtain i x h where a: "a = (i, x, h)" by (cases a)
  let ?w = "run_handler run h (unbind i w)"
  have le: "next_id w \<le> next_id ?w" "next_id ?w \<le> next_id (handle_all hs ?w)"
    using handler_next [of "unbind i w" h] all_next [of ?w hs] by simp_all
  from Cons.IH [of ?w] Cons.prems a
  consider "b \<in> set (bound ?w)" "fst b \<notin> fst ` set hs" | "next_id ?w \<le> fst b" "fst b < next_id (handle_all hs ?w)"
    by auto
  then show ?case using handler_bound [of b h "unbind i w"] le a by cases auto
qed simp

lemma all_timers:
  "t \<in> set (timers (handle_all hs w)) \<Longrightarrow>
     t \<in> set (timers w) \<or> (next_id w \<le> fst t \<and> fst t < next_id (handle_all hs w))"
proof (induction hs arbitrary: w)
  case (Cons a hs)
  obtain i x h where a: "a = (i, x, h)" by (cases a)
  let ?w = "run_handler run h (unbind i w)"
  have le: "next_id w \<le> next_id ?w" "next_id ?w \<le> next_id (handle_all hs ?w)"
    using handler_next [of "unbind i w" h] all_next [of ?w hs] by simp_all
  from Cons.IH [of ?w] Cons.prems a
  consider "t \<in> set (timers ?w)" | "next_id ?w \<le> fst t" "fst t < next_id (handle_all hs ?w)"
    by auto
  then show ?case using handler_timers [of t h "unbind i w"] le a by cases auto
qed simp

lemma all_called: "n < next_id w \<Longrightarrow> called w n \<Longrightarrow> called (handle_all hs w) n"
proof (induction hs arbitrary: w)
  case (Cons a hs)
  obtain i x h where a: "a = (i, x, h)" by (cases a)
  show ?case
    using Cons.IH [of "run_handler run h (unbind i w)"] Cons.prems
      handler_called [of n "unbind i w" h] handler_next [of "unbind i w" h] a
    by simp
qed simp

lemma all_marks: "(i, x, MarkCalled n) \<in> set hs \<Longrightarrow> n < next_id w \<Longrightarrow> called (handle_all hs w) n"
proof (induction hs arbitrary: w)
  case (Cons a hs)
  obtain j y h where a: "a = (j, y, h)" by (cases a)
  let ?w = "run_handler run h (unbind j w)"
  have n: "n < next_id ?w" using handler_next [of "unbind j w" h] Cons.prems by simp
  show ?case
  proof (cases "(i, x, MarkCalled n) \<in> set hs")
    case True
    then show ?thesis using Cons.IH [of ?w] n a by simp
  next
    case False
    then have "h = MarkCalled n" using Cons.prems a by simp
    then have "called ?w n" by simp
    then show ?thesis using all_called [OF n] a by simp
  qed
qed simp

text \<open>Once the transition of e has ended, every handler left on e was bound by a callback since.\<close>

lemma end_unbinds:
  assumes "b \<in> set (bound_on e (triggerTransitionEnd run e w))"
  shows "next_id w \<le> fst b"
proof -
  have e: "fst (snd b) = e" and b: "b \<in> set (bound (handle_all (bound_on e w) w))"
    using assms by (auto simp: bound_on_def triggerTransitionEnd_def)
  from all_bound [OF b] show ?thesis
  proof
    assume "b \<in> set (bound w) \<and> fst b \<notin> fst ` set (bound_on e w)"
    then have False using e by (cases b) (auto simp: bound_on_def image_iff)
    then show ?thesis ..
  qed simp
qed

lemma end_marks:
  "(n, e, MarkCalled n) \<in> set (bound w) \<Longrightarrow> n < next_id w \<Longrightarrow> called (triggerTransitionEnd run e w) n"
  using all_marks [of n e n "bound_on e w" w] by (simp add: triggerTransitionEnd_def bound_on_def)

lemma end_ids_ok: "ids_ok w \<Longrightarrow> ids_ok (triggerTransitionEnd run e w)"
  using all_bound [of _ "bound_on e w" w] all_timers [of _ "bound_on e w" w] all_next [of w "bound_on e w"]
  unfolding ids_ok_def triggerTransitionEnd_def by (meson less_le_trans)

text \<open>
  The emulator never runs a callback twice: after the awaited transition of e has ended, the timer
  of the same wait only goes away.
\<close>

lemma timer_silent:
  assumes "ids_ok w" "bound_on e w = []"
  defines "n \<equiv> Suc (next_id w)"
  shows "let w' = triggerTransitionEnd run e (await_end e cb w) in
           called w' n \<and> timer_fires run n w' \<in> {w', w'\<lparr>timers := filter (\<lambda>t. fst t \<noteq> n) (timers w')\<rparr>}"
proof -
  have "called (triggerTransitionEnd run e (await_end e cb w)) n"
    by (rule end_marks) (simp_all add: n_def)
  then show ?thesis using timer_after_end [of "triggerTransitionEnd run e (await_end e cb w)" n run]
    by (auto simp: Let_def)
qed

text \<open>And it runs the callback when no transition ever ends: the timer does what the event would.\<close>

lemma timer_runs:
  assumes "ids_ok w" "bound_on e w = []"
  defines "n \<equiv> Suc (next_id w)"
  shows "timer_fires run n (await_end e cb w) =
           triggerTransitionEnd run e ((await_end e cb w)\<lparr>timers := timers w\<rparr>)"
proof -
  have "map_of (timers w) n = None" using assms by (force simp: ids_ok_def map_of_eq_None_iff n_def)
  moreover have "filter (\<lambda>t. fst t \<noteq> n) (timers w) = timers w"
    using assms by (force simp: ids_ok_def n_def filter_id_conv)
  ultimately show ?thesis by (simp add: timer_fires_def Let_def n_def map_add_def)
qed

end

subsection \<open>Invariants across the environment's moves\<close>

text \<open>
  A component proves that its callbacks keep an invariant when they are run in worlds where they may
  be (\<open>ok\<close>), and that bound and deferred callbacks may be run; then every tick keeps the invariant.
\<close>

locale callback_invariant =
  fixes run :: "'cb \<Rightarrow> ('i, 'cb) world \<Rightarrow> ('i, 'cb) world"
    and inv :: "('i, 'cb) world \<Rightarrow> bool"
    and ok :: "'cb \<Rightarrow> ('i, 'cb) world \<Rightarrow> bool"
  assumes inv_run: "inv w \<Longrightarrow> ok cb w \<Longrightarrow> inv (run cb w)"
    and ok_run: "inv w \<Longrightarrow> ok cb w \<Longrightarrow> ok cb' w \<Longrightarrow> ok cb' (run cb w)"
    and inv_bound: "inv w \<Longrightarrow> (i, x, Callback cb) \<in> set (bound w) \<Longrightarrow> ok cb w"
    and inv_later: "inv w \<Longrightarrow> cb \<in> set (later w) \<Longrightarrow> ok cb w"
    and inv_intervals: "inv w \<Longrightarrow> (n, cb) \<in> set (intervals w) \<Longrightarrow> ok cb w"
    and inv_weaken: "inv w \<Longrightarrow> dm w' = dm w \<Longrightarrow> insts w' = insts w \<Longrightarrow> has_transition w' = has_transition w \<Longrightarrow>
      set (bound w') \<subseteq> set (bound w) \<Longrightarrow> set (later w') \<subseteq> set (later w) \<Longrightarrow>
      set (intervals w') \<subseteq> set (intervals w) \<Longrightarrow> inv w'"
    and ok_weaken: "ok cb w \<Longrightarrow> dm w' = dm w \<Longrightarrow> insts w' = insts w \<Longrightarrow> has_transition w' = has_transition w \<Longrightarrow> ok cb w'"
begin

lemma handler_keeps:
  assumes "inv w" "\<And>cb. h = Callback cb \<Longrightarrow> ok cb w"
  shows "inv (run_handler run h (unbind i w))
    \<and> (\<forall>cb. ok cb w \<longrightarrow> ok cb (run_handler run h (unbind i w)))"
proof -
  have u: "inv (unbind i w)" by (rule inv_weaken [OF assms(1)]) auto
  have o: "ok cb (unbind i w)" if "ok cb w" for cb by (rule ok_weaken [OF that]) auto
  show ?thesis
  proof (cases h)
    case (Callback cb)
    then show ?thesis using assms(2) u o inv_run ok_run by auto
  next
    case (MarkCalled n)
    have "inv (run_handler run h (unbind i w))" by (rule inv_weaken [OF assms(1)]) (auto simp: MarkCalled)
    moreover have "ok cb (run_handler run h (unbind i w))" if "ok cb w" for cb
      by (rule ok_weaken [OF that]) (auto simp: MarkCalled)
    ultimately show ?thesis by blast
  qed
qed

lemma handlers_keep:
  "inv w \<Longrightarrow> (\<And>i x cb. (i, x, Callback cb) \<in> set hs \<Longrightarrow> ok cb w) \<Longrightarrow>
     inv (fold (\<lambda>(i, x, h) w. run_handler run h (unbind i w)) hs w)"
proof (induction hs arbitrary: w)
  case (Cons a hs)
  obtain i x h where a: "a = (i, x, h)" by (cases a)
  have "inv (run_handler run h (unbind i w)) \<and> (\<forall>cb. ok cb w \<longrightarrow> ok cb (run_handler run h (unbind i w)))"
    using Cons.prems a by (intro handler_keeps) auto
  then show ?case using Cons.IH [of "run_handler run h (unbind i w)"] Cons.prems a by auto
qed simp

lemma end_keeps: "inv w \<Longrightarrow> inv (triggerTransitionEnd run e w)"
  unfolding triggerTransitionEnd_def by (rule handlers_keep) (auto simp: bound_on_def intro: inv_bound)

lemma timer_keeps: "inv w \<Longrightarrow> inv (timer_fires run n w)"
  by (auto simp: timer_fires_def Let_def split: option.split intro!: end_keeps elim!: inv_weaken)

lemma later_keeps:
  assumes "inv w" "k < length (later w)"
  shows "inv (run (later w ! k) (w\<lparr>later := take k (later w) @ drop (Suc k) (later w)\<rparr>))"
proof (rule inv_run)
  show "inv (w\<lparr>later := take k (later w) @ drop (Suc k) (later w)\<rparr>)"
    by (rule inv_weaken [OF assms(1)]) (auto dest: in_set_takeD in_set_dropD)
  show "ok (later w ! k) (w\<lparr>later := take k (later w) @ drop (Suc k) (later w)\<rparr>)"
    by (rule ok_weaken [OF inv_later [OF assms(1) nth_mem [OF assms(2)]]]) auto
qed

lemma tick_keeps: "inv w \<Longrightarrow> inv (tick_step run t w)"
  by (cases t) (auto simp: end_keeps timer_keeps later_keeps split: option.split dest!: map_of_SomeD intro: inv_run inv_intervals)

end

subsection \<open>Exact invariants\<close>

text \<open>
  Marks alone change nothing but flags; and an invariant that says exactly which callbacks are bound
  is kept when each bound handler, taken from the list and run, keeps it.
\<close>

lemma marks_only:
  fixes run :: "'cb \<Rightarrow> ('i, 'cb) world \<Rightarrow> ('i, 'cb) world" and w :: "('i, 'cb) world"
  assumes "\<forall>b \<in> set hs. \<exists>n. snd (snd b) = MarkCalled n"
  defines "w' \<equiv> fold (\<lambda>(i, x, h) w. run_handler run h (unbind i w)) hs w"
  shows "dm w' = dm w \<and> insts w' = insts w \<and> timers w' = timers w \<and> next_id w' = next_id w \<and> later w' = later w
    \<and> intervals w' = intervals w \<and> has_transition w' = has_transition w
    \<and> bound w' = filter (\<lambda>b. fst b \<notin> fst ` set hs) (bound w)"
  using assms(1) unfolding w'_def
proof (induction hs arbitrary: w)
  case (Cons a hs)
  obtain i x n where a: "a = (i, x, MarkCalled n)" using Cons.prems by (cases a) auto
  then show ?case
    using Cons.IH [of "run_handler run (MarkCalled n) (unbind i w)"] Cons.prems
    by (auto intro: filter_cong)
qed simp

fun is_callback :: "'cb handler \<Rightarrow> bool" where
  "is_callback (Callback cb) = True"
| "is_callback (MarkCalled n) = False"

text \<open>The callbacks waiting for the end of a transition, with the element they wait on.\<close>

definition pend :: "('i, 'cb) world \<Rightarrow> (elem \<times> 'cb handler) list" where
  "pend w = map snd (filter (\<lambda>b. is_callback (snd (snd b))) (bound w))"

lemma pend_bound: "(x, h) \<in> set (pend w) \<longleftrightarrow> is_callback h \<and> (\<exists>i. (i, x, h) \<in> set (bound w))"
  by (force simp: pend_def image_iff)

lemma pend_unbind_mark:
  assumes "distinct (map fst (bound w))" "(i, x, MarkCalled n) \<in> set (bound w)"
  shows "pend (unbind i w) = pend w"
proof -
  have "fst b \<noteq> i" if "b \<in> set (bound w)" "is_callback (snd (snd b))" for b
    using assms that by (metis distinct_map fst_conv inj_onD is_callback.simps(2) snd_conv)
  then show ?thesis by (auto simp: pend_def intro!: arg_cong [where f = "map snd"] filter_cong)
qed

lemma pend_unbind_only:
  assumes "distinct (map fst (bound w))" "(i, x, Callback cb) \<in> set (bound w)" "pend w = [y]"
  shows "y = (x, Callback cb)" "pend (unbind i w) = []"
proof -
  obtain b where b: "filter (\<lambda>b. is_callback (snd (snd b))) (bound w) = [b]" "snd b = y"
    using assms(3) by (auto simp: pend_def)
  have "(i, x, Callback cb) \<in> set (filter (\<lambda>b. is_callback (snd (snd b))) (bound w))" using assms(2) by simp
  then have i: "b = (i, x, Callback cb)" using b(1) by simp
  then show "y = (x, Callback cb)" using b(2) by simp
  have "fst c = i" if "c \<in> set (bound w)" "is_callback (snd (snd c))" for c
  proof -
    have "c \<in> set (filter (\<lambda>b. is_callback (snd (snd b))) (bound w))" using that by simp
    then show ?thesis using b(1) i by simp
  qed
  then show "pend (unbind i w) = []" by (auto simp: pend_def filter_empty_conv)
qed

locale handler_invariant =
  fixes run :: "'cb \<Rightarrow> ('i, 'cb) world \<Rightarrow> ('i, 'cb) world"
    and inv :: "('i, 'cb) world \<Rightarrow> bool"
  assumes distinct_ids: "inv w \<Longrightarrow> distinct (map fst (bound w))"
    and callback_inv: "inv w \<Longrightarrow> (i, x, Callback cb) \<in> set (bound w) \<Longrightarrow> inv (run cb (unbind i w))"
    and callback_bound: "inv w \<Longrightarrow> (i, x, Callback cb) \<in> set (bound w) \<Longrightarrow>
      set (bound (unbind i w)) \<subseteq> set (bound (run cb (unbind i w)))"
    and mark_inv: "inv w \<Longrightarrow> (i, x, MarkCalled n) \<in> set (bound w) \<Longrightarrow>
      inv ((unbind i w)\<lparr>called := (called w)(n := True)\<rparr>)"
    and timers_inv: "inv w \<Longrightarrow> inv (w\<lparr>timers := ts\<rparr>)"
begin

lemma handler_step:
  assumes "inv w" "(i, x, h) \<in> set (bound w)"
  shows "inv (run_handler run h (unbind i w))"
    and "set (bound (unbind i w)) \<subseteq> set (bound (run_handler run h (unbind i w)))"
  using assms callback_inv callback_bound mark_inv by (cases h; fastforce)+

lemma handlers_inv:
  "inv w \<Longrightarrow> set hs \<subseteq> set (bound w) \<Longrightarrow> distinct (map fst hs) \<Longrightarrow>
     inv (fold (\<lambda>(i, x, h) w. run_handler run h (unbind i w)) hs w)"
proof (induction hs arbitrary: w)
  case (Cons a hs)
  obtain i x h where a: "a = (i, x, h)" by (cases a)
  let ?w = "run_handler run h (unbind i w)"
  have mem: "(i, x, h) \<in> set (bound w)" using Cons.prems a by simp
  have "set hs \<subseteq> set (bound (unbind i w))" using Cons.prems a by (force simp: image_iff)
  then have "set hs \<subseteq> set (bound ?w)" using handler_step(2) [OF Cons.prems(1) mem] by blast
  then show ?case using Cons.IH [of ?w] handler_step(1) [OF Cons.prems(1) mem] Cons.prems a by simp
qed simp

lemma end_inv: "inv w \<Longrightarrow> inv (triggerTransitionEnd run e w)"
  unfolding triggerTransitionEnd_def
  by (rule handlers_inv) (auto simp: bound_on_def intro: distinct_map_filter dest: distinct_ids)

lemma timer_inv: "inv w \<Longrightarrow> inv (timer_fires run n w)"
  by (auto simp: timer_fires_def Let_def split: option.split intro!: end_inv timers_inv)

end

subsection \<open>Fresh ids and checked options\<close>

text \<open>
  C13: \<open>getUID\<close> returns (its loop ends however the random draws fall, because the digits
  accumulate on the prefix), and the id it returns belongs to no element of the document and starts
  with the prefix, properly extended.
\<close>

theorem getUID_fresh:
  "getUID draw k (document_ids d) p \<notin> set (document_ids d)
     \<and> take (length p) (getUID draw k (document_ids d) p) = p
     \<and> length p < length (getUID draw k (document_ids d) p)"
proof -
  obtain s where "s \<noteq> []" "getUID draw k (document_ids d) p = p @ s" using getUID_extends by blast
  then show ?thesis using getUID_notin [of draw k "document_ids d" p] by simp
qed


text \<open>A world before any component has run.\<close>

definition new_world :: "dom \<Rightarrow> ('i, 'cb) world" where
  "new_world d =
     \<lparr>dm = d, insts = (\<lambda>_. None), bound = [], timers = [], called = (\<lambda>_. False), next_id = 0, later = [], intervals = [],
      has_transition = True\<rparr>"

lemma new_world_simps [simp]:
  "dm (new_world d) = d" "insts (new_world d) = (\<lambda>_. None)" "bound (new_world d) = []" "timers (new_world d) = []"
  "called (new_world d) = (\<lambda>_. False)" "next_id (new_world d) = 0" "later (new_world d) = []" "intervals (new_world d) = []"
  "has_transition (new_world d)" "ids_ok (new_world d)" "bound_on e (new_world d) = []"
  by (simp_all add: new_world_def ids_ok_def bound_on_def)

end
