(* ===== verification/Bs_Alert.thy ===== *)
theory Bs_Alert
  imports Bs_Util
begin

section \<open>Alert\<close>

text \<open>
  The Alert component of \<open>bootstrap.js\<close>: closing an alert fires \<open>close\<close>, which the page may prevent,
  takes away the \<open>show\<close> class and, at the end of the fade if there is one, removes the element and
  fires \<open>closed\<close>. Worlds, callbacks and the transition protocol are those of the utilities.
\<close>

record alert =
  alert_element :: "elem option"

datatype alert_cb = DestroyElement elem

type_synonym alert_world = "(alert, alert_cb) world"

abbreviation CLOSE :: string where "CLOSE \<equiv> ''close.bs.alert''"
abbreviation CLOSED :: string where "CLOSED \<equiv> ''closed.bs.alert''"

definition is_alert :: selector where
  "is_alert d x \<longleftrightarrow> hasClass x ''alert'' d"

definition is_dismiss :: "string \<Rightarrow> selector" where
  "is_dismiss v d x \<longleftrightarrow> attr_of d x ''data-dismiss'' = Some v"

definition getRootElement :: "elem \<Rightarrow> dom \<Rightarrow> elem option" where
  "getRootElement e d =
     (case target_of e d of Some r \<Rightarrow> Some r | None \<Rightarrow> jq_closest is_alert e d)"

text \<open>\<open>.remove()\<close> also drops the handlers and the data of the element and of what is below it.\<close>

definition cleanData :: "elem \<Rightarrow> ('i, 'cb) world \<Rightarrow> ('i, 'cb) world" where
  "cleanData e w =
     (let t = dtree (dm w)
      in w\<lparr>insts := (\<lambda>x. if in_subtree t e x then None else insts w x),
           bound := filter (\<lambda>(i, x, h). \<not> in_subtree t e x) (bound w)\<rparr>)"

definition destroyElement :: "elem \<Rightarrow> alert_world \<Rightarrow> alert_world" where
  "destroyElement e w = cleanData e (on_dom (fire CLOSED None e) (on_dom (detach e) w))"

fun alert_run :: "alert_cb \<Rightarrow> alert_world \<Rightarrow> alert_world" where
  "alert_run (DestroyElement e) w = destroyElement e w"

definition removeElement :: "elem \<Rightarrow> alert_world \<Rightarrow> alert_world" where
  "removeElement e w =
     (let w = on_dom (removeClass ''show'' e) w
      in if \<not> has_transition w \<or> \<not> hasClass e ''fade'' (dm w) then destroyElement e w
         else await_end e (DestroyElement e) w)"

text \<open>With no element found, the jQuery calls act on an empty collection.\<close>

definition close_root :: "elem option \<Rightarrow> alert_world \<Rightarrow> alert_world" where
  "close_root root w =
     (case root of
        None \<Rightarrow> w
      | Some r \<Rightarrow>
          (let (prevented, d) = trigger CLOSE None r (dm w);
               w = w\<lparr>dm := d\<rparr>
           in if prevented then w else removeElement r w))"

definition alert_close :: "elem option \<Rightarrow> alert \<Rightarrow> alert_world \<Rightarrow> js_error + alert_world" where
  "alert_close arg this w =
     (case (case arg of Some e \<Rightarrow> Some e | None \<Rightarrow> alert_element this) of
        None \<Rightarrow> Inl (TypeErrorMsg ''Cannot read properties of null (reading 'getAttribute')'')
      | Some e \<Rightarrow> Inr (close_root (getRootElement e (dm w)) w))"

definition alert_dispose :: "elem \<Rightarrow> alert_world \<Rightarrow> alert_world" where
  "alert_dispose e w = w\<lparr>insts := (insts w)(e := None)\<rparr>"

definition alert_get :: "elem \<Rightarrow> alert_world \<Rightarrow> alert \<times> alert_world" where
  "alert_get e w =
     (case insts w e of
        Some data \<Rightarrow> (data, w)
      | None \<Rightarrow> (let data = \<lparr>alert_element = Some e\<rparr> in (data, w\<lparr>insts := (insts w)(e \<mapsto> data)\<rparr>)))"

definition alert_each :: "string option \<Rightarrow> elem \<Rightarrow> alert_world \<Rightarrow> alert_world" where
  "alert_each config e w =
     (let (data, w) = alert_get e w
      in if config = Some ''close'' then close_root (getRootElement e (dm w)) w else w)"

definition alert_jQueryInterface :: "string option \<Rightarrow> elem list \<Rightarrow> alert_world \<Rightarrow> alert_world" where
  "alert_jQueryInterface config es w = fold (alert_each config) es w"

text \<open>
  A click on t: the delegated handler runs for each dismissing element on the way up, with the
  instance that has no element of its own.
\<close>

definition handleDismiss :: "elem \<Rightarrow> alert_world \<Rightarrow> alert_world" where
  "handleDismiss e w = close_root (getRootElement e (dm w)) w"

definition alert_click :: "elem \<Rightarrow> alert_world \<Rightarrow> alert_world" where
  "alert_click t w =
     fold handleDismiss (filter (is_dismiss ''alert'' (dm w)) (t # ancestors (dtree (dm w)) t)) w"

datatype alert_move = AlertCall "string option" "elem list" | AlertClick elem | AlertDispose elem | AlertTick tick

fun alert_step :: "alert_move \<Rightarrow> alert_world \<Rightarrow> alert_world" where
  "alert_step (AlertCall config es) w = alert_jQueryInterface config es w"
| "alert_step (AlertClick t) w = alert_click t w"
| "alert_step (AlertDispose e) w = (if insts w e = None then w else alert_dispose e w)"
| "alert_step (AlertTick t) w = tick_step alert_run t w"

definition alert_runs :: "alert_move list \<Rightarrow> alert_world \<Rightarrow> alert_world" where
  "alert_runs ms w = fold alert_step ms w"

subsection \<open>Who removes an alert\<close>

lemma cleanData_simps [simp]:
  "dm (cleanData e w) = dm w" "timers (cleanData e w) = timers w" "called (cleanData e w) = called w"
  "next_id (cleanData e w) = next_id w" "later (cleanData e w) = later w" "intervals (cleanData e w) = intervals w"
  "has_transition (cleanData e w) = has_transition w"
  "set (bound (cleanData e w)) \<subseteq> set (bound w)"
  by (auto simp: cleanData_def Let_def)

lemma destroyElement_simps [simp]:
  "dm (destroyElement e w) = fire CLOSED None e (detach e (dm w))"
  "timers (destroyElement e w) = timers w" "called (destroyElement e w) = called w"
  "next_id (destroyElement e w) = next_id w" "later (destroyElement e w) = later w" "intervals (destroyElement e w) = intervals w"
  "has_transition (destroyElement e w) = has_transition w"
  "insts (destroyElement e w) e = None"
  by (simp_all add: destroyElement_def) (simp add: cleanData_def Let_def in_subtree_def)

lemma bound_destroyElement: "set (bound (destroyElement e w)) \<subseteq> set (bound w)"
  using cleanData_simps(8) by (fastforce simp: destroyElement_def)

interpretation al: transition_host alert_run
proof
  fix b cb and w :: alert_world
  assume "b \<in> set (bound (alert_run cb w))"
  then show "b \<in> set (bound w) \<or> next_id w \<le> fst b \<and> fst b < next_id (alert_run cb w)"
    using bound_destroyElement by (cases cb) fastforce
next
  fix t cb and w :: alert_world
  assume "t \<in> set (timers (alert_run cb w))"
  then show "t \<in> set (timers w) \<or> next_id w \<le> fst t \<and> fst t < next_id (alert_run cb w)"
    by (cases cb) simp
next
  fix cb and w :: alert_world
  show "next_id w \<le> next_id (alert_run cb w)" by (cases cb) simp
next
  fix n cb and w :: alert_world
  show "called (alert_run cb w) n = called w n" by (cases cb) simp
qed

text \<open>The page let a \<open>close\<close> event on r pass at some point of the history.\<close>

definition approved :: "dom \<Rightarrow> elem \<Rightarrow> bool" where
  "approved d r \<longleftrightarrow>
     (\<exists>p q. event_log d = p @ Event CLOSE r None # q \<and> \<not> vetoes (env d) (p @ [Event CLOSE r None]))"

lemma approved_append:
  "approved d r \<Longrightarrow> event_log d' = event_log d @ es \<Longrightarrow> env d' = env d \<Longrightarrow> approved d' r"
  unfolding approved_def by fastforce

lemma approved_fire [simp, intro]: "approved d r \<Longrightarrow> approved (fire n rel x d) r"
  by (rule approved_append) auto

lemma approved_cong: "event_log d' = event_log d \<Longrightarrow> env d' = env d \<Longrightarrow> approved d' = approved d"
  by (simp add: approved_def fun_eq_iff)

definition alert_inv :: "tree \<Rightarrow> env \<Rightarrow> alert_world \<Rightarrow> bool" where
  "alert_inv t0 v w \<longleftrightarrow> env (dm w) = v \<and> later w = [] \<and> intervals w = []
     \<and> (\<forall>i x r. (i, x, Callback (DestroyElement r)) \<in> set (bound w) \<longrightarrow> approved (dm w) r)
     \<and> (\<forall>x. parent_of (dtree (dm w)) x = parent_of t0 x \<or> approved (dm w) x)"

fun alert_ok :: "alert_cb \<Rightarrow> alert_world \<Rightarrow> bool" where
  "alert_ok (DestroyElement r) w = approved (dm w) r"

lemma approved_destroyed:
  "approved (dm w) x \<Longrightarrow> approved (dm (destroyElement r w)) x"
  by (rule approved_append [of "dm w" _ _ "[Event CLOSED r None]"]) auto

lemma destroy_inv:
  assumes "alert_inv t0 v w" "approved (dm w) r"
  shows "alert_inv t0 v (destroyElement r w)"
proof -
  have "approved (dm (destroyElement r w)) x" if "(i, y, Callback (DestroyElement x)) \<in> set (bound (destroyElement r w))" for i x y
    using that assms bound_destroyElement [of r w] by (intro approved_destroyed) (auto simp: alert_inv_def)
  moreover have "parent_of (dtree (dm (destroyElement r w))) x = parent_of t0 x \<or> approved (dm (destroyElement r w)) x" for x
    using assms approved_destroyed [of w x r] by (cases "x = r") (auto simp: alert_inv_def detach_def)
  ultimately show ?thesis using assms by (auto simp: alert_inv_def)
qed

interpretation al_inv: callback_invariant alert_run "alert_inv t0 v" alert_ok for t0 v
proof
  fix w cb assume "alert_inv t0 v w" "alert_ok cb w"
  then show "alert_inv t0 v (alert_run cb w)" by (cases cb) (simp add: destroy_inv)
next
  fix w cb cb' assume "alert_ok cb w" "alert_ok cb' w"
  then show "alert_ok cb' (alert_run cb w)"
    by (cases cb; cases cb') (simp add: approved_destroyed del: destroyElement_simps)
next
  fix w i x cb assume "alert_inv t0 v w" "(i, x, Callback cb) \<in> set (bound w)"
  then show "alert_ok cb w" by (cases cb) (auto simp: alert_inv_def)
qed (auto simp: alert_inv_def elim!: alert_ok.elims)

lemma close_root_inv:
  assumes "alert_inv t0 v w"
  shows "alert_inv t0 v (close_root root w)"
proof (cases root)
  case (Some r)
  let ?w = "on_dom (fire CLOSE None r) w"
  have fired: "alert_inv t0 v ?w" using assms by (auto simp: alert_inv_def)
  show ?thesis
  proof (cases "vetoes (env (dm w)) (event_log (dm w) @ [Event CLOSE r None])")
    case True
    then show ?thesis using fired Some by (simp add: close_root_def trigger_fire on_dom_def)
  next
    case False
    let ?v = "on_dom (removeClass ''show'' r) ?w"
    have ap: "approved (dm ?v) r" using False by (force simp: approved_def)
    have inv: "alert_inv t0 v ?v"
      using fired approved_cong [of "dm ?v" "dm ?w"] by (simp add: alert_inv_def)
    have w: "close_root root w = removeElement r ?w"
      using False Some by (simp add: close_root_def trigger_fire on_dom_def)
    have "alert_inv t0 v (await_end r (DestroyElement r) ?v)"
      using inv ap by (auto simp: alert_inv_def simp del: on_dom_simps)
    then show ?thesis using w destroy_inv [OF inv ap] by (simp add: removeElement_def Let_def)
  qed
qed (use assms in \<open>simp add: close_root_def\<close>)

lemma insts_inv: "alert_inv t0 v (w\<lparr>insts := f\<rparr>) = alert_inv t0 v w"
  by (simp add: alert_inv_def)

lemma alert_each_inv: "alert_inv t0 v w \<Longrightarrow> alert_inv t0 v (alert_each config e w)"
  by (auto simp: alert_each_def alert_get_def Let_def insts_inv split: option.split intro!: close_root_inv)

lemma alert_step_inv: "alert_inv t0 v w \<Longrightarrow> alert_inv t0 v (alert_step m w)"
  by (cases m)
     (auto simp: alert_jQueryInterface_def alert_click_def handleDismiss_def alert_dispose_def insts_inv
           intro!: fold_keeps [where P = "alert_inv t0 v"] alert_each_inv close_root_inv al_inv.tick_keeps)

lemma alert_runs_inv: "alert_inv t0 v w \<Longrightarrow> alert_inv t0 v (alert_runs ms w)"
  unfolding alert_runs_def by (rule fold_keeps [where P = "alert_inv t0 v"]) (rule alert_step_inv)

text \<open>
  C5: whatever calls, clicks, transition ends and timers follow one another, an element leaves its
  place in the document only after a \<open>close\<close> event on that element that the page did not prevent.
\<close>

theorem alert_removed_only_if_approved:
  assumes "bound w = []" "later w = []" "intervals w = []"
    and "parent_of (dtree (dm (alert_runs ms w))) x \<noteq> parent_of (dtree (dm w)) x"
  shows "\<exists>p q. event_log (dm (alert_runs ms w)) = p @ Event CLOSE x None # q
             \<and> \<not> vetoes (env (dm w)) (p @ [Event CLOSE x None])"
proof -
  have "alert_inv (dtree (dm w)) (env (dm w)) w" using assms(1-3) by (simp add: alert_inv_def)
  from alert_runs_inv [OF this, of ms] assms(4) show ?thesis
    by (auto simp: alert_inv_def approved_def)
qed

lemma bound_on_destroyed: "bound_on r (destroyElement r w) = []"
  by (auto simp: destroyElement_def cleanData_def Let_def bound_on_def in_subtree_def filter_empty_conv)

lemma fade_ends:
  assumes "bound_on r w = [(i, r, Callback (DestroyElement r)), (n, r, MarkCalled n)]"
  shows "dm (triggerTransitionEnd alert_run r w) = fire CLOSED None r (detach r (dm w))"
    and "insts (triggerTransitionEnd alert_run r w) r = None"
    and "called (triggerTransitionEnd alert_run r w) n"
    and "bound_on r (triggerTransitionEnd alert_run r w) = []"
  using bound_on_destroyed [of r "unbind i w"] bound_on_unbind [of r n "destroyElement r (unbind i w)"]
  by (simp_all add: awaited_runs [OF assms]) (simp add: bound_on_def)

lemma fade_timer:
  assumes "ids_ok w" "bound_on r w = []"
  defines "n \<equiv> Suc (next_id w)" and "w1 \<equiv> await_end r (DestroyElement r) w"
  shows "w2 \<in> {timer_fires alert_run n (triggerTransitionEnd alert_run r w1),
                triggerTransitionEnd alert_run r (timer_fires alert_run n w1)} \<Longrightarrow>
           dm w2 = fire CLOSED None r (detach r (dm w)) \<and> insts w2 r = None"
proof (elim insertE emptyE)
  have b: "bound_on r w1 = [(next_id w, r, Callback (DestroyElement r)), (n, r, MarkCalled n)]"
    using assms by simp
  assume "w2 = timer_fires alert_run n (triggerTransitionEnd alert_run r w1)"
  then show ?thesis
    using timer_after_end [OF fade_ends(3) [OF b], of alert_run] fade_ends(1,2) [OF b] by (auto simp: w1_def)
next
  let ?w = "w1\<lparr>timers := timers w\<rparr>"
  have b: "bound_on r ?w = [(next_id w, r, Callback (DestroyElement r)), (n, r, MarkCalled n)]"
    using assms bound_on_await [of r r "DestroyElement r" w] by (simp add: bound_on_def)
  have t: "timer_fires alert_run n w1 = triggerTransitionEnd alert_run r ?w"
    using al.timer_runs [OF assms(1,2)] by (simp add: n_def w1_def)
  assume "w2 = triggerTransitionEnd alert_run r (timer_fires alert_run n w1)"
  then show ?thesis using no_handlers [OF fade_ends(4) [OF b], of alert_run] fade_ends(1,2) [OF b] t by (simp add: w1_def)
qed

lemma close_root_goes:
  "\<not> vetoes (env (dm w)) (event_log (dm w) @ [Event CLOSE r None]) \<Longrightarrow>
     close_root (Some r) w = removeElement r (on_dom (fire CLOSE None r) w)"
  by (simp add: close_root_def trigger_fire on_dom_def)

lemma close_root_awaits:
  "\<not> vetoes (env (dm w)) (event_log (dm w) @ [Event CLOSE r None]) \<Longrightarrow>
     hasClass r ''fade'' (dm w) \<Longrightarrow> has_transition w \<Longrightarrow>
     close_root (Some r) w =
       await_end r (DestroyElement r) (on_dom (removeClass ''show'' r) (on_dom (fire CLOSE None r) w))"
  by (simp add: close_root_goes removeElement_def Let_def)

lemma alert_close_step:
  "getRootElement e (dm w) = Some r \<Longrightarrow>
     alert_step (AlertCall (Some ''close'') [e]) w = close_root (Some r) (snd (alert_get e w))"
  by (auto simp: alert_jQueryInterface_def alert_each_def alert_get_def Let_def split: option.split)

text \<open>
  C15: closing a fading alert that the page lets go: the element loses \<open>show\<close> and stays until its
  transition ends; then it is out of the document, its instance is gone, and exactly one \<open>closed\<close>
  event followed the \<open>close\<close> event, in whichever order the transition's end and the emulation timer
  arrive.
\<close>

theorem alert_close_once:
  assumes root: "getRootElement e (dm w) = Some r" "r \<noteq> html_elem (dtree (dm w))"
    and go: "\<not> vetoes (env (dm w)) (event_log (dm w) @ [Event CLOSE r None])"
    and fade: "hasClass r ''fade'' (dm w)" "has_transition w" "bound_on r w = []" "ids_ok w"
  defines "w1 \<equiv> alert_step (AlertCall (Some ''close'') [e]) w" and "n \<equiv> Suc (next_id w)"
  shows "\<not> hasClass r ''show'' (dm w1) \<and> dtree (dm w1) = dtree (dm w)
    \<and> (\<forall>w2 \<in> {alert_runs [AlertTick (Ended r), AlertTick (Timer n)] w1,
               alert_runs [AlertTick (Timer n), AlertTick (Ended r)] w1}.
         \<not> attached (dtree (dm w2)) r \<and> insts w2 r = None
           \<and> event_log (dm w2) = event_log (dm w) @ [Event CLOSE r None, Event CLOSED r None])"
proof -
  define u where "u = on_dom (removeClass ''show'' r) (on_dom (fire CLOSE None r) (snd (alert_get e w)))"
  have get: "dm (snd (alert_get e w)) = dm w" "bound (snd (alert_get e w)) = bound w"
    "timers (snd (alert_get e w)) = timers w" "next_id (snd (alert_get e w)) = next_id w"
    "has_transition (snd (alert_get e w)) = has_transition w"
    by (auto simp: alert_get_def Let_def split: option.split)
  have w1: "w1 = await_end r (DestroyElement r) u"
    using close_root_awaits [of "snd (alert_get e w)" r] go fade root get
    by (simp only: w1_def u_def alert_close_step simp_thms)
  have u: "ids_ok u" "bound_on r u = []" "next_id u = next_id w"
    using fade get by (simp_all add: u_def ids_ok_def bound_on_def)
  have dm: "dm u = removeClass ''show'' r (fire CLOSE None r (dm w))" by (simp add: u_def get)
  have after: "\<not> attached (dtree (dm w2)) r \<and> insts w2 r = None
          \<and> event_log (dm w2) = event_log (dm w) @ [Event CLOSE r None, Event CLOSED r None]"
    if "w2 \<in> {timer_fires alert_run n (triggerTransitionEnd alert_run r w1),
                triggerTransitionEnd alert_run r (timer_fires alert_run n w1)}" for w2
  proof -
    have "dm w2 = fire CLOSED None r (detach r (dm u)) \<and> insts w2 r = None"
      by (rule fade_timer [OF u(1,2)]) (use that in \<open>simp only: n_def u(3) w1\<close>)
    then show ?thesis using detached_not_attached [of r "dm u"] root(2) by (simp add: dm)
  qed
  have before: "\<not> hasClass r ''show'' (dm w1)" "dtree (dm w1) = dtree (dm w)" by (simp_all add: w1 dm)
  have runs: "{alert_runs [AlertTick (Ended r), AlertTick (Timer n)] w1,
      alert_runs [AlertTick (Timer n), AlertTick (Ended r)] w1}
    = {timer_fires alert_run n (triggerTransitionEnd alert_run r w1),
       triggerTransitionEnd alert_run r (timer_fires alert_run n w1)}" by (simp add: alert_runs_def)
  show ?thesis unfolding runs by (intro conjI before) (rule ballI, erule after)
qed

text \<open>A document with one fading alert (2) and its dismiss button (3).\<close>

definition alert_page :: dom where
  "alert_page = page
     [(0, None, ''html'', [], []), (1, Some 0, ''body'', [], []),
      (2, Some 1, ''div'', [''alert'', ''fade'', ''show''], []),
      (3, Some 2, ''button'', [''close''], [(''data-dismiss'', ''alert'')])]"

lemma alert_page_root: "getRootElement 3 alert_page = Some 2"
  by code_simp

theorem alert_close_once_witness:
  "let w = new_world alert_page :: alert_world; w1 = alert_step (AlertCall (Some ''close'') [3]) w
   in \<not> attached (dtree (dm (alert_runs [AlertTick (Ended 2), AlertTick (Timer 1)] w1))) 2"
proof -
  have "hasClass 2 ''fade'' alert_page" "2 \<noteq> html_elem (dtree alert_page)" "\<not> vetoes (env alert_page) es" for es
    by (simp_all add: alert_page_def)
  then show ?thesis
    using alert_close_once [of 3 "new_world alert_page" 2] alert_page_root by (simp add: Let_def del: alert_step.simps)
qed

theorem alert_removed_only_if_approved_witness:
  "\<exists>p q. event_log (dm (alert_runs [AlertCall (Some ''close'') [3], AlertTick (Ended 2)] (new_world alert_page)))
           = p @ Event CLOSE 2 None # q"
proof -
  let ?ms = "[AlertCall (Some ''close'') [3], AlertTick (Ended 2)]"
  have "parent_of (dtree (dm (alert_runs ?ms (new_world alert_page)))) 2 = None" by code_simp
  moreover have "parent_of (dtree alert_page) 2 = Some 1" by code_simp
  ultimately show ?thesis using alert_removed_only_if_approved [of "new_world alert_page" ?ms 2] by fastforce
qed

end
