(* ===== verification/Bs_Button.thy ===== *)
theory Bs_Button
  imports Bs_Util
begin

section \<open>Button\<close>

text \<open>
  The Button component of \<open>bootstrap.js\<close>: toggling the \<open>active\<close> class of a button together with the
  \<open>checked\<close> state of the radio or checkbox inside it. Writing \<open>checked\<close> on a radio button unchecks
  the rest of its group, as browsers do: the radios of the same name with the same form.
\<close>

record button =
  button_element :: "elem option"

type_synonym button_world = "(button, unit) world"

definition is_buttons :: selector where
  "is_buttons d x \<longleftrightarrow> attr_of d x ''data-toggle'' = Some ''buttons''"

definition is_button_toggle :: selector where
  "is_button_toggle d x \<longleftrightarrow> (case attr_of d x ''data-toggle'' of None \<Rightarrow> False | Some v \<Rightarrow> startsWith v ''button'')"

definition is_input :: selector where
  "is_input d x \<longleftrightarrow> tag_of d x = ''input''"

definition is_active :: selector where
  "is_active d x \<longleftrightarrow> hasClass x ''active'' d"

definition is_btn :: selector where
  "is_btn d x \<longleftrightarrow> hasClass x ''btn'' d"

definition is_radio :: selector where
  "is_radio d x \<longleftrightarrow> attr_of d x ''type'' = Some ''radio''"

definition form_of :: "dom \<Rightarrow> elem \<Rightarrow> elem option" where
  "form_of d x = jq_closest (\<lambda>d x. tag_of d x = ''form'') x d"

definition same_radio_group :: "dom \<Rightarrow> elem \<Rightarrow> elem \<Rightarrow> bool" where
  "same_radio_group d x y \<longleftrightarrow> is_input d y \<and> is_radio d y \<and> attr_of d x ''name'' \<noteq> None
     \<and> attr_of d x ''name'' = attr_of d y ''name'' \<and> form_of d x = form_of d y"

definition set_checked :: "bool \<Rightarrow> elem \<Rightarrow> dom \<Rightarrow> dom" where
  "set_checked v x d =
     setChecked v x
       (if v \<and> is_radio d x
        then d\<lparr>checked_of := (\<lambda>y. checked_of d y \<and> \<not> same_radio_group d x y)\<rparr> else d)"

definition is_disabled :: "dom \<Rightarrow> elem \<Rightarrow> bool" where
  "is_disabled d x \<longleftrightarrow> attr_of d x ''disabled'' \<noteq> None \<or> hasClass x ''disabled'' d"

text \<open>The end of \<open>toggle\<close>: the pressed state and the class, for the flags the first part computed.\<close>

definition toggle_finish :: "bool \<Rightarrow> bool \<Rightarrow> elem \<Rightarrow> dom \<Rightarrow> dom" where
  "toggle_finish triggerChangeEvent addAriaPressed b d =
     (let d = (if addAriaPressed then setAttr ''aria-pressed'' (bool_str (\<not> hasClass b ''active'' d)) b d else d)
      in if triggerChangeEvent then toggleClass ''active'' b d else d)"

definition toggle :: "elem \<Rightarrow> dom \<Rightarrow> dom" where
  "toggle b d =
     (case jq_closest is_buttons b d of
        None \<Rightarrow> toggle_finish True True b d
      | Some root \<Rightarrow>
          (case first (jq_find is_input b d) of
             None \<Rightarrow> toggle_finish True True b d
           | Some input \<Rightarrow>
               (let radio = is_radio d input;
                    triggerChangeEvent = \<not> (radio \<and> checked_of d input \<and> hasClass b ''active'' d);
                    d = (if radio \<and> triggerChangeEvent
                         then (case first (jq_find is_active root d) of
                                 None \<Rightarrow> d
                               | Some activeElement \<Rightarrow> removeClass ''active'' activeElement d)
                         else d)
                in if triggerChangeEvent
                   then if is_disabled d input \<or> is_disabled d root then d
                        else toggle_finish True False b
                               (focus input (fire ''change'' None input
                                 (set_checked (\<not> hasClass b ''active'' d) input d)))
                   else toggle_finish False False b (focus input d))))"

definition button_dispose :: "elem \<Rightarrow> button_world \<Rightarrow> button_world" where
  "button_dispose e w = w\<lparr>insts := (insts w)(e := None)\<rparr>"

definition button_each :: "string option \<Rightarrow> elem \<Rightarrow> button_world \<Rightarrow> button_world" where
  "button_each config e w =
     (let w = (if insts w e = None then w\<lparr>insts := (insts w)(e \<mapsto> \<lparr>button_element = Some e\<rparr>)\<rparr> else w)
      in if config = Some ''toggle'' then on_dom (toggle e) w else w)"

definition button_jQueryInterface :: "string option \<Rightarrow> elem list \<Rightarrow> button_world \<Rightarrow> button_world" where
  "button_jQueryInterface config es w = fold (button_each config) es w"

text \<open>
  The data API: the delegated click handler runs once for every matching element on the way up from
  the target t, each time with the same target; focus and blur set the \<open>focus\<close> class.
\<close>

definition click_button :: "elem \<Rightarrow> dom \<Rightarrow> elem list" where
  "click_button t d =
     (if hasClass t ''btn'' d then [t] else (case jq_closest is_btn t d of None \<Rightarrow> [] | Some b \<Rightarrow> [b]))"

definition button_click :: "elem \<Rightarrow> button_world \<Rightarrow> button_world" where
  "button_click t w =
     fold (\<lambda>_ w. button_jQueryInterface (Some ''toggle'') (click_button t (dm w)) w)
       (filter (is_button_toggle (dm w)) (t # ancestors (dtree (dm w)) t)) w"

definition is_focus_type :: "string \<Rightarrow> bool" where
  "is_focus_type ty \<longleftrightarrow> ty = ''focus'' \<or> ty = ''focusin''"

definition button_focus_blur :: "string \<Rightarrow> elem \<Rightarrow> dom \<Rightarrow> dom" where
  "button_focus_blur ty t d =
     fold (\<lambda>_ d. case jq_closest is_btn t d of
                   None \<Rightarrow> d
                 | Some b \<Rightarrow> toggleClassTo ''focus'' (is_focus_type ty) b d)
       (filter (is_button_toggle d) (t # ancestors (dtree d) t)) d"

subsection \<open>What a toggle does\<close>

lemma set_checked_frame [simp]:
  "dtree (set_checked v x d) = dtree d" "class_of (set_checked v x d) = class_of d"
  "attr_of (set_checked v x d) = attr_of d" "tag_of (set_checked v x d) = tag_of d"
  "env (set_checked v x d) = env d" "event_log (set_checked v x d) = event_log d"
  by (simp_all add: set_checked_def)

lemma hasClass_set_checked [simp]: "hasClass y c (set_checked v x d) = hasClass y c d"
  by (simp add: hasClass_def)

lemma checked_set_checked [simp]: "checked_of (set_checked v x d) x = v"
  by (simp add: set_checked_def)

lemma toggle_finish_frame [simp]:
  "dtree (toggle_finish t a b d) = dtree d" "checked_of (toggle_finish t a b d) = checked_of d"
  "focused (toggle_finish t a b d) = focused d"
  by (simp_all add: toggle_finish_def Let_def)

lemma hasClass_toggle_finish [simp]:
  "hasClass x c (toggle_finish t a b d) = (if t \<and> x = b \<and> c = ''active'' then \<not> hasClass x c d else hasClass x c d)"
  by (auto simp: toggle_finish_def Let_def)

lemma jq_find_active:
  "dtree d' = dtree d \<Longrightarrow>
     jq_find is_active r d' = filter (\<lambda>x. is_desc (dtree d) r x \<and> hasClass x ''active'' d') (node_order (dtree d))"
  by (simp add: jq_find_def is_active_def)

lemma toggle_checkbox_parts:
  assumes "jq_closest is_buttons b d = Some r" "first (jq_find is_input b d) = Some i" "\<not> is_radio d i"
    and "\<not> is_disabled d i" "\<not> is_disabled d r"
  shows "toggle b d = toggle_finish True False b
           (focus i (fire ''change'' None i (set_checked (\<not> hasClass b ''active'' d) i d)))"
  using assms by (simp add: toggle_def Let_def)

definition clear_active :: "elem \<Rightarrow> dom \<Rightarrow> dom" where
  "clear_active r d = (case first (jq_find is_active r d) of None \<Rightarrow> d | Some a \<Rightarrow> removeClass ''active'' a d)"

lemma clear_active_frame [simp]:
  "dtree (clear_active r d) = dtree d" "attr_of (clear_active r d) = attr_of d"
  "checked_of (clear_active r d) = checked_of d" "tag_of (clear_active r d) = tag_of d"
  by (simp_all add: clear_active_def split: option.split)

lemma hasClass_clear_active [simp]:
  "c \<noteq> ''active'' \<Longrightarrow> hasClass x c (clear_active r d) = hasClass x c d"
  by (simp add: clear_active_def split: option.split)

lemma clear_active_clears:
  assumes "length (jq_find is_active r d) \<le> 1" "is_desc (dtree d) r x" "x \<in> set (node_order (dtree d))"
  shows "\<not> hasClass x ''active'' (clear_active r d)"
proof (cases "jq_find is_active r d")
  case Nil
  then show ?thesis using assms by (auto simp: clear_active_def jq_find_def filter_empty_conv is_active_def)
next
  case (Cons a as)
  then have "jq_find is_active r d = [a]" using assms(1) by simp
  moreover have "hasClass x ''active'' d \<Longrightarrow> x \<in> set (jq_find is_active r d)"
    using assms(2,3) by (simp add: set_jq_find is_active_def)
  ultimately show ?thesis by (auto simp: clear_active_def)
qed

lemma is_disabled_clear [simp]: "is_disabled (clear_active r d) x = is_disabled d x"
  by (simp add: is_disabled_def)

lemma toggle_radio_parts:
  assumes "jq_closest is_buttons b d = Some r" "first (jq_find is_input b d) = Some i" "is_radio d i"
    and "\<not> (checked_of d i \<and> hasClass b ''active'' d)"
  shows "toggle b d =
     (let d1 = clear_active r d
      in if is_disabled d i \<or> is_disabled d r then d1
         else toggle_finish True False b
                (focus i (fire ''change'' None i (set_checked (\<not> hasClass b ''active'' d1) i d1))))"
proof -
  have "is_disabled (clear_active r d) i = is_disabled d i" "is_disabled (clear_active r d) r = is_disabled d r"
    by simp_all
  then show ?thesis using assms unfolding clear_active_def by (auto simp: toggle_def Let_def)
qed

text \<open>
  C16: toggling a radio button in a group where at most one element is active leaves exactly that
  button active and its input checked, unless the input or the group is disabled; for a disabled one
  the class is taken from the group's active button all the same, before the check, so that no button
  of the group is active any more.
\<close>

theorem radio_toggle_exclusive:
  assumes "jq_closest is_buttons b d = Some r" "b \<noteq> r" "first (jq_find is_input b d) = Some i" "is_radio d i"
    and "distinct (node_order (dtree d))" "b \<in> set (node_order (dtree d))"
    and "length (jq_find is_active r d) \<le> 1"
  shows "jq_find is_active r (toggle b d) =
           (if (is_disabled d i \<or> is_disabled d r) \<and> \<not> (checked_of d i \<and> hasClass b ''active'' d) then [] else [b])
         \<and> (\<not> is_disabled d i \<and> \<not> is_disabled d r \<longrightarrow> checked_of (toggle b d) i)"
proof (cases "checked_of d i \<and> hasClass b ''active'' d")
  case True
  have desc: "is_desc (dtree d) r b" using jq_closest_Some [OF assms(1)] assms(2) by auto
  have t: "toggle b d = focus i d" using True assms(1,3,4) by (simp add: toggle_def toggle_finish_def Let_def)
  have "b \<in> set (jq_find is_active r d)" using True desc assms(6) by (simp add: set_jq_find is_active_def)
  then have "jq_find is_active r d = [b]" using assms(7) by (cases "jq_find is_active r d") auto
  then show ?thesis using True t by (simp add: jq_find_def is_active_def)
next
  case False
  have desc: "is_desc (dtree d) r b" using jq_closest_Some [OF assms(1)] assms(2) by auto
  have none: "\<not> hasClass x ''active'' (clear_active r d)" if "x \<in> set (node_order (dtree d))" "is_desc (dtree d) r x" for x
    using clear_active_clears [OF assms(7)] that by simp
  note parts = toggle_radio_parts [OF assms(1,3,4) False]
  show ?thesis
  proof (cases "is_disabled d i \<or> is_disabled d r")
    case True
    then have "toggle b d = clear_active r d" using parts by simp
    then show ?thesis using True False none by (auto simp: jq_find_def is_active_def filter_empty_conv)
  next
    case not_disabled: False
    let ?d = "toggle b d"
    have d: "?d = toggle_finish True False b (focus i (fire ''change'' None i (set_checked True i (clear_active r d))))"
      using parts not_disabled none [OF assms(6) desc] by simp
    have "jq_find is_active r ?d = [b]"
      using none desc
      by (subst jq_find_active [of _ d]) (auto simp: d intro!: filter_only assms(5,6))
    then show ?thesis using not_disabled by (simp add: d)
  qed
qed

text \<open>
  A button with a checkbox that is not disabled: toggling flips the \<open>active\<close> class, the input is
  checked exactly when the button is active afterwards, and one \<open>change\<close> event is fired on the input.
\<close>

theorem checkbox_toggle_agrees:
  assumes "jq_closest is_buttons b d = Some r" "first (jq_find is_input b d) = Some i" "\<not> is_radio d i"
    and "\<not> is_disabled d i" "\<not> is_disabled d r"
  shows "hasClass b ''active'' (toggle b d) = (\<not> hasClass b ''active'' d)
       \<and> checked_of (toggle b d) i = hasClass b ''active'' (toggle b d)
       \<and> event_log (toggle b d) = event_log d @ [Event ''change'' i None]"
  by (simp add: toggle_checkbox_parts [OF assms] toggle_finish_def)

text \<open>A button outside any group: \<open>aria-pressed\<close> says whether the button is active after the toggle.\<close>

theorem plain_toggle_pressed:
  assumes "jq_closest is_buttons b d = None"
  shows "hasClass b ''active'' (toggle b d) = (\<not> hasClass b ''active'' d)
       \<and> attr_of (toggle b d) b ''aria-pressed'' = Some (bool_str (hasClass b ''active'' (toggle b d)))"
  using assms by (simp add: toggle_def toggle_finish_def Let_def)

subsection \<open>A group of buttons\<close>

text \<open>A group (2) of two radio buttons: the first (3) active with its input (4) checked, the second (5, 6) not; a checkbox button (7, 8).\<close>

definition button_page :: "(string \<times> string) list \<Rightarrow> dom" where
  "button_page extra = setChecked True 4 (page
     [(0, None, ''html'', [], []), (1, Some 0, ''body'', [], []),
      (2, Some 1, ''div'', [], [(''data-toggle'', ''buttons'')]),
      (3, Some 2, ''label'', [''btn'', ''active''], []), (4, Some 3, ''input'', [], [(''type'', ''radio''), (''name'', ''o'')]),
      (5, Some 2, ''label'', [''btn''], []), (6, Some 5, ''input'', [], (''type'', ''radio'') # (''name'', ''o'') # extra),
      (7, Some 2, ''label'', [''btn''], []), (8, Some 7, ''input'', [], [(''type'', ''checkbox'')])])"

theorem radio_toggle_exclusive_witness:
  "jq_find is_active 2 (toggle 5 (button_page [])) = [5] \<and> jq_find is_active 2 (toggle 5 (button_page [(''disabled'', '''')])) = []"
proof -
  have "jq_closest is_buttons 5 (button_page x) = Some 2 \<and> first (jq_find is_input 5 (button_page x)) = Some 6
      \<and> is_radio (button_page x) 6 \<and> distinct (node_order (dtree (button_page x)))
      \<and> 5 \<in> set (node_order (dtree (button_page x))) \<and> length (jq_find is_active 2 (button_page x)) \<le> 1
      \<and> \<not> checked_of (button_page x) 6" if "x \<in> {[], [(''disabled'', '''')]}" for x
    using that by (elim insertE emptyE) (simp_all, code_simp+)
  moreover have "\<not> is_disabled (button_page []) 6 \<and> \<not> is_disabled (button_page []) 2
      \<and> is_disabled (button_page [(''disabled'', '''')]) 6" by code_simp
  ultimately show ?thesis
    using radio_toggle_exclusive [of 5 "button_page []" 2 6]
      radio_toggle_exclusive [of 5 "button_page [(''disabled'', '''')]" 2 6] by simp
qed

theorem checkbox_toggle_agrees_witness:
  "checked_of (toggle 7 (button_page [])) 8 \<and> event_log (toggle 7 (button_page [])) = [Event ''change'' 8 None]"
proof -
  have "jq_closest is_buttons 7 (button_page []) = Some 2" "first (jq_find is_input 7 (button_page [])) = Some 8"
    "\<not> is_radio (button_page []) 8" "\<not> is_disabled (button_page []) 8" "\<not> is_disabled (button_page []) 2"
    "\<not> hasClass 7 ''active'' (button_page [])" "event_log (button_page []) = []"
    by code_simp+
  then show ?thesis using checkbox_toggle_agrees [of 7 "button_page []" 2 8] by simp
qed

theorem plain_toggle_pressed_witness:
  "attr_of (toggle 2 (page [(0, None, ''html'', [], []), (1, Some 0, ''body'', [], []), (2, Some 1, ''button'', [''btn''], [])])) 2
     ''aria-pressed'' = Some ''true''"
proof -
  let ?d = "page [(0, None, ''html'', [], []), (1, Some 0, ''body'', [], []), (2, Some 1, ''button'', [''btn''], [])]"
  have "jq_closest is_buttons 2 ?d = None" "\<not> hasClass 2 ''active'' ?d" by code_simp+
  then show ?thesis using plain_toggle_pressed [of 2 ?d] by (simp add: bool_str_def)
qed

end
