(* ===== verification/Bs_Carousel.thy ===== *)
theory Bs_Carousel
  imports Bs_Util
begin

section \<open>Carousel\<close>

text \<open>
  The Carousel component of \<open>bootstrap.js\<close>. Each instance is a record stored on its element; a
  callback names the element and the instance's number, so that a callback of a disposed instance does
  not touch a later one. The calls of \<open>to\<close> bound to the next \<open>slid\<close> event are kept in the instance.
  The direction, from and to fields of the slide events are left out; names of private members are not
  considered as plugin actions.
\<close>

datatype direction = NEXT | PREV

datatype slide_index = IdxNum int | IdxStr string | IdxUndef

record carousel =
  car_gen :: nat
  car_items :: "elem list"
  car_interval :: "nat option"
  car_activeElement :: "elem option"
  car_isPaused :: bool
  car_isSliding :: bool
  car_touchTimeout :: bool
  car_config :: jsobj
  car_indicators :: "elem option"
  car_on_slid :: "slide_index list"

datatype carousel_cb =
    SlideEnd elem nat elem elem string string
  | SlidEvent elem nat elem
  | IntervalNext elem nat bool
  | TouchCycle elem nat

type_synonym carousel_world = "(carousel, carousel_cb) world"

abbreviation SLIDE :: string where "SLIDE \<equiv> ''slide.bs.carousel''"
abbreviation SLID :: string where "SLID \<equiv> ''slid.bs.carousel''"

definition carousel_Default :: jsobj where
  "carousel_Default = map_of
     [(''interval'', JNum 5000), (''keyboard'', JBool True), (''slide'', JBool False),
      (''pause'', JStr ''hover''), (''wrap'', JBool True)]"

definition carousel_DefaultType :: "(string \<times> string) list" where
  "carousel_DefaultType =
     [(''interval'', ''(number|boolean)''), (''keyboard'', ''boolean''), (''slide'', ''(boolean|string)''),
      (''pause'', ''(string|boolean)''), (''wrap'', ''boolean'')]"

definition is_item :: selector where
  "is_item d x \<longleftrightarrow> hasClass x ''carousel-item'' d"

definition is_active_item :: selector where
  "is_active_item d x \<longleftrightarrow> hasClass x ''active'' d \<and> hasClass x ''carousel-item'' d"

definition is_next_prev :: selector where
  "is_next_prev d x \<longleftrightarrow> hasClass x ''carousel-item-next'' d \<or> hasClass x ''carousel-item-prev'' d"

definition is_indicators :: selector where
  "is_indicators d x \<longleftrightarrow> hasClass x ''carousel-indicators'' d"

definition upd_car :: "elem \<Rightarrow> (carousel \<Rightarrow> carousel) \<Rightarrow> carousel_world \<Rightarrow> carousel_world" where
  "upd_car e f w = w\<lparr>insts := (insts w)(e := map_option f (insts w e))\<rparr>"

definition car_live :: "elem \<Rightarrow> nat \<Rightarrow> carousel_world \<Rightarrow> bool" where
  "car_live e g w \<longleftrightarrow> map_option car_gen (insts w e) = Some g"

subsection \<open>Items\<close>

text \<open>\<open>_getItemIndex\<close> stores the items around an element and returns its index among them.\<close>

definition items_around :: "elem option \<Rightarrow> dom \<Rightarrow> elem list" where
  "items_around x d =
     (case x of
        None \<Rightarrow> []
      | Some y \<Rightarrow> (case parent_of (dtree d) y of None \<Rightarrow> [] | Some p \<Rightarrow> jq_find is_item p d))"

definition item_index :: "elem option \<Rightarrow> dom \<Rightarrow> int" where
  "item_index x d = (case x of None \<Rightarrow> -1 | Some y \<Rightarrow> indexOf (items_around x d) y)"

definition getItemIndex :: "elem \<Rightarrow> elem option \<Rightarrow> carousel_world \<Rightarrow> int \<times> carousel_world" where
  "getItemIndex e x w =
     (item_index x (dm w), upd_car e (\<lambda>c. c\<lparr>car_items := items_around x (dm w)\<rparr>) w)"

definition js_rem :: "int \<Rightarrow> int \<Rightarrow> int" where
  "js_rem a b = (if a < 0 then - ((- a) mod b) else a mod b)"

definition getItemByDirection :: "bool \<Rightarrow> direction \<Rightarrow> elem \<Rightarrow> dom \<Rightarrow> elem option" where
  "getItemByDirection wrap dir active d =
     (let items = items_around (Some active) d;
          activeIndex = item_index (Some active) d;
          lastItemIndex = int (length items) - 1;
          isGoingToWrap = (dir = PREV \<and> activeIndex = 0 \<or> dir = NEXT \<and> activeIndex = lastItemIndex)
      in if isGoingToWrap \<and> \<not> wrap then Some active
         else let delta = (if dir = PREV then -1 else 1);
                  itemIndex = js_rem (activeIndex + delta) (int (length items))
              in if itemIndex = -1 then at items (int (length items) - 1) else at items itemIndex)"

definition active_item :: "elem \<Rightarrow> dom \<Rightarrow> elem option" where
  "active_item e d = first (jq_find is_active_item e d)"

definition setActiveIndicatorElement :: "elem option \<Rightarrow> elem \<Rightarrow> dom \<Rightarrow> dom" where
  "setActiveIndicatorElement indicators x d =
     (case indicators of
        None \<Rightarrow> d
      | Some ind \<Rightarrow>
          (let d = fold (removeClass ''active'') (jq_find (\<lambda>d y. hasClass y ''active'' d) ind d) d
           in case at (jq_children (\<lambda>_ _. True) ind d) (item_index (Some x) d) of
                None \<Rightarrow> d
              | Some nextIndicator \<Rightarrow> addClass ''active'' nextIndicator d))"

subsection \<open>Cycling\<close>

definition cycle :: "bool \<Rightarrow> elem \<Rightarrow> carousel_world \<Rightarrow> carousel_world" where
  "cycle event e w =
     (let w = (if \<not> event then upd_car e (\<lambda>c. c\<lparr>car_isPaused := False\<rparr>) w else w)
      in case insts w e of
           None \<Rightarrow> w
         | Some c \<Rightarrow>
             (let w = (if car_interval c \<noteq> None
                       then upd_car e (\<lambda>c. c\<lparr>car_interval := None\<rparr>) (clearInterval (car_interval c) w) else w)
              in if truthy (get (car_config c) ''interval'') \<and> \<not> car_isPaused c
                 then let (i, w) = setInterval (IntervalNext e (car_gen c) (visibilityState (env (dm w)))) w
                      in upd_car e (\<lambda>c. c\<lparr>car_interval := Some i\<rparr>) w
                 else w))"

text \<open>The end of a slide; the only kind of callback that is bound to the end of a transition.\<close>

fun slide_end :: "carousel_cb \<Rightarrow> carousel_world \<Rightarrow> carousel_world" where
  "slide_end (SlideEnd e g active nxt order dir) w =
     (let w = on_dom (removeClass dir active \<circ> removeClass order active \<circ> removeClass ''active'' active
                        \<circ> addClass ''active'' nxt \<circ> removeClass order nxt \<circ> removeClass dir nxt) w;
          w = (if car_live e g w then upd_car e (\<lambda>c. c\<lparr>car_isSliding := False\<rparr>) w else w)
      in setTimeout (SlidEvent e g nxt) w)"
| "slide_end cb w = w"

definition pause :: "bool \<Rightarrow> elem \<Rightarrow> carousel_world \<Rightarrow> carousel_world" where
  "pause event e w =
     (let w = (if \<not> event then upd_car e (\<lambda>c. c\<lparr>car_isPaused := True\<rparr>) w else w);
          w = (if jq_find is_next_prev e (dm w) \<noteq> [] \<and> has_transition w
               then cycle True e (triggerTransitionEnd slide_end e w) else w)
      in case insts w e of
           None \<Rightarrow> w
         | Some c \<Rightarrow> upd_car e (\<lambda>c. c\<lparr>car_interval := None\<rparr>) (clearInterval (car_interval c) w))"

subsection \<open>Sliding\<close>

text \<open>
  The handlers bound with \<open>one(SLID)\<close> run inside the \<open>slid\<close> event, each unbound first; each of them is a
  call of \<open>to\<close>, which is the parameter k here.
\<close>

definition trigger_slid ::
  "(elem \<Rightarrow> slide_index \<Rightarrow> carousel_world \<Rightarrow> carousel_world) \<Rightarrow> elem \<Rightarrow> elem \<Rightarrow> carousel_world \<Rightarrow> carousel_world" where
  "trigger_slid k e nxt w =
     (let w = on_dom (fire SLID (Some nxt) e) w
      in case insts w e of
           None \<Rightarrow> w
         | Some c \<Rightarrow>
             fold (\<lambda>i w. k e i (upd_car e (\<lambda>c. c\<lparr>car_on_slid := remove1 i (car_on_slid c)\<rparr>) w)) (car_on_slid c) w)"

definition directionalClassName :: "direction \<Rightarrow> string" where
  "directionalClassName dir = (if dir = NEXT then ''carousel-item-left'' else ''carousel-item-right'')"

definition orderClassName :: "direction \<Rightarrow> string" where
  "orderClassName dir = (if dir = NEXT then ''carousel-item-next'' else ''carousel-item-prev'')"

text \<open>The part of \<open>_slide\<close> after the slide event was let through.\<close>

definition slide_go ::
  "(elem \<Rightarrow> slide_index \<Rightarrow> carousel_world \<Rightarrow> carousel_world) \<Rightarrow> elem \<Rightarrow> carousel \<Rightarrow> direction
     \<Rightarrow> elem \<Rightarrow> elem \<Rightarrow> carousel_world \<Rightarrow> carousel_world" where
  "slide_go k e c dir active nxt w =
     (let isCycling = (car_interval c \<noteq> None);
          w = upd_car e (\<lambda>c. c\<lparr>car_isSliding := True\<rparr>) w;
          w = (if isCycling then pause False e w else w);
          w = on_dom (setActiveIndicatorElement (car_indicators c) nxt) w;
          w = (if car_indicators c \<noteq> None then snd (getItemIndex e (Some nxt) w) else w);
          w = (if has_transition w \<and> hasClass e ''slide'' (dm w)
               then await_end active (SlideEnd e (car_gen c) active nxt (orderClassName dir) (directionalClassName dir))
                      (on_dom (addClass (directionalClassName dir) nxt \<circ> addClass (directionalClassName dir) active
                                 \<circ> addClass (orderClassName dir) nxt) w)
               else trigger_slid k e nxt
                      (upd_car e (\<lambda>c. c\<lparr>car_isSliding := False\<rparr>)
                        (on_dom (addClass ''active'' nxt \<circ> removeClass ''active'' active) w)))
      in if isCycling then cycle False e w else w)"

definition slide_with ::
  "(elem \<Rightarrow> slide_index \<Rightarrow> carousel_world \<Rightarrow> carousel_world) \<Rightarrow> elem \<Rightarrow> direction \<Rightarrow> elem option
     \<Rightarrow> carousel_world \<Rightarrow> carousel_world" where
  "slide_with k e dir element w =
     (case insts w e of
        None \<Rightarrow> w
      | Some c \<Rightarrow>
          (let active = active_item e (dm w);
               nxt = (case element of
                        Some x \<Rightarrow> Some x
                      | None \<Rightarrow>
                          (case active of
                             None \<Rightarrow> None
                           | Some a \<Rightarrow> getItemByDirection (truthy (get (car_config c) ''wrap'')) dir a (dm w)));
               w = snd (getItemIndex e nxt w)
           in if (case nxt of None \<Rightarrow> False | Some n \<Rightarrow> hasClass n ''active'' (dm w))
              then upd_car e (\<lambda>c. c\<lparr>car_isSliding := False\<rparr>) w
              else let w = snd (getItemIndex e (active_item e (dm w)) w);
                       (prevented, d) = trigger SLIDE nxt e (dm w);
                       w = w\<lparr>dm := d\<rparr>
                   in if prevented then w
                      else case (active, nxt) of
                             (Some a, Some n) \<Rightarrow> slide_go k e c dir a n w
                           | _ \<Rightarrow> w))"

definition digits :: "string \<Rightarrow> bool" where
  "digits s \<longleftrightarrow> s \<noteq> [] \<and> list_all (\<lambda>c. 48 \<le> (of_char c :: nat) \<and> (of_char c :: nat) \<le> 57) s"

text \<open>The number an index stands for (\<open>None\<close> is NaN) and the element it selects.\<close>

fun idx_num :: "slide_index \<Rightarrow> int option" where
  "idx_num (IdxNum i) = Some i"
| "idx_num (IdxStr s) =
     (if digits s then Some (int (str_nat s))
      else if take 1 s = ''-'' \<and> digits (drop 1 s) then Some (- int (str_nat (drop 1 s))) else None)"
| "idx_num IdxUndef = None"

fun idx_elem :: "elem list \<Rightarrow> slide_index \<Rightarrow> elem option" where
  "idx_elem items (IdxNum i) = at items i"
| "idx_elem items (IdxStr s) = (if digits s \<and> nat_str (str_nat s) = s then at items (int (str_nat s)) else None)"
| "idx_elem items IdxUndef = None"

definition idx_outside :: "elem list \<Rightarrow> slide_index \<Rightarrow> bool" where
  "idx_outside items index =
     (case idx_num index of None \<Rightarrow> False | Some n \<Rightarrow> n > int (length items) - 1 \<or> n < 0)"

definition to_with ::
  "(elem \<Rightarrow> slide_index \<Rightarrow> carousel_world \<Rightarrow> carousel_world) \<Rightarrow> elem \<Rightarrow> slide_index
     \<Rightarrow> carousel_world \<Rightarrow> carousel_world" where
  "to_with k e index w =
     (case insts w e of
        None \<Rightarrow> w
      | Some c \<Rightarrow>
          (let active = active_item e (dm w);
               w = upd_car e (\<lambda>c. c\<lparr>car_activeElement := active\<rparr>) w;
               (activeIndex, w) = getItemIndex e active w;
               items = items_around active (dm w)
           in if idx_outside items index then w
              else if car_isSliding c
              then upd_car e (\<lambda>c. c\<lparr>car_on_slid := car_on_slid c @ [index]\<rparr>) w
              else if index = IdxNum activeIndex then cycle False e (pause False e w)
              else slide_with k e
                     (case idx_num index of None \<Rightarrow> PREV | Some n \<Rightarrow> if n > activeIndex then NEXT else PREV)
                     (idx_elem items index) w))"

text \<open>
  Calls of \<open>to\<close> nest only through a synchronous \<open>slid\<close> event, and each level has used up one bound
  handler, so the number of bound handlers bounds the depth.
\<close>

primrec to_depth :: "nat \<Rightarrow> elem \<Rightarrow> slide_index \<Rightarrow> carousel_world \<Rightarrow> carousel_world" where
  "to_depth 0 = (\<lambda>e index w. w)"
| "to_depth (Suc n) = to_with (to_depth n)"

definition slid_depth :: "elem \<Rightarrow> carousel_world \<Rightarrow> nat" where
  "slid_depth e w = (case insts w e of None \<Rightarrow> 0 | Some c \<Rightarrow> length (car_on_slid c))"

definition carousel_to :: "elem \<Rightarrow> slide_index \<Rightarrow> carousel_world \<Rightarrow> carousel_world" where
  "carousel_to e index w = to_depth (Suc (slid_depth e w)) e index w"

definition slide :: "elem \<Rightarrow> direction \<Rightarrow> carousel_world \<Rightarrow> carousel_world" where
  "slide e dir w = slide_with (to_depth (slid_depth e w)) e dir None w"

definition is_sliding :: "elem \<Rightarrow> carousel_world \<Rightarrow> bool" where
  "is_sliding e w = (case insts w e of None \<Rightarrow> False | Some c \<Rightarrow> car_isSliding c)"

definition carousel_next :: "elem \<Rightarrow> carousel_world \<Rightarrow> carousel_world" where
  "carousel_next e w = (if \<not> is_sliding e w then slide e NEXT w else w)"

definition carousel_prev :: "elem \<Rightarrow> carousel_world \<Rightarrow> carousel_world" where
  "carousel_prev e w = (if \<not> is_sliding e w then slide e PREV w else w)"

definition nextWhenVisible :: "elem \<Rightarrow> carousel_world \<Rightarrow> carousel_world" where
  "nextWhenVisible e w = (if visible (env (dm w)) (event_log (dm w)) e then carousel_next e w else w)"

text \<open>All callbacks: a slide's end, the deferred \<open>slid\<close> event, an elapsed interval, the end of the touch delay.\<close>

fun carousel_run :: "carousel_cb \<Rightarrow> carousel_world \<Rightarrow> carousel_world" where
  "carousel_run (SlidEvent e g nxt) w =
     (if car_live e g w then trigger_slid (to_depth (slid_depth e w)) e nxt w else w)"
| "carousel_run (IntervalNext e g whenVisible) w =
     (if car_live e g w then (if whenVisible then nextWhenVisible e w else carousel_next e w) else w)"
| "carousel_run (TouchCycle e g) w = (if car_live e g w then cycle False e w else w)"
| "carousel_run cb w = slide_end cb w"

definition carousel_dispose :: "elem \<Rightarrow> carousel_world \<Rightarrow> carousel_world" where
  "carousel_dispose e w = w\<lparr>insts := (insts w)(e := None)\<rparr>"

subsection \<open>Construction, events and the plugin\<close>

definition carousel_getConfig :: "jsobj \<Rightarrow> js_error + jsobj" where
  "carousel_getConfig config =
     (let config = extends carousel_Default config
      in case typeCheckConfig ''carousel'' config carousel_DefaultType of
           Inl err \<Rightarrow> Inl err
         | Inr _ \<Rightarrow> Inr config)"

definition new_carousel :: "elem \<Rightarrow> jsobj \<Rightarrow> carousel_world \<Rightarrow> js_error + carousel_world" where
  "new_carousel e config w =
     (case carousel_getConfig config of
        Inl err \<Rightarrow> Inl err
      | Inr cfg \<Rightarrow>
          Inr (w\<lparr>insts := (insts w)(e \<mapsto>
                 \<lparr>car_gen = next_id w, car_items = [], car_interval = None, car_activeElement = None,
                  car_isPaused = False, car_isSliding = False, car_touchTimeout = False, car_config = cfg,
                  car_indicators = first (jq_find is_indicators e (dm w)), car_on_slid = []\<rparr>),
               next_id := Suc (next_id w)\<rparr>))"

text \<open>The handlers \<open>_addEventListeners\<close> installs, each under the options that install it.\<close>

definition carousel_keydown :: "elem \<Rightarrow> string \<Rightarrow> nat \<Rightarrow> carousel_world \<Rightarrow> carousel_world" where
  "carousel_keydown e tagName which w =
     (case insts w e of
        None \<Rightarrow> w
      | Some c \<Rightarrow>
          if \<not> truthy (get (car_config c) ''keyboard'') \<or> contains tagName ''input'' \<or> contains tagName ''textarea'' then w
          else if which = 37 then carousel_prev e w
          else if which = 39 then carousel_next e w
          else w)"

definition hover_pause :: "elem \<Rightarrow> carousel_world \<Rightarrow> bool" where
  "hover_pause e w =
     (case insts w e of None \<Rightarrow> False | Some c \<Rightarrow> get (car_config c) ''pause'' = JStr ''hover'')"

definition carousel_mouseenter :: "elem \<Rightarrow> carousel_world \<Rightarrow> carousel_world" where
  "carousel_mouseenter e w = (if hover_pause e w then pause True e w else w)"

definition carousel_mouseleave :: "elem \<Rightarrow> carousel_world \<Rightarrow> carousel_world" where
  "carousel_mouseleave e w = (if hover_pause e w then cycle True e w else w)"

definition carousel_touchend :: "elem \<Rightarrow> carousel_world \<Rightarrow> carousel_world" where
  "carousel_touchend e w =
     (case insts w e of
        None \<Rightarrow> w
      | Some c \<Rightarrow>
          if hover_pause e w \<and> touch (env (dm w))
          then let w = pause False e w;
                   w = (if car_touchTimeout c then w\<lparr>later := filter (\<lambda>cb. cb \<noteq> TouchCycle e (car_gen c)) (later w)\<rparr> else w)
               in setTimeout (TouchCycle e (car_gen c)) (upd_car e (\<lambda>c. c\<lparr>car_touchTimeout := True\<rparr>) w)
          else w)"

definition carousel_method :: "string \<Rightarrow> elem \<Rightarrow> carousel_world \<Rightarrow> js_error + carousel_world" where
  "carousel_method action e w =
     (if action = ''next'' then Inr (carousel_next e w)
      else if action = ''prev'' then Inr (carousel_prev e w)
      else if action = ''nextWhenVisible'' then Inr (nextWhenVisible e w)
      else if action = ''pause'' then Inr (pause False e w)
      else if action = ''cycle'' then Inr (cycle False e w)
      else if action = ''to'' then Inr (carousel_to e IdxUndef w)
      else if action = ''dispose'' then Inr (carousel_dispose e w)
      else Inl (no_method action))"

definition carousel_each :: "plugin_arg \<Rightarrow> elem \<Rightarrow> carousel_world \<Rightarrow> js_error + carousel_world" where
  "carousel_each config e w =
     (let cfg0 = extends carousel_Default (data_of (dm w) e);
          cfg = (case config of ObjArg ob \<Rightarrow> extends cfg0 ob | _ \<Rightarrow> cfg0);
          action = (case config of StrArg s \<Rightarrow> JStr s | _ \<Rightarrow> get cfg ''slide'')
      in case (if insts w e = None then new_carousel e cfg w else Inr w) of
           Inl err \<Rightarrow> Inl err
         | Inr w \<Rightarrow>
             (case config of
                NumArg i \<Rightarrow> Inr (carousel_to e (IdxNum i) w)
              | _ \<Rightarrow>
                  (case action of
                     JStr a \<Rightarrow> carousel_method a e w
                   | _ \<Rightarrow> if truthy (get cfg ''interval'') then Inr (cycle False e (pause False e w)) else Inr w)))"

definition carousel_jQueryInterface :: "plugin_arg \<Rightarrow> elem list \<Rightarrow> carousel_world \<Rightarrow> js_error + carousel_world" where
  "carousel_jQueryInterface config es w = each_err (carousel_each config) es w"

text \<open>\<open>_dataApiClickHandler\<close> for the matched control s.\<close>

definition dataApiClickHandler :: "elem \<Rightarrow> carousel_world \<Rightarrow> js_error + carousel_world" where
  "dataApiClickHandler s w =
     (case target_of s (dm w) of
        None \<Rightarrow> Inr w
      | Some target \<Rightarrow>
          if \<not> hasClass target ''carousel'' (dm w) then Inr w
          else let slideIndex = (case attr_of (dm w) s ''data-slide-to'' of Some '''' \<Rightarrow> None | v \<Rightarrow> v);
                   config = extends (data_of (dm w) target) (data_of (dm w) s);
                   config = (if slideIndex \<noteq> None then config(''interval'' \<mapsto> JBool False) else config)
               in case carousel_jQueryInterface (ObjArg config) [target] w of
                    Inl err \<Rightarrow> Inl err
                  | Inr w \<Rightarrow>
                      Inr (case slideIndex of None \<Rightarrow> w | Some i \<Rightarrow> carousel_to target (IdxStr i) w))"

definition is_data_slide :: selector where
  "is_data_slide d x \<longleftrightarrow> attr_of d x ''data-slide'' \<noteq> None \<or> attr_of d x ''data-slide-to'' \<noteq> None"

definition carousel_click :: "elem \<Rightarrow> carousel_world \<Rightarrow> js_error + carousel_world" where
  "carousel_click t w =
     each_err dataApiClickHandler (filter (is_data_slide (dm w)) (t # ancestors (dtree (dm w)) t)) w"

definition is_data_ride :: selector where
  "is_data_ride d x \<longleftrightarrow> attr_of d x ''data-ride'' = Some ''carousel''"

definition carousel_load :: "carousel_world \<Rightarrow> js_error + carousel_world" where
  "carousel_load w =
     each_err (\<lambda>e w. carousel_jQueryInterface (ObjArg (data_of (dm w) e)) [e] w) (jq_all is_data_ride (dm w)) w"

subsection \<open>The next item\<close>

lemma item_index_nth:
  "distinct (items_around (Some a) d) \<Longrightarrow> i < length (items_around (Some a) d) \<Longrightarrow>
     items_around (Some a) d ! i = a \<Longrightarrow> item_index (Some a) d = int i"
  using indexOf_nth by (fastforce simp: item_index_def)

lemma js_rem_next: "i < n \<Longrightarrow> js_rem (int i + 1) (int n) = int (Suc i mod n)"
  by (simp add: js_rem_def zmod_int add.commute)

lemma js_rem_prev: "0 < i \<Longrightarrow> i < n \<Longrightarrow> js_rem (int i - 1) (int n) = int (i - 1)"
  by (simp add: js_rem_def of_nat_diff)

text \<open>
  Among n items the one after position i is at (i + 1) mod n and the one before at (i + n - 1)
  mod n; when wrapping is off, the last item has no next and the first no previous one, and the active
  item itself is returned.
\<close>

theorem item_by_direction:
  fixes d :: dom and a :: elem
  defines "items \<equiv> items_around (Some a) d"
  assumes "distinct items" "i < length items" "items ! i = a"
  shows "getItemByDirection wrap NEXT a d =
           Some (if i = length items - 1 \<and> \<not> wrap then a else items ! ((i + 1) mod length items))
       \<and> getItemByDirection wrap PREV a d =
           Some (if i = 0 \<and> \<not> wrap then a else items ! ((i + length items - 1) mod length items))"
proof -
  have ix: "item_index (Some a) d = int i" using item_index_nth assms by (simp add: items_def)
  have last: "int i = int (length items) - 1 \<longleftrightarrow> i = length items - 1" using assms(3) by linarith
  have "Suc i mod length items < length items" using assms(3) by (intro mod_less_divisor) linarith
  then have "getItemByDirection wrap NEXT a d =
      Some (if i = length items - 1 \<and> \<not> wrap then a else items ! ((i + 1) mod length items))"
    using js_rem_next [OF assms(3)] assms(3)
    by (simp add: getItemByDirection_def Let_def ix items_def [symmetric] last)
  moreover have "getItemByDirection wrap PREV a d =
      Some (if i = 0 \<and> \<not> wrap then a else items ! ((i + length items - 1) mod length items))"
  proof (cases "i = 0")
    case True
    have "1 mod int (length items) = 1" if "length items \<noteq> 1"
      using assms(3) True that by (intro mod_pos_pos_trivial) linarith+
    then have "js_rem (-1) (int (length items)) = (if length items = 1 then 0 else -1)" by (simp add: js_rem_def)
    moreover have "at items (int (length items) - 1) = Some (items ! (length items - 1))"
      using assms(3) by (cases "length items") (simp_all add: at_def)
    ultimately show ?thesis
      using assms(3,4) True by (auto simp: getItemByDirection_def Let_def ix items_def [symmetric] at_def)
  next
    case False
    have "(i + length items - 1) mod length items = i - 1"
      using False assms(3) by (simp add: mod_if)
    then show ?thesis using False js_rem_prev [of i "length items"] assms(3)
      by (simp add: getItemByDirection_def Let_def ix items_def [symmetric] at_def nat_diff_distrib')
  qed
  ultimately show ?thesis by blast
qed

subsection \<open>One active item\<close>

definition transitional :: "string \<Rightarrow> bool" where
  "transitional c \<longleftrightarrow> c \<in> {''carousel-item-left'', ''carousel-item-right'', ''carousel-item-next'', ''carousel-item-prev''}"

text \<open>
  The shape of a carousel's markup: its items are the children of one element p inside it, and no item
  is among the indicators.
\<close>

definition car_page :: "elem \<Rightarrow> elem \<Rightarrow> elem option \<Rightarrow> dom \<Rightarrow> bool" where
  "car_page e p ind d \<longleftrightarrow> distinct (node_order (dtree d))
     \<and> (\<forall>x \<in> set (node_order (dtree d)). hasClass x ''carousel-item'' d \<longrightarrow>
          x \<noteq> e \<and> is_desc (dtree d) e x = (parent_of (dtree d) x = Some p)
          \<and> is_desc (dtree d) p x = (parent_of (dtree d) x = Some p)
          \<and> (case ind of None \<Rightarrow> True | Some i \<Rightarrow> \<not> is_desc (dtree d) i x \<and> parent_of (dtree d) x \<noteq> Some i))"

definition car_sig :: "carousel \<Rightarrow> nat \<times> elem option \<times> bool" where
  "car_sig c = (car_gen c, car_indicators c, car_isSliding c)"

text \<open>The deferred callbacks all belong to the carousel e.\<close>

fun own_cb :: "elem \<Rightarrow> carousel_cb \<Rightarrow> bool" where
  "own_cb e (SlidEvent x g n) = (x = e)"
| "own_cb e (IntervalNext x g v) = (x = e)"
| "own_cb e (TouchCycle x g) = (x = e)"
| "own_cb e (SlideEnd x g a n od dr) = False"

definition own :: "elem \<Rightarrow> carousel_world \<Rightarrow> bool" where
  "own e w \<longleftrightarrow> (\<forall>cb \<in> set (later w). own_cb e cb) \<and> (\<forall>t \<in> set (intervals w). own_cb e (snd t))"

text \<open>
  The state of a carousel: its active item a, whether it slides, the callbacks that wait, and which
  elements may have a transitional class.
\<close>

definition car_state ::
  "elem \<Rightarrow> elem \<Rightarrow> nat \<Rightarrow> elem option \<Rightarrow> elem \<Rightarrow> bool \<Rightarrow> (elem \<times> carousel_cb handler) list
     \<Rightarrow> (elem \<times> string) list \<Rightarrow> carousel_world \<Rightarrow> bool" where
  "car_state e p g ind a sl ps tc w \<longleftrightarrow> map_option car_sig (insts w e) = Some (g, ind, sl)
     \<and> car_page e p ind (dm w) \<and> jq_find is_active_item e (dm w) = [a]
     \<and> distinct (map fst (bound w)) \<and> (\<forall>b \<in> set (bound w). fst b < next_id w) \<and> pend w = ps \<and> own e w
     \<and> (\<forall>x c. transitional c \<longrightarrow> hasClass x c (dm w) \<longrightarrow> (x, c) \<in> set tc)"

definition is_item_of :: "elem \<Rightarrow> elem \<Rightarrow> dom \<Rightarrow> bool" where
  "is_item_of p x d \<longleftrightarrow> x \<in> set (node_order (dtree d)) \<and> hasClass x ''carousel-item'' d \<and> parent_of (dtree d) x = Some p"

definition slide_classes :: "elem \<Rightarrow> elem \<Rightarrow> direction \<Rightarrow> (elem \<times> string) list" where
  "slide_classes a n dir = [(a, directionalClassName dir), (n, directionalClassName dir), (n, orderClassName dir)]"

definition car_sliding :: "elem \<Rightarrow> elem \<Rightarrow> nat \<Rightarrow> elem option \<Rightarrow> elem \<Rightarrow> elem \<Rightarrow> direction \<Rightarrow> carousel_world \<Rightarrow> bool" where
  "car_sliding e p g ind a n dir w \<longleftrightarrow> is_item_of p n (dm w) \<and> n \<noteq> a
     \<and> car_state e p g ind a True
         [(a, Callback (SlideEnd e g a n (orderClassName dir) (directionalClassName dir)))] (slide_classes a n dir) w"

definition car_inv :: "elem \<Rightarrow> elem \<Rightarrow> nat \<Rightarrow> elem option \<Rightarrow> carousel_world \<Rightarrow> bool" where
  "car_inv e p g ind w \<longleftrightarrow>
     (\<exists>a. car_state e p g ind a False [] [] w) \<or> (\<exists>a n dir. car_sliding e p g ind a n dir w)"

lemma upd_car_simps [simp]:
  "dm (upd_car e f w) = dm w" "bound (upd_car e f w) = bound w" "timers (upd_car e f w) = timers w"
  "called (upd_car e f w) = called w" "next_id (upd_car e f w) = next_id w" "later (upd_car e f w) = later w"
  "intervals (upd_car e f w) = intervals w" "has_transition (upd_car e f w) = has_transition w"
  "insts (upd_car e f w) x = (if x = e then map_option f (insts w e) else insts w x)"
  by (simp_all add: upd_car_def)

lemma own_simps [simp]:
  "own e (upd_car x f w) = own e w" "own e (on_dom h w) = own e w" "own e (await_end x cb w) = own e w"
  "own e (unbind i w) = own e w" "own e w \<Longrightarrow> own e (clearInterval j w)"
  "own e (setTimeout cb w) \<longleftrightarrow> own e w \<and> own_cb e cb" "own e (w\<lparr>timers := ts\<rparr>) = own e w"
  "own e (w\<lparr>called := cs\<rparr>) = own e w" "own e (w\<lparr>dm := d\<rparr>) = own e w"
  by (auto simp: own_def)

lemma own_getItemIndex [simp]: "own e (snd (getItemIndex x y w)) = own e w"
  by (simp add: getItemIndex_def)

lemma own_cycle [simp]: "own e w \<Longrightarrow> own e (cycle ev e w)"
  by (auto simp: cycle_def Let_def setInterval_def own_def split: option.split)

lemma same_classes:
  assumes "dtree d' = dtree d" "class_of d' = class_of d"
  shows "hasClass x c d' = hasClass x c d" "car_page e p ind d' = car_page e p ind d"
    "jq_find is_active_item e d' = jq_find is_active_item e d" "is_item_of p x d' = is_item_of p x d"
  unfolding car_page_def jq_find_def is_active_item_def is_item_of_def hasClass_def assms by (rule refl)+

lemma car_state_cong:
  assumes "car_state e p g ind a sl ps tc w" "dtree (dm w') = dtree (dm w)" "class_of (dm w') = class_of (dm w)"
    and "bound w' = bound w" "next_id w \<le> next_id w'"
    and "map_option car_sig (insts w' e) = Some (g, ind, sl')" "own e w \<Longrightarrow> own e w'"
  shows "car_state e p g ind a sl' ps tc w'"
  using assms(1,4-7) unfolding car_state_def pend_def same_classes [OF assms(2,3)] by (auto intro: less_le_trans)

lemma cycle_frame:
  "dm (cycle ev e w) = dm w" "bound (cycle ev e w) = bound w" "next_id w \<le> next_id (cycle ev e w)"
  "map_option car_sig (insts (cycle ev e w) e) = map_option car_sig (insts w e)"
  by (auto simp: cycle_def Let_def setInterval_def car_sig_def split: option.split)

lemma cycle_state: "car_state e p g ind a sl ps tc w \<Longrightarrow> car_state e p g ind a sl ps tc (cycle ev e w)"
  by (rule car_state_cong, assumption) (auto simp: cycle_frame car_state_def)

text \<open>
  The carousel element itself has no waiting callback, so the end of a transition triggered on it
  changes neither the document nor the instance.
\<close>

lemma own_end_state:
  assumes "car_state e p g ind a sl ps tc w" "\<forall>(x, h) \<in> set ps. x \<noteq> e"
  shows "car_state e p g ind a sl ps tc (triggerTransitionEnd run e w)"
    and "dm (triggerTransitionEnd run e w) = dm w"
proof -
  let ?w = "triggerTransitionEnd run e w"
  have "\<exists>n. snd (snd b) = MarkCalled n" if mem: "b \<in> set (bound_on e w)" for b
  proof -
    obtain i x h where b: "b = (i, x, h)" by (cases b)
    then have b: "b = (i, e, h)" "(i, e, h) \<in> set (bound w)" using mem by (auto simp: bound_on_def)
    then have "\<not> is_callback h" using assms pend_bound [of e h w] by (auto simp: car_state_def)
    then show ?thesis using b by (cases h) auto
  qed
  note m = marks_only [of "bound_on e w" run w, folded triggerTransitionEnd_def]
  have fr: "dm ?w = dm w" "insts ?w = insts w" "next_id ?w = next_id w" "later ?w = later w" "intervals ?w = intervals w"
    "bound ?w = filter (\<lambda>b. fst b \<notin> fst ` set (bound_on e w)) (bound w)"
    using m \<open>\<And>b. b \<in> set (bound_on e w) \<Longrightarrow> \<exists>n. snd (snd b) = MarkCalled n\<close> by blast+
  have d: "distinct (map fst (bound w))" using assms by (simp add: car_state_def)
  have keep: "fst b \<notin> fst ` set (bound_on e w)" if "b \<in> set (bound w)" "is_callback (snd (snd b))" for b
  proof
    assume "fst b \<in> fst ` set (bound_on e w)"
    then obtain b' where b': "b' \<in> set (bound w)" "fst (snd b') = e" "fst b' = fst b" by (auto simp: bound_on_def)
    then have "b' = b" using d that(1) by (meson eq_key_imp_eq_value distinct_map inj_onD)
    then have "(e, snd (snd b)) \<in> set (pend w)"
      using that b' pend_bound [of e "snd (snd b)" w] by (metis prod.collapse)
    then show False using assms by (auto simp: car_state_def)
  qed
  have "pend ?w = pend w"
    using keep by (auto simp: pend_def fr(6) intro!: arg_cong [where f = "map snd"] filter_cong)
  then show "car_state e p g ind a sl ps tc ?w"
    using assms d unfolding car_state_def own_def fr by (auto simp: distinct_map_filter)
  show "dm ?w = dm w" by (rule fr(1))
qed

lemma pause_state:
  assumes "car_state e p g ind a sl ps tc w" "\<forall>(x, h) \<in> set ps. x \<noteq> e"
  shows "car_state e p g ind a sl ps tc (pause ev e w)" and "dm (pause ev e w) = dm w"
proof -
  let ?w = "if \<not> ev then upd_car e (\<lambda>c. c\<lparr>car_isPaused := True\<rparr>) w else w"
  have s: "car_state e p g ind a sl ps tc ?w"
    by (rule car_state_cong [OF assms(1)]) (use assms(1) in \<open>auto simp: car_state_def car_sig_def\<close>)
  let ?v = "if jq_find is_next_prev e (dm ?w) \<noteq> [] \<and> has_transition ?w
            then cycle True e (triggerTransitionEnd slide_end e ?w) else ?w"
  have v: "car_state e p g ind a sl ps tc ?v" "dm ?v = dm w"
    using own_end_state [OF s assms(2)] s by (auto intro: cycle_state simp: cycle_frame)
  have eq: "pause ev e w = (case insts ?v e of None \<Rightarrow> ?v
      | Some c \<Rightarrow> upd_car e (\<lambda>c. c\<lparr>car_interval := None\<rparr>) (clearInterval (car_interval c) ?v))"
    by (simp only: pause_def Let_def)
  obtain c where c: "insts ?v e = Some c" using v(1) by (auto simp: car_state_def)
  show "dm (pause ev e w) = dm w" using v(2) c by (simp add: eq del: if_split)
  show "car_state e p g ind a sl ps tc (pause ev e w)"
    unfolding eq c option.case
    by (rule car_state_cong [OF v(1)]) (use v(1) c in \<open>auto simp: car_state_def car_sig_def simp del: if_split\<close>)
qed

lemma indicator_frame [simp]: "dtree (setActiveIndicatorElement ind x d) = dtree d" "env (setActiveIndicatorElement ind x d) = env d"
  by (simp_all add: setActiveIndicatorElement_def Let_def split: option.split)

lemma indicator_class: "c \<noteq> ''active'' \<Longrightarrow> hasClass y c (setActiveIndicatorElement ind x d) = hasClass y c d"
  by (simp add: setActiveIndicatorElement_def Let_def split: option.split)

lemma indicator_items:
  assumes "car_page e p ind d" "y \<in> set (node_order (dtree d))" "hasClass y ''carousel-item'' d"
  shows "hasClass y c (setActiveIndicatorElement ind x d) = hasClass y c d"
proof (cases ind)
  case (Some i)
  have "\<not> is_desc (dtree d) i y" "parent_of (dtree d) y \<noteq> Some i" using assms Some by (auto simp: car_page_def)
  then show ?thesis using Some
    by (auto simp: setActiveIndicatorElement_def Let_def set_jq_find set_jq_children dest!: at_Some_in split: option.split)
qed (simp add: setActiveIndicatorElement_def)

lemma state_active:
  assumes "car_state e p g ind a sl ps tc w"
  shows "is_item_of p a (dm w)" "hasClass a ''active'' (dm w)" "a \<noteq> e"
    and "is_item_of p x (dm w) \<Longrightarrow> hasClass x ''active'' (dm w) \<Longrightarrow> x = a"
proof -
  have j: "jq_find is_active_item e (dm w) = [a]" and pg: "car_page e p ind (dm w)"
    using assms by (auto simp: car_state_def)
  then have "a \<in> set (jq_find is_active_item e (dm w))" by simp
  then show "is_item_of p a (dm w)" "hasClass a ''active'' (dm w)" "a \<noteq> e"
    using pg by (auto simp: set_jq_find is_active_item_def is_item_of_def car_page_def)
  show "is_item_of p x (dm w) \<Longrightarrow> hasClass x ''active'' (dm w) \<Longrightarrow> x = a"
    using j pg set_jq_find [of x is_active_item e "dm w"]
    by (auto simp: is_active_item_def is_item_of_def car_page_def)
qed

lemma car_state_dm:
  assumes st: "car_state e p g ind a sl ps tc w"
    and tree: "dtree (dm w') = dtree (dm w)"
    and item: "\<And>x. hasClass x ''carousel-item'' (dm w') = hasClass x ''carousel-item'' (dm w)"
    and act: "is_item_of p a' (dm w)"
      "\<And>x. is_item_of p x (dm w) \<Longrightarrow> hasClass x ''active'' (dm w') \<longleftrightarrow> x = a'"
    and tr: "\<And>x c. transitional c \<Longrightarrow> hasClass x c (dm w') \<Longrightarrow> (x, c) \<in> set tc'"
    and fr: "bound w' = bound w" "next_id w' = next_id w" "map_option car_sig (insts w' e) = Some (g, ind, sl')"
      "own e w \<Longrightarrow> own e w'"
  shows "car_state e p g ind a' sl' ps tc' w'"
proof -
  have pg: "car_page e p ind (dm w')" using st unfolding car_state_def car_page_def tree item by blast
  have "jq_find is_active_item e (dm w') = [a']"
    unfolding jq_find_def
    using pg act item tree by (intro filter_only) (auto simp: car_page_def is_active_item_def is_item_of_def)
  then show ?thesis using st pg tr fr by (simp add: car_state_def pend_def)
qed

lemma car_state_unbind:
  "car_state e p g ind a sl ps tc w \<Longrightarrow> pend (unbind i w) = ps' \<Longrightarrow> car_state e p g ind a sl ps' tc (unbind i w)"
  by (auto simp: car_state_def distinct_map_filter)

lemma transitional_cases: "transitional (directionalClassName dir)" "transitional (orderClassName dir)"
  "directionalClassName dir \<noteq> ''active''" "orderClassName dir \<noteq> ''active''"
  "directionalClassName dir \<noteq> ''carousel-item''" "orderClassName dir \<noteq> ''carousel-item''"
  "''active'' \<noteq> directionalClassName dir" "''active'' \<noteq> orderClassName dir"
  "''carousel-item'' \<noteq> directionalClassName dir" "''carousel-item'' \<noteq> orderClassName dir"
  "\<not> transitional ''active''" "\<not> transitional ''carousel-item''"
  by (auto simp: transitional_def directionalClassName_def orderClassName_def)

lemma slide_end_simps:
  "dm (slide_end (SlideEnd e g a n od dr) w) = removeClass dr a (removeClass od a (removeClass ''active'' a
     (addClass ''active'' n (removeClass od n (removeClass dr n (dm w))))))"
  "bound (slide_end (SlideEnd e g a n od dr) w) = bound w" "next_id (slide_end (SlideEnd e g a n od dr) w) = next_id w"
  "car_live e g w \<Longrightarrow> insts (slide_end (SlideEnd e g a n od dr) w) e = map_option (\<lambda>c. c\<lparr>car_isSliding := False\<rparr>) (insts w e)"
  by (auto simp: Let_def car_live_def)

lemma own_slide_end [simp]: "own e (slide_end (SlideEnd e g a n od dr) w) = own e w"
  by (auto simp: Let_def own_def)

lemma slide_end_state:
  assumes "car_sliding e p g ind a n dir w" "(i, x, Callback cb) \<in> set (bound w)"
  shows "car_state e p g ind n False [] [] (slide_end cb (unbind i w))"
    and "bound (slide_end cb (unbind i w)) = bound (unbind i w)"
proof -
  have st: "car_state e p g ind a True [(a, Callback (SlideEnd e g a n (orderClassName dir) (directionalClassName dir)))]
      (slide_classes a n dir) w" and n: "is_item_of p n (dm w)" "n \<noteq> a"
    using assms(1) by (simp_all add: car_sliding_def)
  have d: "distinct (map fst (bound w))" and live: "car_live e g w" and pw: "pend w = [(a, Callback (SlideEnd e g a n (orderClassName dir) (directionalClassName dir)))]"
    using st by (auto simp: car_state_def car_live_def car_sig_def)
  have cb: "cb = SlideEnd e g a n (orderClassName dir) (directionalClassName dir)" and pu: "pend (unbind i w) = []"
    using pend_unbind_only [OF d assms(2) pw] by auto
  have su: "car_state e p g ind a True [] (slide_classes a n dir) (unbind i w)" by (rule car_state_unbind [OF st pu])
  have lv: "car_live e g (unbind i w)" using live by (simp add: car_live_def)
  show "bound (slide_end cb (unbind i w)) = bound (unbind i w)" by (simp add: cb slide_end_simps del: slide_end.simps)
  show "car_state e p g ind n False [] [] (slide_end cb (unbind i w))"
  proof (rule car_state_dm [OF su])
    fix y c assume "transitional c" "hasClass y c (dm (slide_end cb (unbind i w)))"
    then show "(y, c) \<in> set []"
      using st by (auto simp: cb slide_end_simps car_state_def slide_classes_def transitional_cases simp del: slide_end.simps)
  next
    fix y assume "is_item_of p y (dm (unbind i w))"
    then show "hasClass y ''active'' (dm (slide_end cb (unbind i w))) = (y = n)"
      using state_active(4) [OF st, of y] n by (auto simp: cb slide_end_simps transitional_cases simp del: slide_end.simps)
  next
    show "map_option car_sig (insts (slide_end cb (unbind i w)) e) = Some (g, ind, False)"
      using st lv by (auto simp: cb slide_end_simps car_state_def car_sig_def simp del: slide_end.simps)
  qed (use n in \<open>simp_all add: cb slide_end_simps transitional_cases del: slide_end.simps\<close>)
qed

lemma car_inv_cong:
  assumes "car_inv e p g ind w" "dtree (dm w') = dtree (dm w)" "class_of (dm w') = class_of (dm w)"
    and "bound w' = bound w" "next_id w \<le> next_id w'"
    and "map_option car_sig (insts w' e) = map_option car_sig (insts w e)" "own e w \<Longrightarrow> own e w'"
  shows "car_inv e p g ind w'"
proof -
  have st: "car_state e p g ind a sl ps tc w'" if "car_state e p g ind a sl ps tc w" for a sl ps tc
    by (rule car_state_cong [OF that assms(2-5) _ assms(7)]) (use that assms(6) in \<open>simp_all add: car_state_def\<close>)
  from assms(1) show ?thesis
    unfolding car_inv_def car_sliding_def same_classes [OF assms(2,3)] using st by blast
qed

lemma car_inv_map:
  assumes "car_inv e p g ind w"
    and st: "\<And>a sl ps tc. car_state e p g ind a sl ps tc w \<Longrightarrow> car_state e p g ind a sl ps tc w'"
    and "\<And>x. is_item_of p x (dm w) \<Longrightarrow> is_item_of p x (dm w')"
  shows "car_inv e p g ind w'"
proof -
  consider a where "car_state e p g ind a False [] [] w" | a n dir where "car_sliding e p g ind a n dir w"
    using assms by (auto simp: car_inv_def)
  then show ?thesis
  proof cases
    case 1
    then show ?thesis unfolding car_inv_def by (blast intro: st)
  next
    case 2
    then have "car_sliding e p g ind a n dir w'" using assms(3) st unfolding car_sliding_def by blast
    then show ?thesis unfolding car_inv_def by blast
  qed
qed

lemma car_inv_unsliding:
  "car_inv e p g ind w \<Longrightarrow> insts w e = Some c \<Longrightarrow> \<not> car_isSliding c \<Longrightarrow>
     \<exists>a. car_state e p g ind a False [] [] w \<and> car_gen c = g \<and> car_indicators c = ind"
  by (auto simp: car_inv_def car_sliding_def car_state_def car_sig_def)

lemma car_inv_pend: "car_inv e p g ind w \<Longrightarrow>
    \<exists>a sl ps tc. car_state e p g ind a sl ps tc w \<and> (\<forall>(x, h) \<in> set ps. x \<noteq> e)"
  unfolding car_inv_def car_sliding_def by (fastforce dest: state_active(3))

lemma car_inv_fire: "car_inv e p g ind w \<Longrightarrow> car_inv e p g ind (on_dom (fire n r x) w)"
  by (erule car_inv_cong) simp_all

lemma car_inv_upd:
  "car_inv e p g ind w \<Longrightarrow> (\<And>c. car_sig (f c) = car_sig c) \<Longrightarrow> car_inv e p g ind (upd_car e f w)"
  by (erule car_inv_cong) (auto simp: option.map_comp comp_def intro: option.map_cong)

lemma car_inv_cycle: "car_inv e p g ind w \<Longrightarrow> car_inv e p g ind (cycle ev e w)"
  by (erule car_inv_cong) (simp_all add: cycle_frame)

lemma car_inv_pause:
  assumes "car_inv e p g ind w"
  shows "car_inv e p g ind (pause ev e w)"
proof -
  consider a where "car_state e p g ind a False [] [] w" | a n dir where "car_sliding e p g ind a n dir w"
    using assms by (auto simp: car_inv_def)
  then show ?thesis
  proof cases
    case 1
    then show ?thesis using pause_state(1) [OF 1] by (auto simp: car_inv_def)
  next
    case 2
    then have st: "car_state e p g ind a True
        [(a, Callback (SlideEnd e g a n (orderClassName dir) (directionalClassName dir)))] (slide_classes a n dir) w"
      by (simp add: car_sliding_def)
    have "car_sliding e p g ind a n dir (pause ev e w)"
      using 2 pause_state [OF st, of ev] state_active(3) [OF st] by (simp add: car_sliding_def)
    then show ?thesis by (auto simp: car_inv_def)
  qed
qed

lemma items_of_active:
  assumes "car_state e p g ind a sl ps tc w"
  shows "n \<in> set (items_around (Some a) (dm w)) \<longleftrightarrow> is_item_of p n (dm w)"
  using state_active(1) [OF assms] assms
  by (auto simp: items_around_def is_item_of_def set_jq_find is_item_def car_state_def car_page_def)

lemma trigger_slid_inv:
  assumes "car_inv e p g ind w" and k: "\<And>i w. car_inv e p g ind w \<Longrightarrow> car_inv e p g ind (k e i w)"
  shows "car_inv e p g ind (trigger_slid k e n w)"
proof -
  have f: "car_inv e p g ind (fold (\<lambda>i w. k e i (upd_car e (\<lambda>c. c\<lparr>car_on_slid := remove1 i (car_on_slid c)\<rparr>) w)) xs w)"
    if "car_inv e p g ind w" for xs w
    using that by (intro fold_keeps [where P = "car_inv e p g ind"] k car_inv_upd) (auto simp: car_sig_def)
  show ?thesis using f [OF car_inv_fire [OF assms(1)]]
    by (simp add: trigger_slid_def Let_def car_inv_fire [OF assms(1)] split: option.split)
qed

text \<open>Starting a transition, and the slide without one.\<close>

lemma slide_start:
  assumes st: "car_state e p g ind a True [] [] w" and n: "is_item_of p n (dm w)" "n \<noteq> a"
  shows "car_sliding e p g ind a n dir
    (await_end a (SlideEnd e g a n (orderClassName dir) (directionalClassName dir))
      (on_dom (addClass (directionalClassName dir) n \<circ> addClass (directionalClassName dir) a \<circ> addClass (orderClassName dir) n) w))"
    (is "car_sliding _ _ _ _ _ _ _ (await_end a ?cb ?w)")
proof -
  have s: "car_state e p g ind a True [] (slide_classes a n dir) ?w"
  proof (rule car_state_dm [OF st])
    fix x c assume "transitional c" "hasClass x c (dm ?w)"
    then show "(x, c) \<in> set (slide_classes a n dir)" using st by (auto simp: car_state_def slide_classes_def)
  next
    fix x assume "is_item_of p x (dm w)"
    then show "hasClass x ''active'' (dm ?w) = (x = a)"
      using state_active(2,4) [OF st] by (auto simp: transitional_cases)
  qed (use st state_active(1) [OF st] in \<open>simp_all add: car_state_def transitional_cases\<close>)
  have "pend (await_end a ?cb ?w) = [(a, Callback ?cb)]" using st by (simp add: pend_def car_state_def)
  moreover have "distinct (map fst (bound (await_end a ?cb ?w)))" using s by (auto simp: car_state_def)
  ultimately have "car_state e p g ind a True [(a, Callback ?cb)] (slide_classes a n dir) (await_end a ?cb ?w)"
    using s by (auto simp: car_state_def)
  then show ?thesis using n by (simp add: car_sliding_def is_item_of_def transitional_cases)
qed

lemma slide_at_once:
  assumes st: "car_state e p g ind a True [] [] w" and n: "is_item_of p n (dm w)" "n \<noteq> a"
  shows "car_state e p g ind n False [] []
    (upd_car e (\<lambda>c. c\<lparr>car_isSliding := False\<rparr>) (on_dom (addClass ''active'' n \<circ> removeClass ''active'' a) w))" (is "car_state _ _ _ _ _ _ _ _ ?w")
proof (rule car_state_dm [OF st])
  fix x c assume "transitional c" "hasClass x c (dm ?w)"
  then show "(x, c) \<in> set []" using st by (auto simp: car_state_def transitional_cases)
next
  fix x assume "is_item_of p x (dm w)"
  then show "hasClass x ''active'' (dm ?w) = (x = n)" using state_active(4) [OF st] n by auto
qed (use n st in \<open>auto simp: car_state_def car_sig_def\<close>)

lemma indicator_state:
  assumes st: "car_state e p g ind a sl ps [] w"
  shows "car_state e p g ind a sl ps [] (on_dom (setActiveIndicatorElement ind x) w)" (is "car_state _ _ _ _ _ _ _ _ ?w")
proof (rule car_state_dm [OF st])
  have pg: "car_page e p ind (dm w)" using st by (simp add: car_state_def)
  fix y assume y: "is_item_of p y (dm w)"
  then have "hasClass y ''active'' (dm ?w) = hasClass y ''active'' (dm w)"
    using indicator_items [OF pg] by (simp add: is_item_of_def)
  then show "hasClass y ''active'' (dm ?w) = (y = a)" using state_active(2,4) [OF st] y by auto
next
  fix y c assume "transitional c" "hasClass y c (dm ?w)"
  then show "(y, c) \<in> set []" using st indicator_class by (auto simp: car_state_def transitional_def)
qed (use st state_active(1) [OF st] in \<open>simp_all add: car_state_def indicator_class\<close>)

lemma slide_go_inv:
  assumes st: "car_state e p g ind a False [] [] w" and c: "car_gen c = g" "car_indicators c = ind"
    and n: "is_item_of p n (dm w)" "n \<noteq> a"
    and k: "\<And>i w. car_inv e p g ind w \<Longrightarrow> car_inv e p g ind (k e i w)"
  shows "car_inv e p g ind (slide_go k e c dir a n w)"
proof -
  let ?cyc = "car_interval c \<noteq> None"
  define w1 where "w1 = upd_car e (\<lambda>c. c\<lparr>car_isSliding := True\<rparr>) w"
  define w2 where "w2 = (if ?cyc then pause False e w1 else w1)"
  define w3 where "w3 = on_dom (setActiveIndicatorElement ind n) w2"
  define w4 where "w4 = (if ind \<noteq> None then snd (getItemIndex e (Some n) w3) else w3)"
  have 1: "car_state e p g ind a True [] [] w1"
    unfolding w1_def by (rule car_state_cong [OF st]) (use st in \<open>auto simp: car_state_def car_sig_def\<close>)
  have 2: "car_state e p g ind a True [] [] w2" "dm w2 = dm w"
    using 1 pause_state [OF 1] by (auto simp: w2_def w1_def)
  have 3: "car_state e p g ind a True [] [] w3" unfolding w3_def by (rule indicator_state [OF 2(1)])
  have 4: "car_state e p g ind a True [] [] w4"
    unfolding w4_def by (rule car_state_cong [OF 3])
      (use 3 in \<open>auto simp: car_state_def car_sig_def getItemIndex_def split: option.splits\<close>)
  have n4: "is_item_of p n (dm w4)"
    using n(1) 2(2) by (auto simp: w4_def w3_def getItemIndex_def is_item_of_def indicator_class)
  let ?w = "if has_transition w4 \<and> hasClass e ''slide'' (dm w4)
    then await_end a (SlideEnd e (car_gen c) a n (orderClassName dir) (directionalClassName dir))
           (on_dom (addClass (directionalClassName dir) n \<circ> addClass (directionalClassName dir) a \<circ> addClass (orderClassName dir) n) w4)
    else trigger_slid k e n (upd_car e (\<lambda>c. c\<lparr>car_isSliding := False\<rparr>)
           (on_dom (addClass ''active'' n \<circ> removeClass ''active'' a) w4))"
  have "car_inv e p g ind (trigger_slid k e n (upd_car e (\<lambda>c. c\<lparr>car_isSliding := False\<rparr>)
           (on_dom (addClass ''active'' n \<circ> removeClass ''active'' a) w4)))"
    using slide_at_once [OF 4 n4 n(2)] k by (intro trigger_slid_inv) (auto simp: car_inv_def)
  then have "car_inv e p g ind ?w"
    using slide_start [OF 4 n4 n(2), of dir] c(1) by (auto simp: car_inv_def)
  then have "car_inv e p g ind (if ?cyc then cycle False e ?w else ?w)"
    by (simp add: car_inv_cycle del: if_split split: if_split)
  then show ?thesis by (simp only: slide_go_def Let_def w1_def w2_def w3_def w4_def c(2))
qed

lemma getItemByDirection_items:
  "getItemByDirection wrap dir a d = Some n \<Longrightarrow> n = a \<or> n \<in> set (items_around (Some a) d)"
  by (auto simp: getItemByDirection_def Let_def dest: at_Some_in split: if_splits)

lemma active_item_state: "car_state e p g ind a sl ps tc w \<Longrightarrow> active_item e (dm w) = Some a"
  by (simp add: active_item_def car_state_def)

lemma getItemIndex_frame [simp]:
  "dm (snd (getItemIndex e x w)) = dm w" "bound (snd (getItemIndex e x w)) = bound w"
  "next_id (snd (getItemIndex e x w)) = next_id w"
  "map_option car_sig (insts (snd (getItemIndex e x w)) e) = map_option car_sig (insts w e)"
  "insts w e \<noteq> None \<Longrightarrow> insts (snd (getItemIndex e x w)) e \<noteq> None"
  by (auto simp: getItemIndex_def car_sig_def option.map_comp comp_def intro: option.map_cong)

lemma slide_with_inv:
  assumes inv: "car_inv e p g ind w" "\<not> is_sliding e w"
    and el: "\<And>x. element = Some x \<Longrightarrow> is_item_of p x (dm w)"
    and k: "\<And>i w. car_inv e p g ind w \<Longrightarrow> car_inv e p g ind (k e i w)"
  shows "car_inv e p g ind (slide_with k e dir element w)"
proof (cases "insts w e")
  case (Some c)
  obtain a where st: "car_state e p g ind a False [] [] w" and c: "car_gen c = g" "car_indicators c = ind"
    using car_inv_unsliding [OF inv(1) Some] inv(2) Some by (auto simp: is_sliding_def)
  define nxt where "nxt = (case element of Some x \<Rightarrow> Some x
    | None \<Rightarrow> getItemByDirection (truthy (get (car_config c) ''wrap'')) dir a (dm w))"
  have item: "is_item_of p n (dm w)" if "nxt = Some n" for n
    using that el getItemByDirection_items [of _ dir a "dm w" n] items_of_active [OF st] state_active(1) [OF st]
    by (auto simp: nxt_def split: option.splits)
  define w1 where "w1 = snd (getItemIndex e nxt w)"
  define w2 where "w2 = snd (getItemIndex e (active_item e (dm w1)) w1)"
  define w3 where "w3 = w2\<lparr>dm := fire SLIDE nxt e (dm w2)\<rparr>"
  have 1: "car_state e p g ind a False [] [] w1"
    unfolding w1_def by (rule car_state_cong [OF st]) (use st in \<open>simp_all add: car_state_def\<close>)
  have 2: "car_state e p g ind a False [] [] w2"
    unfolding w2_def by (rule car_state_cong [OF 1]) (use 1 in \<open>simp_all add: car_state_def\<close>)
  have 3: "car_state e p g ind a False [] [] w3"
    unfolding w3_def by (rule car_state_cong [OF 2]) (use 2 in \<open>simp_all add: car_state_def\<close>)
  have stop: "car_inv e p g ind (upd_car e (\<lambda>c. c\<lparr>car_isSliding := False\<rparr>) w1)"
  proof -
    have "car_state e p g ind a False [] [] (upd_car e (\<lambda>c. c\<lparr>car_isSliding := False\<rparr>) w1)"
      by (rule car_state_cong [OF 1]) (use 1 in \<open>auto simp: car_state_def car_sig_def\<close>)
    then show ?thesis by (auto simp: car_inv_def)
  qed
  have go: "car_inv e p g ind (slide_go k e c dir a n w3)" if "nxt = Some n" "\<not> hasClass n ''active'' (dm w1)" for n
  proof (rule slide_go_inv [OF 3 c])
    show "\<And>i w. car_inv e p g ind w \<Longrightarrow> car_inv e p g ind (k e i w)" by (rule k)
    show "is_item_of p n (dm w3)" using item [OF that(1)] by (simp add: w3_def w2_def w1_def is_item_of_def)
    show "n \<noteq> a" using that(2) state_active(2) [OF 1] by auto
  qed
  have "slide_with k e dir element w =
      (if (case nxt of None \<Rightarrow> False | Some n \<Rightarrow> hasClass n ''active'' (dm w1))
       then upd_car e (\<lambda>c. c\<lparr>car_isSliding := False\<rparr>) w1
       else if vetoes (env (dm w2)) (event_log (dm w2) @ [Event SLIDE e nxt]) then w3
       else case nxt of Some n \<Rightarrow> slide_go k e c dir a n w3 | None \<Rightarrow> w3)"
    unfolding slide_with_def Some option.case active_item_state [OF st] Let_def nxt_def [symmetric] w1_def [symmetric]
      w2_def [symmetric] trigger_fire prod.case w3_def
    by (simp split: option.split)
  then show ?thesis using stop go 3 by (auto simp: car_inv_def split: option.split)
qed (use inv in \<open>simp add: slide_with_def\<close>)

lemma to_with_inv:
  assumes inv: "car_inv e p g ind w"
    and k: "\<And>i w. car_inv e p g ind w \<Longrightarrow> car_inv e p g ind (k e i w)"
  shows "car_inv e p g ind (to_with k e index w)"
proof (cases "insts w e")
  case (Some c)
  let ?active = "active_item e (dm w)"
  define w1 where "w1 = snd (getItemIndex e ?active (upd_car e (\<lambda>c. c\<lparr>car_activeElement := ?active\<rparr>) w))"
  let ?items = "items_around ?active (dm w)"
  have w1: "car_inv e p g ind w1"
    unfolding w1_def by (rule car_inv_cong [OF inv])
      (auto simp: getItemIndex_def car_sig_def option.map_comp comp_def intro: option.map_cong)
  have dm: "dm w1 = dm w" and sl: "is_sliding e w1 = car_isSliding c"
    using Some by (simp_all add: w1_def is_sliding_def getItemIndex_def)
  have later: "car_inv e p g ind (upd_car e (\<lambda>c. c\<lparr>car_on_slid := car_on_slid c @ [index]\<rparr>) w1)"
    using w1 by (rule car_inv_upd) (simp add: car_sig_def)
  have item: "is_item_of p x (dm w1)" if "idx_elem ?items index = Some x" for x
  proof -
    obtain a sl ps tc where st: "car_state e p g ind a sl ps tc w" using car_inv_pend [OF inv] by blast
    have "x \<in> set ?items" using that by (cases index) (auto dest: at_Some_in split: if_splits)
    then show ?thesis using items_of_active [OF st] active_item_state [OF st] by (simp add: dm)
  qed
  have "to_with k e index w =
    (if idx_outside ?items index then w1
     else if car_isSliding c then upd_car e (\<lambda>c. c\<lparr>car_on_slid := car_on_slid c @ [index]\<rparr>) w1
     else if index = IdxNum (item_index ?active (dm w)) then cycle False e (pause False e w1)
     else slide_with k e
            (case idx_num index of None \<Rightarrow> PREV | Some n \<Rightarrow> if n > item_index ?active (dm w) then NEXT else PREV)
            (idx_elem ?items index) w1)"
    by (simp add: to_with_def Some Let_def w1_def getItemIndex_def split: option.split)
  moreover have "car_inv e p g ind (slide_with k e dir (idx_elem ?items index) w1)" if "\<not> car_isSliding c" for dir
    using w1 sl that item k by (intro slide_with_inv) auto
  ultimately show ?thesis using w1 later by (simp add: car_inv_cycle car_inv_pause)
qed (use inv in \<open>simp add: to_with_def\<close>)

lemma to_depth_inv: "car_inv e p g ind w \<Longrightarrow> car_inv e p g ind (to_depth n e i w)"
  by (induction n arbitrary: i w) (simp_all add: to_with_inv)

lemma next_prev_inv:
  assumes "car_inv e p g ind w"
  shows "car_inv e p g ind (carousel_next e w)" "car_inv e p g ind (carousel_prev e w)"
    "car_inv e p g ind (nextWhenVisible e w)" "car_inv e p g ind (carousel_to e i w)"
proof -
  have "car_inv e p g ind (slide e dir w)" if "\<not> is_sliding e w" for dir
    unfolding slide_def by (rule slide_with_inv [OF assms that]) (auto intro: to_depth_inv)
  then show "car_inv e p g ind (carousel_next e w)" "car_inv e p g ind (carousel_prev e w)"
    "car_inv e p g ind (nextWhenVisible e w)"
    using assms by (simp_all add: carousel_next_def carousel_prev_def nextWhenVisible_def)
  show "car_inv e p g ind (carousel_to e i w)" unfolding carousel_to_def by (rule to_depth_inv [OF assms])
qed

lemma car_sliding_mark:
  assumes "(i, x, MarkCalled n) \<in> set (bound w)" "car_inv e p g ind w"
  shows "car_inv e p g ind ((unbind i w)\<lparr>called := f\<rparr>)"
proof -
  have st: "car_state e p g ind a sl ps tc ((unbind i w)\<lparr>called := f\<rparr>)" if s: "car_state e p g ind a sl ps tc w" for a sl ps tc
  proof -
    have "car_state e p g ind a sl ps tc (unbind i w)"
      using s assms(1) by (intro car_state_unbind [OF s]) (auto simp: car_state_def pend_unbind_mark)
    then show ?thesis by (rule car_state_cong) (use s in \<open>auto simp: car_state_def\<close>)
  qed
  have "dm ((unbind i w)\<lparr>called := f\<rparr>) = dm w" by simp
  then show ?thesis using st by (intro car_inv_map [OF assms(2)]) simp_all
qed

lemma car_inv_callback:
  assumes "car_inv e p g ind w" "(i, x, Callback cb) \<in> set (bound w)"
  shows "car_inv e p g ind (slide_end cb (unbind i w))" "bound (slide_end cb (unbind i w)) = bound (unbind i w)"
    and "carousel_run cb = slide_end cb"
proof -
  have "pend w \<noteq> []" using assms(2) pend_bound [of x "Callback cb" w] by auto
  then obtain a n dir where s: "car_sliding e p g ind a n dir w"
    using assms(1) by (auto simp: car_inv_def car_state_def)
  show "car_inv e p g ind (slide_end cb (unbind i w))" "bound (slide_end cb (unbind i w)) = bound (unbind i w)"
    using slide_end_state [OF s assms(2)] by (auto simp: car_inv_def)
  have "cb = SlideEnd e g a n (orderClassName dir) (directionalClassName dir)"
    using s assms(2) pend_unbind_only(1) [of w i x cb] by (auto simp: car_sliding_def car_state_def)
  then show "carousel_run cb = slide_end cb" by (auto simp: fun_eq_iff)
qed

interpretation car: handler_invariant carousel_run "car_inv e p g ind" for e p g ind
proof
  fix w :: carousel_world assume inv: "car_inv e p g ind w"
  then show "distinct (map fst (bound w))" using car_inv_pend by (fastforce simp: car_state_def)
  show "car_inv e p g ind (w\<lparr>timers := ts\<rparr>)" for ts by (rule car_inv_cong [OF inv]) simp_all
  fix i x
  show "(i, x, Callback cb) \<in> set (bound w) \<Longrightarrow> car_inv e p g ind (carousel_run cb (unbind i w))" for cb
    using car_inv_callback [OF inv] by simp
  show "(i, x, Callback cb) \<in> set (bound w) \<Longrightarrow>
      set (bound (unbind i w)) \<subseteq> set (bound (carousel_run cb (unbind i w)))" for cb
    using car_inv_callback [OF inv] by simp
  show "(i, x, MarkCalled n) \<in> set (bound w) \<Longrightarrow> car_inv e p g ind ((unbind i w)\<lparr>called := (called w)(n := True)\<rparr>)" for n
    using car_sliding_mark inv by blast
qed

lemma own_run_inv: "car_inv e p g ind w \<Longrightarrow> own_cb e cb \<Longrightarrow> car_inv e p g ind (carousel_run cb w)"
  by (cases cb) (auto simp: next_prev_inv car_inv_cycle intro!: trigger_slid_inv to_depth_inv)

lemma carousel_tick_inv:
  assumes inv: "car_inv e p g ind w"
  shows "car_inv e p g ind (tick_step carousel_run t w)"
proof (cases t)
  case (Later k)
  have own: "own e w" using car_inv_pend [OF inv] by (auto simp: car_state_def)
  have "car_inv e p g ind (w\<lparr>later := take k (later w) @ drop (Suc k) (later w)\<rparr>)"
    by (rule car_inv_cong [OF inv]) (auto simp: own_def dest: in_set_takeD in_set_dropD)
  then show ?thesis using inv own own_run_inv [of e p g ind _ "later w ! k"] by (auto simp: Later own_def)
next
  case (Interval n)
  have own: "own e w" using car_inv_pend [OF inv] by (auto simp: car_state_def)
  show ?thesis using inv own own_run_inv [OF inv]
    by (auto simp: Interval own_def dest!: map_of_SomeD split: option.split)
qed (use inv in \<open>auto intro: car.end_inv car.timer_inv\<close>)

text \<open>What can happen to a carousel that is not disposed: its public methods, its events, the environment's moves.\<close>

datatype carousel_move =
    CNext | CPrev | CNextWhenVisible | CPause | CCycle | CTo slide_index
  | CKey string nat | CMouseEnter | CMouseLeave | CTouchEnd | CTick tick

fun carousel_step :: "elem \<Rightarrow> carousel_move \<Rightarrow> carousel_world \<Rightarrow> carousel_world" where
  "carousel_step e CNext w = carousel_next e w"
| "carousel_step e CPrev w = carousel_prev e w"
| "carousel_step e CNextWhenVisible w = nextWhenVisible e w"
| "carousel_step e CPause w = pause False e w"
| "carousel_step e CCycle w = cycle False e w"
| "carousel_step e (CTo i) w = carousel_to e i w"
| "carousel_step e (CKey tag which) w = carousel_keydown e tag which w"
| "carousel_step e CMouseEnter w = carousel_mouseenter e w"
| "carousel_step e CMouseLeave w = carousel_mouseleave e w"
| "carousel_step e CTouchEnd w = carousel_touchend e w"
| "carousel_step e (CTick t) w = tick_step carousel_run t w"

lemma touchend_inv:
  assumes "car_inv e p g ind w"
  shows "car_inv e p g ind (carousel_touchend e w)"
proof -
  have sub: "car_inv e p g ind (setTimeout (TouchCycle e h) (upd_car e (\<lambda>c. c\<lparr>car_touchTimeout := True\<rparr>) (v\<lparr>later := filter P (later v)\<rparr>)))"
    "car_inv e p g ind (setTimeout (TouchCycle e h) (upd_car e (\<lambda>c. c\<lparr>car_touchTimeout := True\<rparr>) v))"
    if "car_inv e p g ind v" for h v P
    by (rule car_inv_cong [OF that]; auto simp: own_def car_sig_def option.map_comp comp_def intro: option.map_cong)+
  show ?thesis using assms sub [OF car_inv_pause [OF assms, of False]]
    by (auto simp: carousel_touchend_def Let_def split: option.split)
qed

lemma carousel_step_inv: "car_inv e p g ind w \<Longrightarrow> car_inv e p g ind (carousel_step e m w)"
  by (cases m)
     (auto simp: next_prev_inv car_inv_pause car_inv_cycle carousel_keydown_def carousel_mouseenter_def
        carousel_mouseleave_def touchend_inv carousel_tick_inv split: option.split)

lemma carousel_steps_inv: "car_inv e p g ind w \<Longrightarrow> car_inv e p g ind (fold (carousel_step e) ms w)"
  by (rule fold_keeps [where P = "car_inv e p g ind"]) (rule carousel_step_inv)

text \<open>
  C4: from a carousel at rest with one active item, after any sequence of calls, key, mouse and touch
  events, transition ends, timers, intervals and deferred callbacks, exactly one item below the carousel
  is active; and while no slide is in progress no element carries one of the four transitional classes
  and no slide is waiting for its end.
\<close>

theorem carousel_one_active:
  fixes ms :: "carousel_move list"
  assumes "car_state e p g ind a False [] [] w"
  defines "w' \<equiv> fold (carousel_step e) ms w"
  shows "(\<exists>b. jq_find is_active_item e (dm w') = [b])
    \<and> (\<not> is_sliding e w' \<longrightarrow> pend w' = [] \<and> (\<forall>x c. transitional c \<longrightarrow> \<not> hasClass x c (dm w')))"
proof -
  have "car_inv e p g ind w'" unfolding w'_def using assms(1) by (intro carousel_steps_inv) (auto simp: car_inv_def)
  then show ?thesis by (auto simp: car_inv_def car_sliding_def car_state_def is_sliding_def car_sig_def)
qed

text \<open>
  C17: pausing a carousel in the middle of a slide does not finish the slide: the transition end is
  triggered on the carousel element, while the slide waits on the active item, so the document stays as
  it is and the carousel goes on sliding.
\<close>

theorem pause_leaves_slide:
  assumes "car_sliding e p g ind a n dir w"
  shows "dm (pause ev e w) = dm w \<and> is_sliding e (pause ev e w)"
proof -
  have st: "car_state e p g ind a True
      [(a, Callback (SlideEnd e g a n (orderClassName dir) (directionalClassName dir)))] (slide_classes a n dir) w"
    using assms by (simp add: car_sliding_def)
  show ?thesis using pause_state [OF st, of ev] state_active(3) [OF st] by (auto simp: car_state_def is_sliding_def car_sig_def)
qed

subsection \<open>A carousel of three items\<close>

text \<open>A carousel (2) with indicators (3, children 4 to 6) and items 8 to 10 in the inner element 7.\<close>

definition carousel_page :: dom where
  "carousel_page = page
     [(0, None, ''html'', [], []), (1, Some 0, ''body'', [], []),
      (2, Some 1, ''div'', [''carousel'', ''slide''], []),
      (3, Some 2, ''ol'', [''carousel-indicators''], []),
      (4, Some 3, ''li'', [''active''], []), (5, Some 3, ''li'', [], []), (6, Some 3, ''li'', [], []),
      (7, Some 2, ''div'', [''carousel-inner''], []),
      (8, Some 7, ''div'', [''carousel-item'', ''active''], []), (9, Some 7, ''div'', [''carousel-item''], []),
      (10, Some 7, ''div'', [''carousel-item''], [])]"

definition carousel_demo :: carousel_world where
  "carousel_demo = (case new_carousel 2 (\<lambda>_. None) (new_world carousel_page) of Inl _ \<Rightarrow> new_world carousel_page | Inr w \<Rightarrow> w)"

theorem item_by_direction_witness:
  "getItemByDirection True NEXT 10 carousel_page = Some 8 \<and> getItemByDirection False PREV 8 carousel_page = Some 8"
proof -
  have i: "items_around (Some 10) carousel_page = [8, 9, 10]" "items_around (Some 8) carousel_page = [8, 9, 10]"
    by code_simp+
  show ?thesis
    using item_by_direction [of 10 carousel_page 2 True] item_by_direction [of 8 carousel_page 0 False] by (simp add: i)
qed

lemma carousel_demo_parts:
  "dm carousel_demo = carousel_page" "bound carousel_demo = []" "later carousel_demo = []" "intervals carousel_demo = []"
  "map_option car_sig (insts carousel_demo 2) = Some (0, Some 3, False)"
  by (simp add: carousel_demo_def new_carousel_def split: sum.split) code_simp+

lemma carousel_demo_state: "car_state 2 7 0 (Some 3) 8 False [] [] carousel_demo"
proof -
  have "car_page 2 7 (Some 3) carousel_page" "jq_find is_active_item 2 carousel_page = [8]" by code_simp+
  moreover have "\<not> transitional c" if "hasClass x c carousel_page" for x c
    using that by (auto simp: carousel_page_def transitional_def split: if_splits)
  ultimately show ?thesis by (auto simp: car_state_def carousel_demo_parts own_def pend_def)
qed

theorem carousel_one_active_witness:
  "\<exists>b. jq_find is_active_item 2 (dm (fold (carousel_step 2) [CNext, CTick (Ended 8), CTo (IdxNum 2)] carousel_demo)) = [b]"
  using carousel_one_active [OF carousel_demo_state] by blast

theorem pause_leaves_slide_witness:
  "is_sliding 2 (pause False 2 (carousel_step 2 CNext carousel_demo))"
proof -
  have "car_inv 2 7 0 (Some 3) (carousel_step 2 CNext carousel_demo)"
    using carousel_demo_state by (intro carousel_step_inv) (auto simp: car_inv_def)
  moreover have "is_sliding 2 (carousel_step 2 CNext carousel_demo)" by code_simp
  ultimately obtain a n dir where "car_sliding 2 7 0 (Some 3) a n dir (carousel_step 2 CNext carousel_demo)"
    by (auto simp: car_inv_def car_state_def is_sliding_def car_sig_def)
  then show ?thesis using pause_leaves_slide by blast
qed

end
