(* ===== verification/Bs_Collapse.thy ===== *)
theory Bs_Collapse
  imports Bs_Util
begin

section \<open>Collapse\<close>

text \<open>
  The Collapse component of \<open>bootstrap.js\<close>: a panel is shown, hidden, or between the two while its
  transition runs; showing a panel of an accordion hides the other panels of the same parent. As in the
  other components an instance is a record stored on its element with a number of its own, and the
  pending \<open>complete\<close> functions are callbacks that name the element and the instance.
\<close>

record collapse =
  col_gen :: nat
  col_isTransitioning :: bool
  col_config :: jsobj
  col_triggers :: "elem list"
  col_selector :: "string option"
  col_parent :: "elem option"

datatype collapse_cb =
    ShowComplete elem nat string
  | HideComplete elem nat
  | DisposedComplete

type_synonym collapse_world = "(collapse, collapse_cb) world"

abbreviation SHOW :: string where "SHOW \<equiv> ''show.bs.collapse''"
abbreviation SHOWN :: string where "SHOWN \<equiv> ''shown.bs.collapse''"
abbreviation HIDE :: string where "HIDE \<equiv> ''hide.bs.collapse''"
abbreviation HIDDEN :: string where "HIDDEN \<equiv> ''hidden.bs.collapse''"

definition collapse_Default :: jsobj where
  "collapse_Default = map_of [(''toggle'', JBool True), (''parent'', JStr '''')]"

definition collapse_DefaultType :: "(string \<times> string) list" where
  "collapse_DefaultType = [(''toggle'', ''boolean''), (''parent'', ''(string|element)'')]"

definition is_collapse_toggle :: selector where
  "is_collapse_toggle d x \<longleftrightarrow> attr_of d x ''data-toggle'' = Some ''collapse''"

definition is_shown_or_collapsing :: selector where
  "is_shown_or_collapsing d x \<longleftrightarrow> hasClass x ''show'' d \<or> hasClass x ''collapsing'' d"

definition elem_id :: "dom \<Rightarrow> elem \<Rightarrow> string" where
  "elem_id d e = (case attr_of d e ''id'' of None \<Rightarrow> '''' | Some i \<Rightarrow> i)"

definition upd_col :: "elem \<Rightarrow> (collapse \<Rightarrow> collapse) \<Rightarrow> collapse_world \<Rightarrow> collapse_world" where
  "upd_col e f w = w\<lparr>insts := (insts w)(e := map_option f (insts w e))\<rparr>"

definition setTransitioning :: "bool \<Rightarrow> elem \<Rightarrow> nat \<Rightarrow> collapse_world \<Rightarrow> collapse_world" where
  "setTransitioning b e g w = upd_col e (\<lambda>c. if col_gen c = g then c\<lparr>col_isTransitioning := b\<rparr> else c) w"

definition getDimension :: "elem \<Rightarrow> dom \<Rightarrow> string" where
  "getDimension e d = (if hasClass e ''width'' d then ''width'' else ''height'')"

definition scrollSize :: "string \<Rightarrow> string" where
  "scrollSize dimension = ''scroll'' @ toUpperCase (take 1 dimension) @ drop 1 dimension"

subsection \<open>Completion\<close>

fun collapse_run :: "collapse_cb \<Rightarrow> collapse_world \<Rightarrow> collapse_world" where
  "collapse_run (ShowComplete e g dimension) w =
     on_dom (fire SHOWN None e)
       (setTransitioning False e g
         (on_dom (setStyle dimension '''' e \<circ> addClass ''show'' e \<circ> addClass ''collapse'' e \<circ> removeClass ''collapsing'' e) w))"
| "collapse_run (HideComplete e g) w =
     on_dom (fire HIDDEN None e \<circ> addClass ''collapse'' e \<circ> removeClass ''collapsing'' e) (setTransitioning False e g w)"
| "collapse_run DisposedComplete w = w"

subsection \<open>Hiding\<close>

definition mark_collapsed :: "elem \<Rightarrow> dom \<Rightarrow> dom" where
  "mark_collapsed t d =
     (case getSelectorFromElement t d of
        None \<Rightarrow> d
      | Some sel \<Rightarrow>
          (case select sel d of
             None \<Rightarrow> d
           | Some xs \<Rightarrow>
               if \<not> list_ex (\<lambda>x. hasClass x ''show'' d) xs
               then setAttr ''aria-expanded'' ''false'' t (addClass ''collapsed'' t d) else d))"

definition hide_go :: "elem \<Rightarrow> collapse \<Rightarrow> collapse_world \<Rightarrow> collapse_world" where
  "hide_go e c w =
     (let dimension = getDimension e (dm w);
          w = on_dom (removeClass ''show'' e \<circ> removeClass ''collapse'' e \<circ> addClass ''collapsing'' e
                        \<circ> setStyle dimension (px (layout e dimension (dm w))) e) w;
          w = on_dom (fold mark_collapsed (col_triggers c)) w;
          w = setTransitioning True e (col_gen c) w;
          w = on_dom (setStyle dimension '''' e) w
      in if \<not> has_transition w then collapse_run (HideComplete e (col_gen c)) w
         else await_end e (HideComplete e (col_gen c)) w)"

definition collapse_hide :: "elem \<Rightarrow> collapse_world \<Rightarrow> collapse_world" where
  "collapse_hide e w =
     (case insts w e of
        None \<Rightarrow> w
      | Some c \<Rightarrow>
          if col_isTransitioning c \<or> \<not> hasClass e ''show'' (dm w) then w
          else let (prevented, d) = trigger HIDE None e (dm w);
                   w = w\<lparr>dm := d\<rparr>
               in if prevented then w else hide_go e c w)"

subsection \<open>Construction\<close>

definition collapse_getConfig :: "jsobj \<Rightarrow> js_error + jsobj" where
  "collapse_getConfig config =
     (let config = extends collapse_Default config;
          config = config(''toggle'' \<mapsto> JBool (truthy (get config ''toggle'')))
      in case typeCheckConfig ''collapse'' config collapse_DefaultType of
           Inl err \<Rightarrow> Inl err
         | Inr _ \<Rightarrow> Inr config)"

definition points_to :: "elem \<Rightarrow> elem \<Rightarrow> dom \<Rightarrow> bool" where
  "points_to t e d =
     (case getSelectorFromElement t d of
        None \<Rightarrow> False
      | Some sel \<Rightarrow> (case select sel d of None \<Rightarrow> False | Some xs \<Rightarrow> e \<in> set xs))"

definition triggers_of :: "elem \<Rightarrow> dom \<Rightarrow> elem list" where
  "triggers_of e d =
     (let h = CHR ''#'' # elem_id d e
      in jq_all (\<lambda>d x. is_collapse_toggle d x \<and> (attr_of d x ''href'' = Some h \<or> attr_of d x ''data-target'' = Some h)) d
         @ filter (\<lambda>t. points_to t e d) (jq_all is_collapse_toggle d))"

definition own_selector :: "elem \<Rightarrow> dom \<Rightarrow> string option" where
  "own_selector e d =
     (case rev (filter (\<lambda>t. points_to t e d) (jq_all is_collapse_toggle d)) of
        [] \<Rightarrow> None
      | t # _ \<Rightarrow> getSelectorFromElement t d)"

definition addAriaAndCollapsedClass :: "elem option \<Rightarrow> elem list \<Rightarrow> dom \<Rightarrow> dom" where
  "addAriaAndCollapsedClass x ts d =
     (case x of
        None \<Rightarrow> d
      | Some e \<Rightarrow>
          (let isOpen = hasClass e ''show'' d
           in fold (setAttr ''aria-expanded'' (bool_str isOpen)) ts (fold (toggleClassTo ''collapsed'' (\<not> isOpen)) ts d)))"

definition parent_elem :: "jsval \<Rightarrow> dom \<Rightarrow> elem option" where
  "parent_elem v d =
     (case v of
        JElem x \<Rightarrow> Some x
      | JQuery (x # _) \<Rightarrow> Some x
      | JStr s \<Rightarrow> (case select s d of None \<Rightarrow> None | Some xs \<Rightarrow> first xs)
      | _ \<Rightarrow> None)"

definition getParent :: "jsval \<Rightarrow> dom \<Rightarrow> elem option \<times> dom" where
  "getParent v d =
     (case parent_elem v d of
        None \<Rightarrow> (None, d)
      | Some p \<Rightarrow>
          (Some p,
           fold (\<lambda>x. (\<lambda>d. addAriaAndCollapsedClass (target_of x d) [x] d))
             (jq_find (\<lambda>d x. is_collapse_toggle d x \<and> attr_of d x ''data-parent'' = Some (js_string v)) p d) d))"

text \<open>The constructor up to the call of \<open>toggle\<close>; the instance is stored on the element.\<close>

definition init_collapse :: "elem \<Rightarrow> jsobj \<Rightarrow> collapse_world \<Rightarrow> js_error + collapse_world" where
  "init_collapse e config w =
     (case collapse_getConfig config of
        Inl err \<Rightarrow> Inl err
      | Inr cfg \<Rightarrow>
          (let d = dm w;
               ts = triggers_of e d;
               hasParent = truthy (get cfg ''parent'');
               (p, d') = (if hasParent then getParent (get cfg ''parent'') d else (None, d));
               d'' = (if \<not> hasParent then addAriaAndCollapsedClass (Some e) ts d' else d')
           in Inr (w\<lparr>dm := d'',
                     insts := (insts w)(e \<mapsto>
                       \<lparr>col_gen = next_id w, col_isTransitioning = False, col_config = cfg, col_triggers = ts,
                        col_selector = own_selector e d, col_parent = p\<rparr>),
                     next_id := Suc (next_id w)\<rparr>)))"

text \<open>
  \<open>_jQueryInterface('hide')\<close> on one element, as \<open>show\<close> calls it on the other panels: a panel without an
  instance gets one, with \<open>toggle\<close> off, and is then hidden.
\<close>

definition interface_hide :: "elem \<Rightarrow> collapse_world \<Rightarrow> js_error + collapse_world" where
  "interface_hide e w =
     (case (if insts w e = None
            then init_collapse e ((extends collapse_Default (data_of (dm w) e))(''toggle'' \<mapsto> JBool False)) w
            else Inr w) of
        Inl err \<Rightarrow> Inl err
      | Inr w \<Rightarrow> Inr (collapse_hide e w))"

subsection \<open>Showing\<close>

definition accordion_actives :: "collapse \<Rightarrow> dom \<Rightarrow> elem list" where
  "accordion_actives c d =
     (case col_parent c of
        None \<Rightarrow> []
      | Some p \<Rightarrow>
          jq_find (\<lambda>d x. is_shown_or_collapsing d x
                         \<and> attr_of d x ''data-parent'' = Some (js_string (get (col_config c) ''parent''))) p d)"

definition not_selector :: "string option \<Rightarrow> dom \<Rightarrow> elem list \<Rightarrow> elem list" where
  "not_selector sel d xs =
     (case sel of
        None \<Rightarrow> xs
      | Some s \<Rightarrow> (case select s d of None \<Rightarrow> xs | Some ys \<Rightarrow> filter (\<lambda>x. x \<notin> set ys) xs))"

definition first_data :: "elem list \<Rightarrow> collapse_world \<Rightarrow> collapse option" where
  "first_data xs w = (case first xs of None \<Rightarrow> None | Some x \<Rightarrow> insts w x)"

definition drop_data :: "elem list \<Rightarrow> collapse_world \<Rightarrow> collapse_world" where
  "drop_data xs w = w\<lparr>insts := (\<lambda>x. if x \<in> set xs then None else insts w x)\<rparr>"

definition show_go :: "elem \<Rightarrow> collapse \<Rightarrow> collapse_world \<Rightarrow> collapse_world" where
  "show_go e c w =
     (let dimension = getDimension e (dm w);
          w = on_dom (setStyle dimension ''0'' e \<circ> addClass ''collapsing'' e \<circ> removeClass ''collapse'' e) w;
          w = on_dom (fold (setAttr ''aria-expanded'' ''true'') (col_triggers c)
                        \<circ> fold (removeClass ''collapsed'') (col_triggers c)) w;
          w = setTransitioning True e (col_gen c) w
      in if \<not> has_transition w then collapse_run (ShowComplete e (col_gen c) dimension) w
         else on_dom (\<lambda>d. setStyle dimension (px (layout e (scrollSize dimension) d)) e d)
                (await_end e (ShowComplete e (col_gen c) dimension) w))"

definition collapse_show :: "elem \<Rightarrow> collapse_world \<Rightarrow> js_error + collapse_world" where
  "collapse_show e w =
     (case insts w e of
        None \<Rightarrow> Inr w
      | Some c \<Rightarrow>
          if col_isTransitioning c \<or> hasClass e ''show'' (dm w) then Inr w
          else
            let actives = accordion_actives c (dm w);
                others = not_selector (col_selector c) (dm w) actives;
                activesData = first_data others w
            in if (case activesData of None \<Rightarrow> False | Some a \<Rightarrow> col_isTransitioning a) then Inr w
               else
                 let (prevented, d) = trigger SHOW None e (dm w);
                     w = w\<lparr>dm := d\<rparr>
                 in if prevented then Inr w
                    else case each_err interface_hide others w of
                           Inl err \<Rightarrow> Inl err
                         | Inr w \<Rightarrow>
                             Inr (show_go e c (if actives \<noteq> [] \<and> activesData = None then drop_data actives w else w)))"

definition collapse_toggle :: "elem \<Rightarrow> collapse_world \<Rightarrow> js_error + collapse_world" where
  "collapse_toggle e w = (if hasClass e ''show'' (dm w) then Inr (collapse_hide e w) else collapse_show e w)"

text \<open>After \<open>dispose\<close> the pending completion finds no element.\<close>

fun dispose_handler :: "nat \<Rightarrow> collapse_cb handler \<Rightarrow> collapse_cb handler" where
  "dispose_handler g (Callback (ShowComplete e h dimension)) =
     Callback (if h = g then DisposedComplete else ShowComplete e h dimension)"
| "dispose_handler g (Callback (HideComplete e h)) = Callback (if h = g then DisposedComplete else HideComplete e h)"
| "dispose_handler g h = h"

definition collapse_dispose :: "elem \<Rightarrow> collapse_world \<Rightarrow> collapse_world" where
  "collapse_dispose e w =
     (case insts w e of
        None \<Rightarrow> w
      | Some c \<Rightarrow>
          w\<lparr>insts := (insts w)(e := None),
            bound := map (\<lambda>(i, x, h). (i, x, dispose_handler (col_gen c) h)) (bound w)\<rparr>)"

definition new_collapse :: "elem \<Rightarrow> jsobj \<Rightarrow> collapse_world \<Rightarrow> js_error + collapse_world" where
  "new_collapse e config w =
     (case init_collapse e config w of
        Inl err \<Rightarrow> Inl err
      | Inr w \<Rightarrow>
          (case insts w e of
             None \<Rightarrow> Inr w
           | Some c \<Rightarrow> if truthy (get (col_config c) ''toggle'') then collapse_toggle e w else Inr w))"

subsection \<open>The plugin\<close>

definition collapse_method :: "string \<Rightarrow> elem \<Rightarrow> collapse_world \<Rightarrow> js_error + collapse_world" where
  "collapse_method m e w =
     (if m = ''toggle'' then collapse_toggle e w
      else if m = ''show'' then collapse_show e w
      else if m = ''hide'' then Inr (collapse_hide e w)
      else if m = ''dispose'' then Inr (collapse_dispose e w)
      else Inl (no_method m))"

definition collapse_each :: "plugin_arg \<Rightarrow> elem \<Rightarrow> collapse_world \<Rightarrow> js_error + collapse_world" where
  "collapse_each config e w =
     (let cfg = extends collapse_Default (data_of (dm w) e);
          cfg = (case config of ObjArg ob \<Rightarrow> extends cfg ob | _ \<Rightarrow> cfg);
          byName = (case config of StrArg s \<Rightarrow> contains s ''show'' \<or> contains s ''hide'' | _ \<Rightarrow> False);
          cfg = (if insts w e = None \<and> truthy (get cfg ''toggle'') \<and> byName then cfg(''toggle'' \<mapsto> JBool False) else cfg)
      in case (if insts w e = None then new_collapse e cfg w else Inr w) of
           Inl err \<Rightarrow> Inl err
         | Inr w \<Rightarrow> (case config of StrArg s \<Rightarrow> collapse_method s e w | _ \<Rightarrow> Inr w))"


definition collapse_click_on :: "elem \<Rightarrow> collapse_world \<Rightarrow> js_error + collapse_world" where
  "collapse_click_on t w =
     (case getSelectorFromElement t (dm w) of
        None \<Rightarrow> Inr w
      | Some sel \<Rightarrow>
          each_err (\<lambda>x w. collapse_each (if insts w x \<noteq> None then StrArg ''toggle'' else ObjArg (data_of (dm w) t)) x w)
            (case select sel (dm w) of None \<Rightarrow> [] | Some xs \<Rightarrow> xs) w)"

definition collapse_click :: "elem \<Rightarrow> collapse_world \<Rightarrow> js_error + collapse_world" where
  "collapse_click t w =
     each_err collapse_click_on (filter (is_collapse_toggle (dm w)) (t # ancestors (dtree (dm w)) t)) w"

subsection \<open>The states of a panel\<close>







lemma upd_col_simps [simp]:
  "dm (upd_col e f w) = dm w" "bound (upd_col e f w) = bound w" "timers (upd_col e f w) = timers w"
  "called (upd_col e f w) = called w" "next_id (upd_col e f w) = next_id w" "later (upd_col e f w) = later w"
  "intervals (upd_col e f w) = intervals w" "has_transition (upd_col e f w) = has_transition w"
  "insts (upd_col e f w) x = (if x = e then map_option f (insts w e) else insts w x)"
  by (simp_all add: upd_col_def)


lemma mark_collapsed_frame [simp]:
  "c \<noteq> ''collapsed'' \<Longrightarrow> hasClass x c (mark_collapsed t d) = hasClass x c d"
  "dtree (mark_collapsed t d) = dtree d" "event_log (mark_collapsed t d) = event_log d" "env (mark_collapsed t d) = env d"
  by (auto simp: mark_collapsed_def split: option.split)

lemma fold_mark_collapsed [simp]:
  "c \<noteq> ''collapsed'' \<Longrightarrow> hasClass x c (fold mark_collapsed ts d) = hasClass x c d"
  "event_log (fold mark_collapsed ts d) = event_log d" "env (fold mark_collapsed ts d) = env d"
  by (rule fold_frame; simp)+

lemma hasClass_styled [simp]: "hasClass x c (setStyle k v e d) = hasClass x c d"
  by simp

lemma pend_await [simp]: "pend (await_end e cb w) = pend w @ [(e, Callback cb)]"
  by (simp add: pend_def)


















subsection \<open>Accordions\<close>







subsection \<open>An accordion of two panels\<close>







end
