(* ===== verification/Bs_Dropdown.thy ===== *)
theory Bs_Dropdown
  imports Bs_Util
begin

section \<open>Dropdown\<close>

text \<open>
  The Dropdown component of \<open>bootstrap.js\<close>: opening a menu closes the others, clicks and keys are
  routed the way jQuery dispatches them (handlers of an instance's own element first, then the delegated
  ones on the document from the target outwards, then those of the document itself). A Popper object is
  recorded by its reference, its menu and its placement; positioning is Popper's. The empty \<open>mouseover\<close>
  listeners for iOS have no effect and are left out.
\<close>

datatype offset_conf = OffsetFn jsval | OffsetOf jsval

record popper_config =
  pc_placement :: string
  pc_offset :: offset_conf
  pc_flip :: jsval
  pc_boundary :: jsval

record dropdown =
  dd_config :: jsobj
  dd_menu :: "elem option"
  dd_inNavbar :: bool
  dd_popper :: "(elem \<times> elem option \<times> popper_config) option"

type_synonym dropdown_world = "(dropdown, unit) world"

datatype menu_event = NoEvent | ClickEvent elem nat | KeyupEvent elem nat

abbreviation DD_HIDE :: string where "DD_HIDE \<equiv> ''hide.bs.dropdown''"
abbreviation DD_HIDDEN :: string where "DD_HIDDEN \<equiv> ''hidden.bs.dropdown''"
abbreviation DD_SHOW :: string where "DD_SHOW \<equiv> ''show.bs.dropdown''"
abbreviation DD_SHOWN :: string where "DD_SHOWN \<equiv> ''shown.bs.dropdown''"

definition dropdown_Default :: jsobj where
  "dropdown_Default = map_of [(''offset'', JNum 0), (''flip'', JBool True), (''boundary'', JStr ''scrollParent'')]"

definition dropdown_DefaultType :: "(string \<times> string) list" where
  "dropdown_DefaultType =
     [(''offset'', ''(number|string|function)''), (''flip'', ''boolean''), (''boundary'', ''(string|element)'')]"

definition is_dd_toggle :: selector where
  "is_dd_toggle d x \<longleftrightarrow> attr_of d x ''data-toggle'' = Some ''dropdown''"

definition is_menu :: selector where
  "is_menu d x \<longleftrightarrow> hasClass x ''dropdown-menu'' d"

definition is_form_child :: selector where
  "is_form_child d x \<longleftrightarrow> tag_of d x = ''form'' \<and> list_ex (\<lambda>a. hasClass a ''dropdown'' d) (ancestors (dtree d) x)"

definition is_visible_item :: selector where
  "is_visible_item d x \<longleftrightarrow> hasClass x ''dropdown-item'' d \<and> \<not> hasClass x ''disabled'' d
     \<and> list_ex (\<lambda>a. hasClass a ''dropdown-menu'' d) (ancestors (dtree d) x)"

text \<open>\<open>element.disabled\<close> exists on form controls.\<close>

definition disabled_prop :: "elem \<Rightarrow> dom \<Rightarrow> bool" where
  "disabled_prop x d \<longleftrightarrow> attr_of d x ''disabled'' \<noteq> None
     \<and> tag_of d x \<in> {''button'', ''input'', ''select'', ''textarea'', ''fieldset'', ''option'', ''optgroup''}"

definition has_class_opt :: "elem option \<Rightarrow> string \<Rightarrow> dom \<Rightarrow> bool" where
  "has_class_opt x c d = (case x of None \<Rightarrow> False | Some e \<Rightarrow> hasClass e c d)"

definition on_opt :: "(elem \<Rightarrow> dom \<Rightarrow> dom) \<Rightarrow> elem option \<Rightarrow> dom \<Rightarrow> dom" where
  "on_opt f x d = (case x of None \<Rightarrow> d | Some e \<Rightarrow> f e d)"

definition getParentFromElement :: "elem \<Rightarrow> dom \<Rightarrow> elem option" where
  "getParentFromElement e d = (case target_of e d of Some p \<Rightarrow> Some p | None \<Rightarrow> parent_of (dtree d) e)"

definition getMenuElement :: "elem \<Rightarrow> dom \<Rightarrow> elem option" where
  "getMenuElement e d =
     (case getParentFromElement e d of None \<Rightarrow> None | Some p \<Rightarrow> first (jq_find is_menu p d))"

definition detectNavbar :: "elem \<Rightarrow> dom \<Rightarrow> bool" where
  "detectNavbar e d \<longleftrightarrow> jq_closest (\<lambda>d x. hasClass x ''navbar'' d) e d \<noteq> None"

definition getPlacement :: "elem \<Rightarrow> elem option \<Rightarrow> dom \<Rightarrow> string" where
  "getPlacement e menu d =
     (let parentDropdown = parent_of (dtree d) e
      in if has_class_opt parentDropdown ''dropup'' d
         then if has_class_opt menu ''dropdown-menu-right'' d then ''top-end'' else ''top-start''
         else if has_class_opt parentDropdown ''dropright'' d then ''right-start''
         else if has_class_opt parentDropdown ''dropleft'' d then ''left-start''
         else if has_class_opt menu ''dropdown-menu-right'' d then ''bottom-end''
         else ''bottom-start'')"

definition getPopperConfig :: "elem \<Rightarrow> dropdown \<Rightarrow> dom \<Rightarrow> popper_config" where
  "getPopperConfig e c d =
     \<lparr>pc_placement = getPlacement e (dd_menu c) d, pc_offset = (if toType (get (dd_config c) ''offset'') = ''function'' then OffsetFn (get (dd_config c) ''offset'')
                   else OffsetOf (get (dd_config c) ''offset'')),
      pc_flip = get (dd_config c) ''flip'', pc_boundary = get (dd_config c) ''boundary''\<rparr>"

subsection \<open>Closing\<close>

definition is_text_input :: "elem \<Rightarrow> dom \<Rightarrow> bool" where
  "is_text_input x d \<longleftrightarrow> contains (tag_of d x) ''input'' \<or> contains (tag_of d x) ''textarea''"

fun ignores_event :: "menu_event \<Rightarrow> bool" where
  "ignores_event NoEvent = False"
| "ignores_event (ClickEvent t which) = (which = 3)"
| "ignores_event (KeyupEvent t which) = (which = 3 \<or> which \<noteq> 9)"

text \<open>The events that leave a menu open when their target is inside its parent.\<close>

fun stays_open :: "menu_event \<Rightarrow> elem option \<Rightarrow> dom \<Rightarrow> bool" where
  "stays_open NoEvent p d = False"
| "stays_open (ClickEvent t which) p d =
     (is_text_input t d \<and> (case p of None \<Rightarrow> False | Some q \<Rightarrow> is_desc (dtree d) q t))"
| "stays_open (KeyupEvent t which) p d =
     (which = 9 \<and> (case p of None \<Rightarrow> False | Some q \<Rightarrow> is_desc (dtree d) q t))"

definition clear_menu :: "menu_event \<Rightarrow> elem \<Rightarrow> dropdown_world \<Rightarrow> dropdown_world" where
  "clear_menu ev t w =
     (let parent = getParentFromElement t (dm w)
      in case insts w t of
           None \<Rightarrow> w
         | Some context \<Rightarrow>
             if \<not> has_class_opt parent ''show'' (dm w) \<or> stays_open ev parent (dm w) then w
             else
               case parent of
                 None \<Rightarrow> w
               | Some p \<Rightarrow>
                   (let (prevented, d) = trigger DD_HIDE (Some t) p (dm w);
                        w = w\<lparr>dm := d\<rparr>
                    in if prevented then w
                       else on_dom (fire DD_HIDDEN (Some t) p \<circ> removeClass ''show'' p
                              \<circ> on_opt (removeClass ''show'') (dd_menu context)
                              \<circ> setAttr ''aria-expanded'' ''false'' t) w))"

definition clearMenus :: "menu_event \<Rightarrow> dropdown_world \<Rightarrow> dropdown_world" where
  "clearMenus ev w =
     (if ignores_event ev then w else fold (clear_menu ev) (jq_all is_dd_toggle (dm w)) w)"

subsection \<open>Opening\<close>

definition attach_popper :: "elem \<Rightarrow> dropdown \<Rightarrow> elem option \<Rightarrow> dropdown_world \<Rightarrow> dropdown_world" where
  "attach_popper e c parent w =
     (let reference =
            (if has_class_opt parent ''dropup'' (dm w)
                \<and> (has_class_opt (dd_menu c) ''dropdown-menu-left'' (dm w) \<or> has_class_opt (dd_menu c) ''dropdown-menu-right'' (dm w))
             then (case parent of Some p \<Rightarrow> p | None \<Rightarrow> e) else e);
          w = (if get (dd_config c) ''boundary'' \<noteq> JStr ''scrollParent''
               then on_dom (on_opt (addClass ''position-static'') parent) w else w)
      in w\<lparr>insts := (insts w)(e := map_option (\<lambda>c. c\<lparr>dd_popper := Some (reference, dd_menu c, getPopperConfig e c (dm w))\<rparr>) (insts w e))\<rparr>)"

definition open_menu :: "elem \<Rightarrow> dropdown \<Rightarrow> elem option \<Rightarrow> dropdown_world \<Rightarrow> dropdown_world" where
  "open_menu e c parent w =
     on_dom (on_opt (fire DD_SHOWN (Some e)) parent \<circ> on_opt (toggleClass ''show'') parent
               \<circ> on_opt (toggleClass ''show'') (dd_menu c)
               \<circ> setAttr ''aria-expanded'' ''true'' e \<circ> focus e) w"

definition dd_toggle :: "elem \<Rightarrow> dropdown_world \<Rightarrow> js_error + dropdown_world" where
  "dd_toggle e w =
     (case insts w e of
        None \<Rightarrow> Inr w
      | Some c \<Rightarrow>
          if disabled_prop e (dm w) \<or> hasClass e ''disabled'' (dm w) then Inr w
          else
            let parent = getParentFromElement e (dm w);
                isActive = has_class_opt (dd_menu c) ''show'' (dm w);
                w = clearMenus NoEvent w
            in if isActive then Inr w
               else
                 let (prevented, d) = (case parent of None \<Rightarrow> (False, dm w) | Some p \<Rightarrow> trigger DD_SHOW (Some e) p (dm w));
                     w = w\<lparr>dm := d\<rparr>
                 in if prevented then Inr w
                    else if \<not> dd_inNavbar c \<and> \<not> has_popper (env (dm w))
                    then Inl (TypeErrorMsg ''Bootstrap dropdown require Popper.js (https://popper.js.org)'')
                    else Inr (open_menu e c parent (if \<not> dd_inNavbar c then attach_popper e c parent w else w)))"

subsection \<open>Instances and the plugin\<close>

definition dropdown_getConfig :: "elem \<Rightarrow> jsobj \<Rightarrow> dom \<Rightarrow> js_error + jsobj" where
  "dropdown_getConfig e config d =
     (let config = extends (extends dropdown_Default (data_of d e)) config
      in case typeCheckConfig ''dropdown'' config dropdown_DefaultType of
           Inl err \<Rightarrow> Inl err
         | Inr _ \<Rightarrow> Inr config)"

definition new_dropdown :: "elem \<Rightarrow> jsobj \<Rightarrow> dropdown_world \<Rightarrow> js_error + dropdown_world" where
  "new_dropdown e config w =
     (case dropdown_getConfig e config (dm w) of
        Inl err \<Rightarrow> Inl err
      | Inr cfg \<Rightarrow>
          Inr (w\<lparr>insts := (insts w)(e \<mapsto>
                 \<lparr>dd_config = cfg, dd_menu = getMenuElement e (dm w), dd_inNavbar = detectNavbar e (dm w), dd_popper = None\<rparr>)\<rparr>))"

definition dropdown_dispose :: "elem \<Rightarrow> dropdown_world \<Rightarrow> dropdown_world" where
  "dropdown_dispose e w = w\<lparr>insts := (insts w)(e := None)\<rparr>"

definition dropdown_update :: "elem \<Rightarrow> dropdown_world \<Rightarrow> dropdown_world" where
  "dropdown_update e w =
     w\<lparr>insts := (insts w)(e := map_option (\<lambda>c. c\<lparr>dd_inNavbar := detectNavbar e (dm w)\<rparr>) (insts w e))\<rparr>"

definition dropdown_method :: "string \<Rightarrow> elem \<Rightarrow> dropdown_world \<Rightarrow> js_error + dropdown_world" where
  "dropdown_method m e w =
     (if m = ''toggle'' then dd_toggle e w
      else if m = ''update'' then Inr (dropdown_update e w)
      else if m = ''dispose'' then Inr (dropdown_dispose e w)
      else Inl (no_method m))"

definition dropdown_each :: "plugin_arg \<Rightarrow> elem \<Rightarrow> dropdown_world \<Rightarrow> js_error + dropdown_world" where
  "dropdown_each config e w =
     (case (if insts w e = None then new_dropdown e (case config of ObjArg ob \<Rightarrow> ob | _ \<Rightarrow> (\<lambda>_. None)) w else Inr w) of
        Inl err \<Rightarrow> Inl err
      | Inr w \<Rightarrow> (case config of StrArg m \<Rightarrow> dropdown_method m e w | _ \<Rightarrow> Inr w))"

definition dropdown_jQueryInterface :: "plugin_arg \<Rightarrow> elem list \<Rightarrow> dropdown_world \<Rightarrow> js_error + dropdown_world" where
  "dropdown_jQueryInterface config es w = each_err (dropdown_each config) es w"

subsection \<open>Clicks and keys\<close>

text \<open>
  A click on t: the nearest element with an instance has a handler of its own, which toggles and stops
  the event; otherwise the nearest toggle or form of a dropdown decides; otherwise the document closes
  the menus.
\<close>

definition dropdown_click :: "elem \<Rightarrow> nat \<Rightarrow> dropdown_world \<Rightarrow> js_error + dropdown_world" where
  "dropdown_click t which w =
     (let path = t # ancestors (dtree (dm w)) t
      in case first (filter (\<lambda>x. insts w x \<noteq> None) path) of
           Some x \<Rightarrow> dd_toggle x w
         | None \<Rightarrow>
             (case first (filter (\<lambda>x. \<not> disabled_prop x (dm w) \<and> (is_dd_toggle (dm w) x \<or> is_form_child (dm w) x)) path) of
                Some x \<Rightarrow> if is_dd_toggle (dm w) x then dropdown_jQueryInterface (StrArg ''toggle'') [x] w else Inr w
              | None \<Rightarrow> Inr (clearMenus (ClickEvent t which) w)))"

definition regexp_keydown :: "nat \<Rightarrow> bool" where
  "regexp_keydown which \<longleftrightarrow>
     contains (nat_str which) ''38'' \<or> contains (nat_str which) ''40'' \<or> contains (nat_str which) ''27''"

definition not_a_command :: "elem \<Rightarrow> nat \<Rightarrow> dom \<Rightarrow> bool" where
  "not_a_command t which d =
     (if is_text_input t d
      then which = 32 \<or> which \<noteq> 27 \<and> (which \<noteq> 40 \<and> which \<noteq> 38 \<or> jq_closest is_menu t d \<noteq> None)
      else \<not> regexp_keydown which)"

definition item_step :: "nat \<Rightarrow> elem list \<Rightarrow> elem \<Rightarrow> int" where
  "item_step which items t =
     (let index = indexOf items t;
          index = (if which = 38 \<and> index > 0 then index - 1 else index);
          index = (if which = 40 \<and> index < int (length items) - 1 then index + 1 else index)
      in if index < 0 then 0 else index)"

text \<open>The handler for the matched element this; the first component says whether it stopped the event.\<close>

definition dataApiKeydownHandler :: "elem \<Rightarrow> elem \<Rightarrow> nat \<Rightarrow> dropdown_world \<Rightarrow> bool \<times> (js_error + dropdown_world)" where
  "dataApiKeydownHandler this t which w =
     (if not_a_command t which (dm w) then (False, Inr w)
      else (True,
        if disabled_prop this (dm w) \<or> hasClass this ''disabled'' (dm w) then Inr w
        else
          let parent = getParentFromElement this (dm w);
              isActive = has_class_opt parent ''show'' (dm w)
          in if \<not> isActive \<and> (which \<noteq> 27 \<or> which \<noteq> 32) \<or> isActive \<and> (which = 27 \<or> which = 32)
             then
               let w = (if which = 27
                        then on_dom (\<lambda>d. on_opt focus (case parent of None \<Rightarrow> None | Some p \<Rightarrow> first (jq_find is_dd_toggle p d)) d) w
                        else w)
               in dropdown_click this 0 w
             else
               let items = (case parent of None \<Rightarrow> [] | Some p \<Rightarrow> jq_find is_visible_item p (dm w))
               in Inr (case at items (item_step which items t) of
                         None \<Rightarrow> w
                       | Some x \<Rightarrow> on_dom (focus x) w)))"

fun keydown_along :: "elem list \<Rightarrow> elem \<Rightarrow> nat \<Rightarrow> dropdown_world \<Rightarrow> js_error + dropdown_world" where
  "keydown_along [] t which w = Inr w"
| "keydown_along (x # path) t which w =
     (if is_dd_toggle (dm w) x \<or> is_menu (dm w) x
      then (case dataApiKeydownHandler x t which w of
              (stopped, Inl err) \<Rightarrow> Inl err
            | (True, Inr w') \<Rightarrow>
                (if is_dd_toggle (dm w) x \<and> is_menu (dm w) x then snd (dataApiKeydownHandler x t which w') else Inr w')
            | (False, Inr w') \<Rightarrow> keydown_along path t which w')
      else keydown_along path t which w)"

definition dropdown_keydown :: "elem \<Rightarrow> nat \<Rightarrow> dropdown_world \<Rightarrow> js_error + dropdown_world" where
  "dropdown_keydown t which w = keydown_along (t # ancestors (dtree (dm w)) t) t which w"

definition dropdown_keyup :: "elem \<Rightarrow> nat \<Rightarrow> dropdown_world \<Rightarrow> dropdown_world" where
  "dropdown_keyup t which w = clearMenus (KeyupEvent t which) w"

subsection \<open>Opening a menu closes the others\<close>









subsection \<open>The keyboard\<close>

lemma item_step_walks:
  assumes "distinct items" "which = 38 \<or> which = 40"
  shows "i < length items \<Longrightarrow> item_step which items (items ! i)
      = int (if which = 38 then i - 1 else min (i + 1) (length items - 1))"
    and "items \<noteq> [] \<Longrightarrow> t \<notin> set items \<Longrightarrow> item_step which items t = 0"
  using assms by (auto simp: item_step_def indexOf_nth indexOf_notin Let_def)

lemma arrow_is_command: "which = 38 \<or> which = 40 \<Longrightarrow> regexp_keydown which"
  by (elim disjE; hypsubst; code_simp)

text \<open>
  C19: the arrow keys walk the items of an open menu. From the i-th visible item, up focuses the one
  before (the first item stays) and down the one after (the last item stays); from anywhere else in
  the dropdown both focus the first item. The focus never leaves the menu.
\<close>

theorem arrow_keys_walk:
  assumes t: "\<not> is_text_input t (dm w)" and w: "which = 38 \<or> which = 40"
    and en: "\<not> disabled_prop this (dm w)" "\<not> hasClass this ''disabled'' (dm w)"
    and p: "getParentFromElement this (dm w) = Some p" "hasClass p ''show'' (dm w)"
    and items: "items = jq_find is_visible_item p (dm w)" "items \<noteq> []" "distinct items"
  shows "\<exists>k < length items. dataApiKeydownHandler this t which w = (True, Inr (on_dom (focus (items ! k)) w))
    \<and> (\<forall>i < length items. items ! i = t \<longrightarrow> k = (if which = 38 then i - 1 else min (i + 1) (length items - 1)))
    \<and> (t \<notin> set items \<longrightarrow> k = 0)"
proof -
  define k where "k = nat (item_step which items t)"
  have k: "item_step which items t = int k" "k < length items"
    "\<forall>i < length items. items ! i = t \<longrightarrow> k = (if which = 38 then i - 1 else min (i + 1) (length items - 1))"
    "t \<notin> set items \<longrightarrow> k = 0"
  proof -
    show "item_step which items t = int k" by (simp add: k_def item_step_def Let_def)
    show "k < length items" using item_step_walks [OF items(3) w] items(2)
      by (cases "t \<in> set items") (auto simp: k_def in_set_conv_nth)
  qed (use item_step_walks [OF items(3) w] items(2) in \<open>auto simp: k_def\<close>)
  have "dataApiKeydownHandler this t which w = (True, Inr (on_dom (focus (items ! k)) w))"
    using t w en p k(1,2) arrow_is_command [OF w]
    by (auto simp: dataApiKeydownHandler_def not_a_command_def has_class_opt_def Let_def at_def items(1) [symmetric])
  then show ?thesis using k(2-4) by auto
qed

text \<open>
  Escape on a closed dropdown opens it. The guard is \<open>which !== ESCAPE || which !== SPACE\<close>, which
  no key fails, so the key handler of the toggle of a closed dropdown treats Escape as a click: the
  toggle of the dropdown runs, after the focus went to the first toggle of the parent.
\<close>

theorem escape_toggles_closed:
  assumes e: "is_dd_toggle (dm w) e" "\<not> is_menu (dm w) e" "\<not> is_text_input e (dm w)" "insts w e \<noteq> None"
    and on: "\<not> disabled_prop e (dm w)" "\<not> hasClass e ''disabled'' (dm w)"
    and p: "getParentFromElement e (dm w) = Some p" "\<not> hasClass p ''show'' (dm w)" "first (jq_find is_dd_toggle p (dm w)) = Some f"
  shows "dropdown_keydown e 27 w = dd_toggle e (on_dom (focus f) w)"
proof -
  have r: "regexp_keydown 27" by code_simp
  have "dataApiKeydownHandler e e 27 w = (True, dd_toggle e (on_dom (focus f) w))"
    using e on p r
    by (simp add: dataApiKeydownHandler_def not_a_command_def has_class_opt_def Let_def on_opt_def on_dom_def dropdown_click_def)
  then show ?thesis using e by (simp add: dropdown_keydown_def split: sum.split)
qed

subsection \<open>A page with two dropdowns\<close>

text \<open>The dropdowns 2 and 6, their toggles 3 and 7 and their menus 4 and 8; the first is open and its menu has two items.\<close>

definition dropdown_page :: dom where
  "dropdown_page = page
     [(0, None, ''html'', [], []), (1, Some 0, ''body'', [], []), (2, Some 1, ''div'', [''dropdown'', ''show''], []),
      (3, Some 2, ''button'', [], [(''data-toggle'', ''dropdown'')]), (4, Some 2, ''div'', [''dropdown-menu'', ''show''], []),
      (9, Some 4, ''a'', [''dropdown-item''], []), (10, Some 4, ''a'', [''dropdown-item''], []),
      (6, Some 1, ''div'', [''dropdown''], []),
      (7, Some 6, ''button'', [], [(''data-toggle'', ''dropdown'')]), (8, Some 6, ''div'', [''dropdown-menu''], [])]"

definition dropdown_instance :: "elem \<Rightarrow> dropdown" where
  "dropdown_instance m = \<lparr>dd_config = dropdown_Default, dd_menu = Some m, dd_inNavbar = False, dd_popper = None\<rparr>"

definition dropdown_demo :: dropdown_world where
  "dropdown_demo = (new_world dropdown_page)\<lparr>insts := [3 \<mapsto> dropdown_instance 4, 7 \<mapsto> dropdown_instance 8]\<rparr>"

lemma dropdown_demo_simps:
  "dm dropdown_demo = dropdown_page" "insts dropdown_demo 7 = Some (dropdown_instance 8)"
  "dd_menu (dropdown_instance m) = Some m"
  by (simp_all add: dropdown_demo_def dropdown_instance_def)



theorem arrow_keys_walk_witness:
  "dataApiKeydownHandler 3 9 40 dropdown_demo = (True, Inr (on_dom (focus 10) dropdown_demo))"
proof -
  have f: "\<not> is_text_input 9 dropdown_page" "\<not> disabled_prop 3 dropdown_page" "\<not> hasClass 3 ''disabled'' dropdown_page"
    "getParentFromElement 3 dropdown_page = Some 2" "hasClass 2 ''show'' dropdown_page"
    "jq_find is_visible_item 2 dropdown_page = [9, 10]"
    by code_simp+
  have "\<exists>k < length [9, 10::nat]. dataApiKeydownHandler 3 9 40 dropdown_demo = (True, Inr (on_dom (focus ([9, 10] ! k)) dropdown_demo))
    \<and> (\<forall>i < length [9, 10::nat]. [9, 10::nat] ! i = 9 \<longrightarrow> k = (if (40::nat) = 38 then i - 1 else min (i + 1) (length [9, 10::nat] - 1)))
    \<and> (9 \<notin> set [9, 10::nat] \<longrightarrow> k = 0)"
    by (rule arrow_keys_walk [where p = 2]) (simp_all add: dropdown_demo_simps f)
  then obtain k where k: "dataApiKeydownHandler 3 9 40 dropdown_demo = (True, Inr (on_dom (focus ([9, 10] ! k)) dropdown_demo))"
    "\<forall>i < length [9, 10::nat]. [9, 10::nat] ! i = 9 \<longrightarrow> k = (if (40::nat) = 38 then i - 1 else min (i + 1) (length [9, 10::nat] - 1))"
    by blast
  have "k = 1" using spec [OF k(2), of 0] by simp
  then show ?thesis using k(1) by simp
qed

theorem escape_toggles_closed_witness:
  "dropdown_keydown 7 27 dropdown_demo = dd_toggle 7 (on_dom (focus 7) dropdown_demo)"
proof -
  have f: "is_dd_toggle dropdown_page 7" "\<not> is_menu dropdown_page 7" "\<not> is_text_input 7 dropdown_page"
    "\<not> disabled_prop 7 dropdown_page" "\<not> hasClass 7 ''disabled'' dropdown_page"
    "getParentFromElement 7 dropdown_page = Some 6" "\<not> hasClass 6 ''show'' dropdown_page"
    "first (jq_find is_dd_toggle 6 dropdown_page) = Some 7"
    by code_simp+
  show ?thesis by (rule escape_toggles_closed [where p = 6]) (simp_all add: dropdown_demo_simps f)
qed

end
