(* ===== verification/Bs_Modal.thy ===== *)
theory Bs_Modal
  imports Bs_Util
begin

section \<open>Modal\<close>

text \<open>
  The Modal component of \<open>bootstrap.js\<close>: the dialog, its backdrop, and the adjustments for the
  scrollbar. What jQuery keeps for an element is a slot: the Modal object, the toggles that wait for its
  next \<open>show\<close> event and those that get the focus back at its next \<open>hidden\<close> event. The handlers a Modal
  binds are flags of its object; handlers are taken off by event name, so a flag that stands for a
  handler of the document or the window is taken off every Modal. A callback names its object by the
  element and a generation: after \<open>dispose\<close> it finds the fields null and throws where it first uses
  them. Scroll positions are part of the layout and not of the document.
\<close>

record modal =
  md_gen :: nat
  md_config :: jsobj
  md_dialog :: "elem option"
  md_backdrop :: "elem option"
  md_isShown :: bool
  md_isBodyOverflowing :: bool
  md_ignoreBackdropClick :: bool
  md_scrollbarWidth :: int
  md_isTransitioning :: bool
  md_keydown :: bool
  md_dismiss :: bool
  md_backdropClick :: bool
  md_mousedown :: bool
  md_mouseup :: bool
  md_resize :: bool
  md_focusin :: bool

record modal_slot =
  sl_modal :: "modal option"
  sl_armed :: "elem list"
  sl_restore :: "elem list"

text \<open>What follows a backdrop: \<open>_showElement(relatedTarget)\<close>, or the end of \<open>_hideModal\<close>.\<close>

datatype after_backdrop = ThenShow "elem option" | ThenHidden

datatype modal_cb =
    AfterBackdrop elem nat after_backdrop
  | AfterRemove elem nat after_backdrop
  | ShowComplete elem nat "elem option"
  | HideModal elem nat

type_synonym modal_world = "(modal_slot, modal_cb) world"

abbreviation MD_HIDE :: string where "MD_HIDE \<equiv> ''hide.bs.modal''"
abbreviation MD_HIDDEN :: string where "MD_HIDDEN \<equiv> ''hidden.bs.modal''"
abbreviation MD_SHOW :: string where "MD_SHOW \<equiv> ''show.bs.modal''"
abbreviation MD_SHOWN :: string where "MD_SHOWN \<equiv> ''shown.bs.modal''"

definition modal_Default :: jsobj where
  "modal_Default =
     map_of [(''backdrop'', JBool True), (''keyboard'', JBool True), (''focus'', JBool True), (''show'', JBool True)]"

definition modal_DefaultType :: "(string \<times> string) list" where
  "modal_DefaultType =
     [(''backdrop'', ''(boolean|string)''), (''keyboard'', ''boolean''), (''focus'', ''boolean''), (''show'', ''boolean'')]"

definition is_dialog :: selector where
  "is_dialog d x \<longleftrightarrow> hasClass x ''modal-dialog'' d"

definition is_fixed_content :: selector where
  "is_fixed_content d x \<longleftrightarrow>
     hasClass x ''fixed-top'' d \<or> hasClass x ''fixed-bottom'' d \<or> hasClass x ''is-fixed'' d \<or> hasClass x ''sticky-top'' d"

definition is_sticky :: selector where
  "is_sticky d x \<longleftrightarrow> hasClass x ''sticky-top'' d"

definition is_navbar_toggler :: selector where
  "is_navbar_toggler d x \<longleftrightarrow> hasClass x ''navbar-toggler'' d"

definition is_modal_dismiss :: selector where
  "is_modal_dismiss d x \<longleftrightarrow> attr_of d x ''data-dismiss'' = Some ''modal''"

subsection \<open>Objects\<close>

definition empty_slot :: modal_slot where
  "empty_slot = \<lparr>sl_modal = None, sl_armed = [], sl_restore = []\<rparr>"

definition slot :: "elem \<Rightarrow> modal_world \<Rightarrow> modal_slot" where
  "slot e w = (case insts w e of None \<Rightarrow> empty_slot | Some s \<Rightarrow> s)"

definition set_slot :: "elem \<Rightarrow> modal_slot \<Rightarrow> modal_world \<Rightarrow> modal_world" where
  "set_slot e s w = w\<lparr>insts := (insts w)(e \<mapsto> s)\<rparr>"

definition modal_at :: "elem \<Rightarrow> modal_world \<Rightarrow> modal option" where
  "modal_at e w = sl_modal (slot e w)"

text \<open>The object a callback refers to, unless it was disposed of.\<close>

definition modal_obj :: "elem \<Rightarrow> nat \<Rightarrow> modal_world \<Rightarrow> modal option" where
  "modal_obj e g w = (case modal_at e w of None \<Rightarrow> None | Some m \<Rightarrow> if md_gen m = g then Some m else None)"

definition md_upd :: "elem \<Rightarrow> (modal \<Rightarrow> modal) \<Rightarrow> modal_world \<Rightarrow> modal_world" where
  "md_upd e f w = set_slot e ((slot e w)\<lparr>sl_modal := map_option f (sl_modal (slot e w))\<rparr>) w"

definition md_upd_all :: "(modal \<Rightarrow> modal) \<Rightarrow> modal_world \<Rightarrow> modal_world" where
  "md_upd_all f w =
     w\<lparr>insts := (\<lambda>e. map_option (\<lambda>s. s\<lparr>sl_modal := map_option f (sl_modal s)\<rparr>) (insts w e))\<rparr>"

subsection \<open>The scrollbar\<close>

text \<open>A computed length depends on the inline value of the property.\<close>

definition css_num :: "string \<Rightarrow> elem \<Rightarrow> dom \<Rightarrow> int" where
  "css_num k e d = layout e (k @ '': '' @ style_of d e k) d"

definition getScrollbarWidth :: "dom \<Rightarrow> int \<times> dom" where
  "getScrollbarWidth d =
     (let s = fresh_elem d;
          d = append_to_body s (createElement ''div'' [''modal-scrollbar-measure''] s d);
          width = layout s ''width'' d - layout s ''clientWidth'' d
      in (width, detach s d))"

definition checkScrollbar :: "elem \<Rightarrow> modal_world \<Rightarrow> modal_world" where
  "checkScrollbar e w =
     (let body = body_elem (dtree (dm w));
          over = layout body ''rect.left'' (dm w) + layout body ''rect.right'' (dm w)
                   < layout (html_elem (dtree (dm w))) ''innerWidth'' (dm w);
          (width, d) = getScrollbarWidth (dm w)
      in md_upd e (\<lambda>m. m\<lparr>md_isBodyOverflowing := over, md_scrollbarWidth := width\<rparr>) (w\<lparr>dm := d\<rparr>))"

definition save_and_add :: "string \<Rightarrow> int \<Rightarrow> elem \<Rightarrow> dom \<Rightarrow> dom" where
  "save_and_add k width e d = setStyle k (px (css_num k e d + width)) e (setData k (JStr (style_of d e k)) e d)"

definition setScrollbar :: "int \<Rightarrow> dom \<Rightarrow> dom" where
  "setScrollbar width d =
     (let d = fold (save_and_add ''padding-right'' width) (jq_all is_fixed_content d) d;
          d = fold (save_and_add ''margin-right'' (- width)) (jq_all is_sticky d) d;
          d = fold (save_and_add ''margin-right'' width) (jq_all is_navbar_toggler d) d
      in save_and_add ''padding-right'' width (body_elem (dtree d)) d)"

definition css_set :: "string \<Rightarrow> jsval \<Rightarrow> elem \<Rightarrow> dom \<Rightarrow> dom" where
  "css_set k v e d = (case v of JStr s \<Rightarrow> setStyle k s e d | JNum n \<Rightarrow> setStyle k (px n) e d | _ \<Rightarrow> d)"

definition restore_css :: "string \<Rightarrow> elem \<Rightarrow> dom \<Rightarrow> dom" where
  "restore_css k e d =
     (let v = get (data_of d e) k in if v \<noteq> JUndef then removeData k e (css_set k v e d) else d)"

definition resetScrollbar :: "dom \<Rightarrow> dom" where
  "resetScrollbar d =
     (let d = fold (restore_css ''padding-right'') (jq_all is_fixed_content d) d;
          d = fold (restore_css ''margin-right'') (jq_all (\<lambda>d x. is_sticky d x \<or> is_navbar_toggler d x) d) d
      in restore_css ''padding-right'' (body_elem (dtree d)) d)"

definition adjustDialog :: "elem \<Rightarrow> modal \<Rightarrow> dom \<Rightarrow> dom" where
  "adjustDialog e m d =
     (let isModalOverflowing = layout e ''scrollHeight'' d > layout (html_elem (dtree d)) ''clientHeight'' d;
          d = (if \<not> md_isBodyOverflowing m \<and> isModalOverflowing then setStyle ''padding-left'' (px (md_scrollbarWidth m)) e d else d)
      in if md_isBodyOverflowing m \<and> \<not> isModalOverflowing then setStyle ''padding-right'' (px (md_scrollbarWidth m)) e d else d)"

definition resetAdjustments :: "elem \<Rightarrow> dom \<Rightarrow> dom" where
  "resetAdjustments e d = setStyle ''padding-right'' '''' e (setStyle ''padding-left'' '''' e d)"

definition handleUpdate :: "elem \<Rightarrow> modal_world \<Rightarrow> modal_world" where
  "handleUpdate e w = (case modal_at e w of None \<Rightarrow> w | Some m \<Rightarrow> on_dom (adjustDialog e m) w)"

subsection \<open>Handlers that come and go\<close>

definition setEscapeEvent :: "elem \<Rightarrow> modal_world \<Rightarrow> modal_world" where
  "setEscapeEvent e w =
     md_upd e (\<lambda>m. if md_isShown m \<and> truthy (get (md_config m) ''keyboard'') then m\<lparr>md_keydown := True\<rparr>
                   else if \<not> md_isShown m then m\<lparr>md_keydown := False\<rparr> else m) w"

definition setResizeEvent :: "elem \<Rightarrow> modal_world \<Rightarrow> modal_world" where
  "setResizeEvent e w =
     (case modal_at e w of
        None \<Rightarrow> w
      | Some m \<Rightarrow> if md_isShown m then md_upd e (md_resize_update (\<lambda>_. True)) w else md_upd_all (md_resize_update (\<lambda>_. False)) w)"

definition enforceFocus :: "elem \<Rightarrow> modal_world \<Rightarrow> modal_world" where
  "enforceFocus e w = md_upd e (md_focusin_update (\<lambda>_. True)) (md_upd_all (md_focusin_update (\<lambda>_. False)) w)"

subsection \<open>Showing and hiding\<close>

definition modal_shown :: "elem \<Rightarrow> modal \<Rightarrow> elem option \<Rightarrow> modal_world \<Rightarrow> modal_world" where
  "modal_shown e m rel w =
     (let w = (if truthy (get (md_config m) ''focus'') then on_dom (focus e) w else w)
      in on_dom (fire MD_SHOWN rel e) (md_upd e (md_isTransitioning_update (\<lambda>_. False)) w))"

definition showElement :: "elem \<Rightarrow> modal \<Rightarrow> elem option \<Rightarrow> modal_world \<Rightarrow> modal_world" where
  "showElement e m rel w =
     (let transition = has_transition w \<and> hasClass e ''fade'' (dm w);
          w = (if parent_of (dtree (dm w)) e = None then on_dom (append_to_body e) w else w);
          w = on_dom (addClass ''show'' e \<circ> removeAttr ''aria-hidden'' e \<circ> setStyle ''display'' ''block'' e) w;
          w = (if truthy (get (md_config m) ''focus'') then enforceFocus e w else w)
      in if transition
         then (case md_dialog m of None \<Rightarrow> w | Some x \<Rightarrow> await_end x (ShowComplete e (md_gen m) rel) w)
         else modal_shown e m rel w)"

text \<open>The \<open>hidden\<close> event gives the focus back to the toggles that wait for it.\<close>

definition restore_focus :: "elem \<Rightarrow> modal_world \<Rightarrow> modal_world" where
  "restore_focus e w =
     (let ts = sl_restore (slot e w)
      in set_slot e ((slot e w)\<lparr>sl_restore := []\<rparr>)
           (on_dom (\<lambda>d. fold (\<lambda>t d. if visible (env d) (event_log d) t then focus t d else d) ts d) w))"

definition modal_hidden :: "elem \<Rightarrow> modal_world \<Rightarrow> modal_world" where
  "modal_hidden e w =
     restore_focus e
       (on_dom (\<lambda>d. fire MD_HIDDEN None e (resetScrollbar (resetAdjustments e (removeClass ''modal-open'' (body_elem (dtree d)) d)))) w)"

definition run_after :: "elem \<Rightarrow> nat \<Rightarrow> after_backdrop \<Rightarrow> modal_world \<Rightarrow> modal_world" where
  "run_after e g a w =
     (case modal_obj e g w of
        Some m \<Rightarrow> (case a of ThenShow rel \<Rightarrow> showElement e m rel w | ThenHidden \<Rightarrow> modal_hidden e w)
      | None \<Rightarrow> (case a of ThenShow rel \<Rightarrow> w
                 | ThenHidden \<Rightarrow> on_dom (\<lambda>d. removeClass ''modal-open'' (body_elem (dtree d)) d) w))"

text \<open>\<open>$(b).remove()\<close> also takes the handlers off b.\<close>

definition jq_remove :: "elem \<Rightarrow> modal_world \<Rightarrow> modal_world" where
  "jq_remove b w = on_dom (detach b) (w\<lparr>bound := filter (\<lambda>(i, x, h). x \<noteq> b) (bound w)\<rparr>)"

definition removeBackdrop :: "elem \<Rightarrow> nat \<Rightarrow> modal_world \<Rightarrow> modal_world" where
  "removeBackdrop e g w =
     (case modal_obj e g w of
        None \<Rightarrow> w
      | Some m \<Rightarrow>
          (case md_backdrop m of
             None \<Rightarrow> w
           | Some b \<Rightarrow> md_upd e (md_backdrop_update (\<lambda>_. None)) (jq_remove b w)))"

definition new_backdrop :: "elem \<Rightarrow> modal_world \<Rightarrow> modal_world" where
  "new_backdrop e w =
     (let b = fresh_elem (dm w);
          fade = hasClass e ''fade'' (dm w);
          w = on_dom (append_to_body b \<circ> createElement ''div'' (if fade then [''modal-backdrop'', ''fade''] else [''modal-backdrop'']) b) w;
          w = md_upd e (\<lambda>m. m\<lparr>md_backdrop := Some b, md_backdropClick := True\<rparr>) w
      in on_dom (addClass ''show'' b) w)"

definition showBackdrop :: "elem \<Rightarrow> nat \<Rightarrow> after_backdrop \<Rightarrow> modal_world \<Rightarrow> modal_world" where
  "showBackdrop e g a w =
     (case modal_obj e g w of
        None \<Rightarrow> w
      | Some m \<Rightarrow>
          let animate = has_transition w \<and> hasClass e ''fade'' (dm w)
          in if md_isShown m \<and> truthy (get (md_config m) ''backdrop'')
             then
               let w' = new_backdrop e w
               in if animate then await_end (fresh_elem (dm w)) (AfterBackdrop e g a) w' else run_after e g a w'
             else
               (case (md_isShown m, md_backdrop m) of
                  (False, Some b) \<Rightarrow>
                    (let w = on_dom (removeClass ''show'' b) w
                     in if animate then await_end b (AfterRemove e g a) w
                        else run_after e g a (removeBackdrop e g w))
                | _ \<Rightarrow> run_after e g a w))"

text \<open>The handlers of the data API see the \<open>show\<close> event.\<close>

definition arm_restore :: "elem \<Rightarrow> bool \<Rightarrow> modal_world \<Rightarrow> modal_world" where
  "arm_restore e prevented w =
     (let s = slot e w
      in set_slot e (s\<lparr>sl_armed := [], sl_restore := sl_restore s @ (if prevented then [] else sl_armed s)\<rparr>) w)"

definition show_prepare :: "elem \<Rightarrow> modal_world \<Rightarrow> modal_world" where
  "show_prepare e w =
     (let w = md_upd e (md_isShown_update (\<lambda>_. True)) w;
          w = checkScrollbar e w;
          w = (case modal_at e w of
                 None \<Rightarrow> w
               | Some m \<Rightarrow> if md_isBodyOverflowing m then on_dom (setScrollbar (md_scrollbarWidth m)) w else w);
          w = handleUpdate e w;
          w = on_dom (\<lambda>d. addClass ''modal-open'' (body_elem (dtree d)) d) w;
          w = setResizeEvent e (setEscapeEvent e w)
      in md_upd e (\<lambda>m. m\<lparr>md_dismiss := True, md_mousedown := md_dialog m \<noteq> None\<rparr>) w)"

definition modal_show :: "elem \<Rightarrow> elem option \<Rightarrow> modal_world \<Rightarrow> modal_world" where
  "modal_show e rel w =
     (case modal_at e w of
        None \<Rightarrow> w
      | Some m \<Rightarrow>
          if md_isTransitioning m \<or> md_isShown m then w
          else
            let w = (if has_transition w \<and> hasClass e ''fade'' (dm w) then md_upd e (md_isTransitioning_update (\<lambda>_. True)) w else w);
                (prevented, d) = trigger MD_SHOW rel e (dm w);
                w = arm_restore e prevented (w\<lparr>dm := d\<rparr>)
            in if prevented then w else showBackdrop e (md_gen m) (ThenShow rel) (show_prepare e w))"

definition hideModal :: "elem \<Rightarrow> nat \<Rightarrow> modal_world \<Rightarrow> modal_world" where
  "hideModal e g w =
     (case modal_obj e g w of
        None \<Rightarrow> w
      | Some m \<Rightarrow>
          showBackdrop e g ThenHidden
            (md_upd e (md_isTransitioning_update (\<lambda>_. False))
              (on_dom (setAttr ''aria-hidden'' ''true'' e \<circ> setStyle ''display'' ''none'' e) w)))"

definition modal_hide_go :: "elem \<Rightarrow> nat \<Rightarrow> modal_world \<Rightarrow> modal_world" where
  "modal_hide_go e g w =
     (let transition = has_transition w \<and> hasClass e ''fade'' (dm w);
          w = md_upd e (\<lambda>m. m\<lparr>md_isShown := False, md_isTransitioning := md_isTransitioning m \<or> transition\<rparr>) w;
          w = setResizeEvent e (setEscapeEvent e w);
          w = md_upd_all (md_focusin_update (\<lambda>_. False)) w;
          w = on_dom (removeClass ''show'' e) w;
          w = md_upd e (\<lambda>m. m\<lparr>md_dismiss := False, md_backdropClick := False, md_mousedown := False\<rparr>) w
      in if transition then await_end e (HideModal e g) w else hideModal e g w)"

definition modal_hide :: "elem \<Rightarrow> modal_world \<Rightarrow> modal_world" where
  "modal_hide e w =
     (case modal_at e w of
        None \<Rightarrow> w
      | Some m \<Rightarrow>
          if md_isTransitioning m \<or> \<not> md_isShown m then w
          else
            let (prevented, d) = trigger MD_HIDE None e (dm w);
                w = w\<lparr>dm := d\<rparr>
            in if prevented then w else modal_hide_go e (md_gen m) w)"

definition modal_toggle :: "elem \<Rightarrow> elem option \<Rightarrow> modal_world \<Rightarrow> modal_world" where
  "modal_toggle e rel w =
     (case modal_at e w of
        None \<Rightarrow> w
      | Some m \<Rightarrow> if md_isShown m then modal_hide e w else modal_show e rel w)"

text \<open>The callbacks at the end of a transition.\<close>

fun modal_run :: "modal_cb \<Rightarrow> modal_world \<Rightarrow> modal_world" where
  "modal_run (AfterBackdrop e g a) w = run_after e g a w"
| "modal_run (AfterRemove e g a) w = run_after e g a (removeBackdrop e g w)"
| "modal_run (ShowComplete e g rel) w = (case modal_obj e g w of None \<Rightarrow> w | Some m \<Rightarrow> modal_shown e m rel w)"
| "modal_run (HideModal e g) w = hideModal e g w"

text \<open>
  \<open>$(window, document, element, backdrop)\<close> is \<open>$(window)\<close>: the further arguments are not elements of
  the set, so only the handlers of the window are taken off.
\<close>

definition modal_dispose :: "elem \<Rightarrow> modal_world \<Rightarrow> modal_world" where
  "modal_dispose e w = set_slot e ((slot e w)\<lparr>sl_modal := None\<rparr>) (md_upd_all (md_resize_update (\<lambda>_. False)) w)"

subsection \<open>Handlers of a shown modal\<close>

definition modal_focusin :: "elem \<Rightarrow> elem \<Rightarrow> modal_world \<Rightarrow> modal_world" where
  "modal_focusin e t w =
     (case modal_at e w of
        None \<Rightarrow> w
      | Some m \<Rightarrow> if md_focusin m \<and> e \<noteq> t \<and> \<not> is_desc (dtree (dm w)) e t then on_dom (focus e) w else w)"

definition modal_escape :: "elem \<Rightarrow> nat \<Rightarrow> modal_world \<Rightarrow> modal_world" where
  "modal_escape e which w =
     (case modal_at e w of None \<Rightarrow> w | Some m \<Rightarrow> if md_keydown m \<and> which = 27 then modal_hide e w else w)"

definition modal_resize :: "elem \<Rightarrow> modal_world \<Rightarrow> modal_world" where
  "modal_resize e w = (case modal_at e w of None \<Rightarrow> w | Some m \<Rightarrow> if md_resize m then handleUpdate e w else w)"

definition modal_mousedown :: "elem \<Rightarrow> elem \<Rightarrow> modal_world \<Rightarrow> modal_world" where
  "modal_mousedown e t w =
     (case modal_at e w of
        None \<Rightarrow> w
      | Some m \<Rightarrow>
          if md_mousedown m \<and> (case md_dialog m of None \<Rightarrow> False | Some x \<Rightarrow> in_subtree (dtree (dm w)) x t)
          then md_upd e (md_mouseup_update (\<lambda>_. True)) w else w)"

definition modal_mouseup :: "elem \<Rightarrow> elem \<Rightarrow> modal_world \<Rightarrow> modal_world" where
  "modal_mouseup e t w =
     (case modal_at e w of
        None \<Rightarrow> w
      | Some m \<Rightarrow>
          if md_mouseup m
          then md_upd e (\<lambda>m. m\<lparr>md_mouseup := False, md_ignoreBackdropClick := md_ignoreBackdropClick m \<or> t = e\<rparr>) w
          else w)"

definition backdrop_click :: "elem \<Rightarrow> elem \<Rightarrow> modal_world \<Rightarrow> modal_world" where
  "backdrop_click e t w =
     (case modal_at e w of
        None \<Rightarrow> w
      | Some m \<Rightarrow>
          if md_ignoreBackdropClick m then md_upd e (md_ignoreBackdropClick_update (\<lambda>_. False)) w
          else if t \<noteq> e then w
          else if get (md_config m) ''backdrop'' = JStr ''static'' then on_dom (focus e) w
          else modal_hide e w)"

text \<open>A click inside the modal: the dismiss buttons first, then the handler of the element itself.\<close>

definition modal_click :: "elem \<Rightarrow> elem \<Rightarrow> modal_world \<Rightarrow> modal_world" where
  "modal_click e t w =
     (case modal_at e w of
        None \<Rightarrow> w
      | Some m \<Rightarrow>
          let path = takeWhile (\<lambda>x. x \<noteq> e) (t # ancestors (dtree (dm w)) t);
              w = (if md_dismiss m \<and> list_ex (is_modal_dismiss (dm w)) path then modal_hide e w else w)
          in if md_backdropClick m then backdrop_click e t w else w)"

subsection \<open>The plugin and the data API\<close>

definition modal_getConfig :: "jsobj \<Rightarrow> js_error + jsobj" where
  "modal_getConfig config =
     (let config = extends modal_Default config
      in case typeCheckConfig ''modal'' config modal_DefaultType of Inl err \<Rightarrow> Inl err | Inr _ \<Rightarrow> Inr config)"

definition new_modal :: "elem \<Rightarrow> jsobj \<Rightarrow> modal_world \<Rightarrow> js_error + modal_world" where
  "new_modal e config w =
     (case modal_getConfig config of
        Inl err \<Rightarrow> Inl err
      | Inr cfg \<Rightarrow>
          Inr (set_slot e ((slot e w)\<lparr>sl_modal := Some
                 \<lparr>md_gen = next_id w, md_config = cfg, md_dialog = first (jq_find is_dialog e (dm w)), md_backdrop = None,
                  md_isShown = False, md_isBodyOverflowing = False, md_ignoreBackdropClick = False, md_scrollbarWidth = 0,
                  md_isTransitioning = False, md_keydown = False, md_dismiss = False, md_backdropClick = False,
                  md_mousedown = False, md_mouseup = False, md_resize = False, md_focusin = False\<rparr>\<rparr>)
                (w\<lparr>next_id := Suc (next_id w)\<rparr>)))"

definition modal_method :: "string \<Rightarrow> elem option \<Rightarrow> elem \<Rightarrow> modal_world \<Rightarrow> js_error + modal_world" where
  "modal_method m rel e w =
     (if m = ''toggle'' then Inr (modal_toggle e rel w)
      else if m = ''show'' then Inr (modal_show e rel w)
      else if m = ''hide''
      then (if rel \<noteq> None then Inl (TypeErrorMsg ''event.preventDefault is not a function'') else Inr (modal_hide e w))
      else if m = ''dispose'' then Inr (modal_dispose e w)
      else if m = ''handleUpdate'' then Inr (handleUpdate e w)
      else Inl (no_method m))"

definition modal_each :: "plugin_arg \<Rightarrow> elem option \<Rightarrow> elem \<Rightarrow> modal_world \<Rightarrow> js_error + modal_world" where
  "modal_each config rel e w =
     (let cfg = extends (extends modal_Default (data_of (dm w) e)) (case config of ObjArg ob \<Rightarrow> ob | _ \<Rightarrow> (\<lambda>_. None))
      in case (if modal_at e w = None then new_modal e cfg w else Inr w) of
           Inl err \<Rightarrow> Inl err
         | Inr w \<Rightarrow>
             (case config of
                StrArg m \<Rightarrow> modal_method m rel e w
              | _ \<Rightarrow> Inr (if truthy (get cfg ''show'') then modal_show e rel w else w)))"

definition modal_jQueryInterface :: "plugin_arg \<Rightarrow> elem option \<Rightarrow> elem list \<Rightarrow> modal_world \<Rightarrow> js_error + modal_world" where
  "modal_jQueryInterface config rel es w = each_err (modal_each config rel) es w"

definition modal_toggle_click :: "elem \<Rightarrow> modal_world \<Rightarrow> js_error + modal_world" where
  "modal_toggle_click t w =
     (case target_of t (dm w) of
        None \<Rightarrow> Inr w
      | Some e \<Rightarrow>
          let config = (if modal_at e w \<noteq> None then StrArg ''toggle''
                        else ObjArg (extends (data_of (dm w) e) (data_of (dm w) t)));
              w = set_slot e ((slot e w)\<lparr>sl_armed := sl_armed (slot e w) @ [t]\<rparr>) w
          in modal_jQueryInterface config (Some t) [e] w)"

subsection \<open>The scrollbar adjustments are undone\<close>

lemma save_and_add_frame [simp]:
  "dtree (save_and_add k v e d) = dtree d" "class_of (save_and_add k v e d) = class_of d" "env (save_and_add k v e d) = env d"
  "attr_of (save_and_add k v e d) = attr_of d" "event_log (save_and_add k v e d) = event_log d"
  by (simp_all add: save_and_add_def)

lemma css_set_frame [simp]:
  "dtree (css_set k v e d) = dtree d" "class_of (css_set k v e d) = class_of d" "env (css_set k v e d) = env d"
  "attr_of (css_set k v e d) = attr_of d" "event_log (css_set k v e d) = event_log d" "data_of (css_set k v e d) = data_of d"
  by (simp_all add: css_set_def split: jsval.split)

lemma restore_css_frame [simp]:
  "dtree (restore_css k e d) = dtree d" "class_of (restore_css k e d) = class_of d" "env (restore_css k e d) = env d"
  "attr_of (restore_css k e d) = attr_of d" "event_log (restore_css k e d) = event_log d"
  by (simp_all add: restore_css_def Let_def)

lemma fold_save_frame [simp]:
  "dtree (fold (save_and_add k v) xs d) = dtree d" "class_of (fold (save_and_add k v) xs d) = class_of d"
  "env (fold (save_and_add k v) xs d) = env d" "attr_of (fold (save_and_add k v) xs d) = attr_of d"
  "event_log (fold (save_and_add k v) xs d) = event_log d"
  by (rule fold_frame, simp)+

lemma fold_restore_frame [simp]:
  "dtree (fold (restore_css k) xs d) = dtree d" "class_of (fold (restore_css k) xs d) = class_of d"
  "env (fold (restore_css k) xs d) = env d" "attr_of (fold (restore_css k) xs d) = attr_of d"
  "event_log (fold (restore_css k) xs d) = event_log d"
  by (rule fold_frame, simp)+

lemma save_and_add_at:
  "style_of (save_and_add k v e d) x j = (if x = e \<and> j = k then px (css_num k e d + v) else style_of d x j)"
  "data_of (save_and_add k v e d) x j = (if x = e \<and> j = k then Some (JStr (style_of d e k)) else data_of d x j)"
  by (auto simp: save_and_add_def setStyle_def setData_def)

text \<open>A pass of saving over distinct elements keeps each old inline value in the data.\<close>

lemma fold_save_at:
  "style_of (fold (save_and_add k v) xs d) x j = style_of d x j \<and> data_of (fold (save_and_add k v) xs d) x j = data_of d x j"
  if "j \<noteq> k \<or> x \<notin> set xs"
  using that by (induction xs arbitrary: d) (auto simp: save_and_add_at)

lemma fold_save_data:
  "distinct xs \<Longrightarrow> x \<in> set xs \<Longrightarrow> data_of (fold (save_and_add k v) xs d) x k = Some (JStr (style_of d x k))"
proof (induction xs arbitrary: d)
  case (Cons y ys)
  then show ?case by (cases "x = y") (auto simp: fold_save_at save_and_add_at)
qed simp

lemma restore_css_at:
  "x \<noteq> e \<or> j \<noteq> k \<Longrightarrow> style_of (restore_css k e d) x j = style_of d x j \<and> data_of (restore_css k e d) x j = data_of d x j"
  "data_of d e k = Some (JStr s) \<Longrightarrow> style_of (restore_css k e d) e k = s \<and> data_of (restore_css k e d) e k = None"
  "data_of d e k = None \<Longrightarrow> restore_css k e d = d"
  by (auto simp: restore_css_def css_set_def setStyle_def removeData_def get_def Let_def split: jsval.split)

lemma fold_restore_at:
  "style_of (fold (restore_css k) xs d) x j = style_of d x j \<and> data_of (fold (restore_css k) xs d) x j = data_of d x j"
  if "j \<noteq> k \<or> x \<notin> set xs"
  using that by (induction xs arbitrary: d) (auto simp: restore_css_at)

lemma fold_restore_none:
  "data_of d x k = None \<Longrightarrow>
     style_of (fold (restore_css k) xs d) x k = style_of d x k \<and> data_of (fold (restore_css k) xs d) x k = None"
proof (induction xs arbitrary: d)
  case (Cons y ys)
  then show ?case by (cases "x = y") (auto simp: restore_css_at)
qed simp

lemma fold_restore_saved:
  "x \<in> set xs \<Longrightarrow> data_of d x k = Some (JStr s) \<Longrightarrow>
     style_of (fold (restore_css k) xs d) x k = s \<and> data_of (fold (restore_css k) xs d) x k = None"
proof (induction xs arbitrary: d)
  case (Cons y ys)
  show ?case
  proof (cases "x = y")
    case True
    then show ?thesis using restore_css_at(2) [OF Cons.prems(2)] fold_restore_none [of "restore_css k y d" x k ys] by simp
  next
    case False
    then show ?thesis using Cons by (simp add: restore_css_at)
  qed
qed simp

text \<open>The selectors look at classes only.\<close>

lemma fixed_selectors_cong:
  assumes "dtree d' = dtree d" "class_of d' = class_of d"
  shows "jq_all is_fixed_content d' = jq_all is_fixed_content d" "jq_all is_sticky d' = jq_all is_sticky d"
    "jq_all is_navbar_toggler d' = jq_all is_navbar_toggler d"
    "jq_all (\<lambda>d x. is_sticky d x \<or> is_navbar_toggler d x) d' = jq_all (\<lambda>d x. is_sticky d x \<or> is_navbar_toggler d x) d"
  by (simp_all add: assms jq_all_def is_fixed_content_def is_sticky_def is_navbar_toggler_def hasClass_def [abs_def] cong: filter_cong)

text \<open>The elements whose property k is adjusted.\<close>

definition adjusted :: "string \<Rightarrow> dom \<Rightarrow> elem set" where
  "adjusted k d =
     (if k = ''padding-right'' then insert (body_elem (dtree d)) (set (jq_all is_fixed_content d))
      else if k = ''margin-right'' then set (jq_all is_sticky d) \<union> set (jq_all is_navbar_toggler d)
      else {})"

lemma setScrollbar_frame [simp]:
  "dtree (setScrollbar v d) = dtree d" "class_of (setScrollbar v d) = class_of d" "env (setScrollbar v d) = env d"
  "attr_of (setScrollbar v d) = attr_of d" "event_log (setScrollbar v d) = event_log d"
  by (simp_all add: setScrollbar_def Let_def)

lemma resetScrollbar_frame [simp]:
  "dtree (resetScrollbar d) = dtree d" "class_of (resetScrollbar d) = class_of d" "env (resetScrollbar d) = env d"
  "attr_of (resetScrollbar d) = attr_of d" "event_log (resetScrollbar d) = event_log d"
  by (simp_all add: resetScrollbar_def Let_def)

lemma setScrollbar_stages:
  "setScrollbar v d =
     save_and_add ''padding-right'' v (body_elem (dtree d))
       (fold (save_and_add ''margin-right'' v) (jq_all is_navbar_toggler d)
         (fold (save_and_add ''margin-right'' (- v)) (jq_all is_sticky d)
           (fold (save_and_add ''padding-right'' v) (jq_all is_fixed_content d) d)))"
  unfolding setScrollbar_def Let_def by (simp add: fixed_selectors_cong [of "fold _ _ _" d])

lemma resetScrollbar_stages:
  "resetScrollbar d =
     restore_css ''padding-right'' (body_elem (dtree d))
       (fold (restore_css ''margin-right'') (jq_all (\<lambda>d x. is_sticky d x \<or> is_navbar_toggler d x) d)
         (fold (restore_css ''padding-right'') (jq_all is_fixed_content d) d))"
  unfolding resetScrollbar_def Let_def by (simp add: fixed_selectors_cong [of "fold _ _ _" d])

lemma setScrollbar_saves:
  assumes dist: "distinct (node_order (dtree d))" and body: "\<not> is_fixed_content d (body_elem (dtree d))"
    and sep: "\<forall>x. is_sticky d x \<longrightarrow> \<not> is_navbar_toggler d x"
  shows "x \<in> adjusted k d \<Longrightarrow> data_of (setScrollbar v d) x k = Some (JStr (style_of d x k))"
    and "x \<notin> adjusted k d \<Longrightarrow> style_of (setScrollbar v d) x k = style_of d x k \<and> data_of (setScrollbar v d) x k = data_of d x k"
proof -
  have di: "distinct (jq_all sel d)" for sel using dist by (simp add: jq_all_def document_elems_def)
  have bf: "body_elem (dtree d) \<notin> set (jq_all is_fixed_content d)" using body by (simp add: set_jq_all)
  have ss: "x \<in> set (jq_all is_navbar_toggler d) \<Longrightarrow> x \<notin> set (jq_all is_sticky d)" using sep by (auto simp: set_jq_all)
  note at = save_and_add_at fold_save_at fold_save_data [OF di]
  show "data_of (setScrollbar v d) x k = Some (JStr (style_of d x k))" if "x \<in> adjusted k d"
  proof (cases "k = ''padding-right''")
    case True
    then show ?thesis using that bf by (cases "x = body_elem (dtree d)") (auto simp: adjusted_def setScrollbar_stages at)
  next
    case False
    then have "k = ''margin-right''" using that by (simp add: adjusted_def split: if_splits)
    then show ?thesis using that ss
      by (cases "x \<in> set (jq_all is_navbar_toggler d)") (auto simp: adjusted_def setScrollbar_stages at)
  qed
  show "style_of (setScrollbar v d) x k = style_of d x k \<and> data_of (setScrollbar v d) x k = data_of d x k" if "x \<notin> adjusted k d"
    using that by (auto simp: adjusted_def setScrollbar_stages at split: if_splits)
qed

lemma resetScrollbar_restores:
  "x \<in> adjusted k d \<Longrightarrow> data_of d x k = Some (JStr s) \<Longrightarrow>
     style_of (resetScrollbar d) x k = s \<and> data_of (resetScrollbar d) x k = None"
  "x \<notin> adjusted k d \<Longrightarrow> style_of (resetScrollbar d) x k = style_of d x k \<and> data_of (resetScrollbar d) x k = data_of d x k"
proof -
  let ?M = "jq_all (\<lambda>d x. is_sticky d x \<or> is_navbar_toggler d x) d"
  have un: "set ?M = set (jq_all is_sticky d) \<union> set (jq_all is_navbar_toggler d)" by (auto simp: set_jq_all)
  note at = restore_css_at fold_restore_at fold_restore_saved fold_restore_none
  show "style_of (resetScrollbar d) x k = s \<and> data_of (resetScrollbar d) x k = None"
    if x: "x \<in> adjusted k d" and s: "data_of d x k = Some (JStr s)"
  proof (cases "k = ''margin-right''")
    case True
    then show ?thesis using x s un by (simp add: adjusted_def resetScrollbar_stages at)
  next
    case False
    then have k: "k = ''padding-right''" using x by (simp add: adjusted_def split: if_splits)
    show ?thesis
    proof (cases "x \<in> set (jq_all is_fixed_content d)")
      case True
      then show ?thesis using k s by (cases "x = body_elem (dtree d)") (simp_all add: resetScrollbar_stages at)
    next
      case False
      then show ?thesis using x k s by (simp add: adjusted_def resetScrollbar_stages at)
    qed
  qed
  show "style_of (resetScrollbar d) x k = style_of d x k \<and> data_of (resetScrollbar d) x k = data_of d x k" if "x \<notin> adjusted k d"
    using that un by (auto simp: adjusted_def resetScrollbar_stages at split: if_splits)
qed

text \<open>
  C9: hiding undoes what showing did for the scrollbar. On a document whose fixed content, sticky
  content, navbar togglers and body carry no saved value yet, where no sticky element is a navbar
  toggler and the body is no fixed content, \<open>_resetScrollbar\<close> after \<open>_setScrollbar\<close> gives every
  element its inline styles and its data back, whatever the scrollbar's width.
\<close>

theorem scrollbar_roundtrip:
  assumes dist: "distinct (node_order (dtree d))"
    and fresh: "\<And>k x. x \<in> adjusted k d \<Longrightarrow> data_of d x k = None"
    and body: "\<not> is_fixed_content d (body_elem (dtree d))"
    and sep: "\<And>x. is_sticky d x \<Longrightarrow> \<not> is_navbar_toggler d x"
  shows "style_of (resetScrollbar (setScrollbar width d)) = style_of d \<and> data_of (resetScrollbar (setScrollbar width d)) = data_of d"
proof -
  let ?s = "setScrollbar width d"
  have adj: "adjusted k ?s = adjusted k d" for k by (simp add: adjusted_def fixed_selectors_cong [of ?s d])
  have "\<forall>x. is_sticky d x \<longrightarrow> \<not> is_navbar_toggler d x" using sep by simp
  note saved = setScrollbar_saves [OF dist body this]
  have "style_of (resetScrollbar ?s) x k = style_of d x k \<and> data_of (resetScrollbar ?s) x k = data_of d x k" for x k
  proof (cases "x \<in> adjusted k d")
    case True
    then show ?thesis using resetScrollbar_restores(1) [of x k ?s] saved(1) [OF True] fresh [OF True] adj by simp
  next
    case False
    then show ?thesis using resetScrollbar_restores(2) [of x k ?s] saved(2) [OF False] adj by simp
  qed
  then show ?thesis by (intro conjI ext) simp_all
qed

subsection \<open>Objects under updates\<close>

lemma slot_simps [simp]:
  "slot e (set_slot e' s w) = (if e = e' then s else slot e w)"
  "slot e (on_dom f w) = slot e w" "slot e (await_end y cb w) = slot e w"
  "slot e (w\<lparr>dm := d\<rparr>) = slot e w" "slot e (w\<lparr>bound := bs\<rparr>) = slot e w"
  "slot e (w\<lparr>called := c\<rparr>) = slot e w" "slot e (unbind i w) = slot e w"
  "slot e (w\<lparr>timers := ts\<rparr>) = slot e w"
  by (simp_all add: slot_def set_slot_def)

lemma set_slot_frame [simp]:
  "dm (set_slot e s w) = dm w" "bound (set_slot e s w) = bound w" "has_transition (set_slot e s w) = has_transition w"
  "later (set_slot e s w) = later w" "intervals (set_slot e s w) = intervals w" "next_id (set_slot e s w) = next_id w" "timers (set_slot e s w) = timers w" "called (set_slot e s w) = called w"
  by (simp_all add: set_slot_def)

lemma md_upd_frame [simp]:
  "dm (md_upd e f w) = dm w" "bound (md_upd e f w) = bound w" "has_transition (md_upd e f w) = has_transition w"
  "later (md_upd e f w) = later w" "intervals (md_upd e f w) = intervals w" "next_id (md_upd e f w) = next_id w" "timers (md_upd e f w) = timers w" "called (md_upd e f w) = called w"
  by (simp_all add: md_upd_def)

lemma md_upd_all_frame [simp]:
  "dm (md_upd_all f w) = dm w" "bound (md_upd_all f w) = bound w" "has_transition (md_upd_all f w) = has_transition w"
  "later (md_upd_all f w) = later w" "intervals (md_upd_all f w) = intervals w" "next_id (md_upd_all f w) = next_id w" "timers (md_upd_all f w) = timers w" "called (md_upd_all f w) = called w"
  by (simp_all add: md_upd_all_def)

lemma modal_at_simps [simp]:
  "modal_at e (md_upd e' f w) = (if e = e' then map_option f (modal_at e w) else modal_at e w)"
  "modal_at e (md_upd_all f w) = map_option f (modal_at e w)"
  "modal_at e (on_dom h w) = modal_at e w" "modal_at e (await_end y cb w) = modal_at e w"
  "modal_at e (w\<lparr>dm := d\<rparr>) = modal_at e w" "modal_at e (w\<lparr>bound := bs\<rparr>) = modal_at e w"
  "modal_at e (w\<lparr>called := c\<rparr>) = modal_at e w" "modal_at e (unbind i w) = modal_at e w"
  "modal_at e (w\<lparr>timers := ts\<rparr>) = modal_at e w"
  by (simp_all add: modal_at_def md_upd_def)
     (simp add: md_upd_all_def slot_def empty_slot_def split: option.split)

lemma modal_at_restore [simp]:
  "modal_at e (restore_focus e' w) = modal_at e w" "bound (restore_focus e' w) = bound w"
  "has_transition (restore_focus e' w) = has_transition w" "later (restore_focus e' w) = later w" "intervals (restore_focus e' w) = intervals w"
  by (simp_all add: modal_at_def restore_focus_def Let_def)

lemma modal_at_arm [simp]:
  "modal_at e (arm_restore e' p w) = modal_at e w" "bound (arm_restore e' p w) = bound w"
  "has_transition (arm_restore e' p w) = has_transition w" "later (arm_restore e' p w) = later w"
  "intervals (arm_restore e' p w) = intervals w" "dm (arm_restore e' p w) = dm w"
  by (simp_all add: modal_at_def arm_restore_def Let_def)

definition focus_all :: "elem list \<Rightarrow> dom \<Rightarrow> dom" where
  "focus_all ts d = fold (\<lambda>t d. if visible (env d) (event_log d) t then focus t d else d) ts d"

lemma focus_all_frame [simp]:
  "dtree (focus_all ts d) = dtree d" "class_of (focus_all ts d) = class_of d" "style_of (focus_all ts d) = style_of d"
  "env (focus_all ts d) = env d" "event_log (focus_all ts d) = event_log d" "attr_of (focus_all ts d) = attr_of d"
  unfolding focus_all_def by (rule fold_frame, simp)+

lemma dm_restore_focus: "dm (restore_focus e w) = focus_all (sl_restore (slot e w)) (dm w)"
  by (simp add: restore_focus_def focus_all_def Let_def)

lemma restore_focus_dom [simp]:
  "dtree (dm (restore_focus e w)) = dtree (dm w)" "class_of (dm (restore_focus e w)) = class_of (dm w)"
  "style_of (dm (restore_focus e w)) = style_of (dm w)" "env (dm (restore_focus e w)) = env (dm w)"
  "event_log (dm (restore_focus e w)) = event_log (dm w)" "attr_of (dm (restore_focus e w)) = attr_of (dm w)"
  by (simp_all add: dm_restore_focus)

lemma adjust_frame [simp]:
  "dtree (adjustDialog e m d) = dtree d" "class_of (adjustDialog e m d) = class_of d" "env (adjustDialog e m d) = env d"
  "event_log (adjustDialog e m d) = event_log d" "attr_of (adjustDialog e m d) = attr_of d"
  "dtree (resetAdjustments e d) = dtree d" "class_of (resetAdjustments e d) = class_of d" "env (resetAdjustments e d) = env d"
  "event_log (resetAdjustments e d) = event_log d" "attr_of (resetAdjustments e d) = attr_of d"
  by (simp_all add: adjustDialog_def resetAdjustments_def Let_def)

subsection \<open>New elements\<close>

lemma fold_max: "(y :: nat) \<le> a \<or> y \<in> set xs \<Longrightarrow> y \<le> fold max xs a"
proof (induction xs arbitrary: a)
  case (Cons x xs)
  have "y \<le> max x a \<or> y \<in> set xs" using Cons.prems by auto
  from Cons.IH [OF this] show ?case by simp
qed simp

lemma fresh_elem_notin: "fresh_elem d \<notin> set (node_order (dtree d))"
proof
  assume "fresh_elem d \<in> set (node_order (dtree d))"
  then have "fresh_elem d \<le> fold max (node_order (dtree d)) 0" by (rule fold_max [OF disjI2])
  then show False by (simp add: fresh_elem_def)
qed

definition tree_ok :: "tree \<Rightarrow> bool" where
  "tree_ok t \<longleftrightarrow> body_elem t \<in> set (node_order t)
     \<and> (\<forall>x \<in> set (node_order t). case parent_of t x of None \<Rightarrow> True | Some p \<Rightarrow> p \<in> set (node_order t))"

lemma tree_ok_parent: "tree_ok t \<Longrightarrow> x \<in> set (node_order t) \<Longrightarrow> parent_of t x = Some p \<Longrightarrow> p \<in> set (node_order t)"
  by (fastforce simp: tree_ok_def split: option.splits)

lemma tree_ok_chain: "tree_ok t \<Longrightarrow> x \<in> set (node_order t) \<Longrightarrow> set (chain n (parent_of t) x) \<subseteq> set (node_order t)"
proof (induction n arbitrary: x)
  case (Suc n)
  show ?case
  proof (cases "parent_of t x")
    case (Some p)
    then have "p \<in> set (node_order t)" using tree_ok_parent [OF Suc.prems] by simp
    then show ?thesis using Suc.IH [OF Suc.prems(1)] Some by simp
  qed simp
qed simp

lemma append_fresh:
  assumes "tree_ok (dtree d)" "s \<notin> set (node_order (dtree d))"
  shows "dtree (append_to_body s d) = (dtree d)\<lparr>node_order := node_order (dtree d) @ [s], parent_of := (parent_of (dtree d))(s \<mapsto> body_elem (dtree d))\<rparr>"
proof -
  have "\<not> in_subtree (dtree d) s x" if "x \<in> set (node_order (dtree d))" for x
    using that assms tree_ok_chain [OF assms(1) that] by (auto simp: in_subtree_def is_desc_def ancestors_def)
  then show ?thesis using assms(2) by (simp add: append_to_body_def Let_def)
qed

lemma createElement_frame [simp]:
  "dtree (createElement t c x d) = dtree d" "env (createElement t c x d) = env d" "event_log (createElement t c x d) = event_log d"
  "hasClass y k (createElement t c x d) = (if y = x then k \<in> set c else hasClass y k d)"
  "style_of (createElement t c x d) y = (if y = x then (\<lambda>_. []) else style_of d y)"
  by (simp_all add: createElement_def hasClass_def)

lemma hasClass_moved [simp]:
  "hasClass y k (append_to_body x d) = hasClass y k d" "hasClass y k (detach x d) = hasClass y k d"
  by (simp_all add: hasClass_def)

lemma hasClass_scroll [simp]:
  "hasClass y k (setScrollbar v d) = hasClass y k d" "hasClass y k (resetScrollbar d) = hasClass y k d"
  "hasClass y k (adjustDialog e m d) = hasClass y k d" "hasClass y k (resetAdjustments e d) = hasClass y k d"
  "hasClass y k (dm (restore_focus e w)) = hasClass y k (dm w)"
  by (simp_all add: hasClass_def)

subsection \<open>The phases of a modal\<close>

text \<open>
  The contract of a fading modal: hidden, then the backdrop comes in, then the dialog, then it is
  shown, and back in the same order. \<open>phase_next\<close> is the abstract machine and \<open>phase_of\<close> reads the
  phase off the object and its element.
\<close>

datatype phase = Hidden | BackdropIn | DialogIn | Shown | DialogOut | BackdropOut

datatype phase_input = AShow | AHide | AToggle | AEnd | ANothing

fun phase_next :: "phase \<Rightarrow> phase_input \<Rightarrow> phase" where
  "phase_next Hidden AShow = BackdropIn"
| "phase_next Hidden AToggle = BackdropIn"
| "phase_next BackdropIn AEnd = DialogIn"
| "phase_next DialogIn AEnd = Shown"
| "phase_next Shown AHide = DialogOut"
| "phase_next Shown AToggle = DialogOut"
| "phase_next DialogOut AEnd = BackdropOut"
| "phase_next BackdropOut AEnd = Hidden"
| "phase_next ph _ = ph"

definition phase_of :: "elem \<Rightarrow> modal_world \<Rightarrow> phase" where
  "phase_of e w =
     (case modal_at e w of
        None \<Rightarrow> Hidden
      | Some m \<Rightarrow>
          if md_isShown m
          then (if \<not> md_isTransitioning m then Shown else if hasClass e ''show'' (dm w) then DialogIn else BackdropIn)
          else (if md_isTransitioning m then DialogOut else if md_backdrop m = None then Hidden else BackdropOut))"

text \<open>The element whose transition the phase waits for.\<close>

definition awaited :: "elem \<Rightarrow> elem \<Rightarrow> modal_world \<Rightarrow> elem option" where
  "awaited e x w =
     (case phase_of e w of
        Hidden \<Rightarrow> None | Shown \<Rightarrow> None | DialogIn \<Rightarrow> Some x | DialogOut \<Rightarrow> Some e
      | _ \<Rightarrow> (case modal_at e w of None \<Rightarrow> None | Some m \<Rightarrow> md_backdrop m))"

datatype modal_op =
    MShow "elem option"
  | MHide
  | MToggle "elem option"
  | MEscape nat
  | MTick tick

fun modal_step :: "elem \<Rightarrow> modal_op \<Rightarrow> modal_world \<Rightarrow> modal_world" where
  "modal_step e (MShow rel) w = modal_show e rel w"
| "modal_step e MHide w = modal_hide e w"
| "modal_step e (MToggle rel) w = modal_toggle e rel w"
| "modal_step e (MEscape k) w = modal_escape e k w"
| "modal_step e (MTick t) w = tick_step modal_run t w"

fun input_of :: "elem \<Rightarrow> elem \<Rightarrow> modal_world \<Rightarrow> modal_op \<Rightarrow> phase_input" where
  "input_of e x w (MShow rel) = AShow"
| "input_of e x w MHide = AHide"
| "input_of e x w (MToggle rel) = AToggle"
| "input_of e x w (MEscape k) =
     (case modal_at e w of None \<Rightarrow> ANothing | Some m \<Rightarrow> if md_keydown m \<and> k = 27 then AHide else ANothing)"
| "input_of e x w (MTick (Ended y)) = (if awaited e x w = Some y then AEnd else ANothing)"
| "input_of e x w (MTick (Timer n)) =
     (case map_of (timers w) n of
        None \<Rightarrow> ANothing
      | Some y \<Rightarrow> if \<not> called w n \<and> awaited e x w = Some y then AEnd else ANothing)"
| "input_of e x w (MTick _) = ANothing"

definition waiting :: "elem \<Rightarrow> modal_cb \<Rightarrow> modal_world \<Rightarrow> bool" where
  "waiting y cb w \<longleftrightarrow> (\<exists>i n. i \<noteq> n \<and> i < next_id w \<and> n < next_id w \<and> bound w = [(i, y, Callback cb), (n, y, MarkCalled n)])"

definition modal_page :: "elem \<Rightarrow> elem \<Rightarrow> dom \<Rightarrow> bool" where
  "modal_page e x d \<longleftrightarrow> tree_ok (dtree d) \<and> e \<in> set (node_order (dtree d)) \<and> x \<in> set (node_order (dtree d))
     \<and> parent_of (dtree d) e \<noteq> None \<and> e \<noteq> body_elem (dtree d) \<and> x \<noteq> e \<and> hasClass e ''fade'' d"

text \<open>The backdrop in the document.\<close>

definition backdrop_on :: "elem \<Rightarrow> elem \<Rightarrow> elem \<Rightarrow> dom \<Rightarrow> bool" where
  "backdrop_on b e x d \<longleftrightarrow> b \<in> set (node_order (dtree d)) \<and> parent_of (dtree d) b = Some (body_elem (dtree d))
     \<and> b \<noteq> e \<and> b \<noteq> x \<and> b \<noteq> body_elem (dtree d)"

fun phase_ok :: "elem \<Rightarrow> elem \<Rightarrow> elem \<Rightarrow> phase \<Rightarrow> modal \<Rightarrow> modal_world \<Rightarrow> bool" where
  "phase_ok e x b Hidden m w \<longleftrightarrow> \<not> md_isShown m \<and> \<not> md_isTransitioning m \<and> md_backdrop m = None \<and> bound w = []
     \<and> \<not> hasClass e ''show'' (dm w) \<and> \<not> hasClass (body_elem (dtree (dm w))) ''modal-open'' (dm w)"
| "phase_ok e x b BackdropIn m w \<longleftrightarrow> md_isShown m \<and> md_isTransitioning m \<and> md_backdrop m = Some b
     \<and> (\<exists>r. waiting b (AfterBackdrop e (md_gen m) (ThenShow r)) w) \<and> backdrop_on b e x (dm w) \<and> hasClass b ''show'' (dm w) \<and> \<not> hasClass e ''show'' (dm w)
     \<and> hasClass (body_elem (dtree (dm w))) ''modal-open'' (dm w)"
| "phase_ok e x b DialogIn m w \<longleftrightarrow> md_isShown m \<and> md_isTransitioning m \<and> md_backdrop m = Some b
     \<and> (\<exists>r. waiting x (ShowComplete e (md_gen m) r) w) \<and> backdrop_on b e x (dm w) \<and> hasClass b ''show'' (dm w)
     \<and> hasClass e ''show'' (dm w) \<and> style_of (dm w) e ''display'' = ''block''
     \<and> hasClass (body_elem (dtree (dm w))) ''modal-open'' (dm w)"
| "phase_ok e x b Shown m w \<longleftrightarrow> md_isShown m \<and> \<not> md_isTransitioning m \<and> md_backdrop m = Some b
     \<and> bound w = [] \<and> backdrop_on b e x (dm w) \<and> hasClass b ''show'' (dm w)
     \<and> hasClass e ''show'' (dm w) \<and> style_of (dm w) e ''display'' = ''block''
     \<and> hasClass (body_elem (dtree (dm w))) ''modal-open'' (dm w)"
| "phase_ok e x b DialogOut m w \<longleftrightarrow> \<not> md_isShown m \<and> md_isTransitioning m \<and> md_backdrop m = Some b
     \<and> waiting e (HideModal e (md_gen m)) w \<and> backdrop_on b e x (dm w) \<and> \<not> hasClass e ''show'' (dm w)"
| "phase_ok e x b BackdropOut m w \<longleftrightarrow> \<not> md_isShown m \<and> \<not> md_isTransitioning m \<and> md_backdrop m = Some b
     \<and> waiting b (AfterRemove e (md_gen m) ThenHidden) w \<and> backdrop_on b e x (dm w) \<and> \<not> hasClass e ''show'' (dm w)
     \<and> \<not> hasClass b ''show'' (dm w) \<and> style_of (dm w) e ''display'' = ''none''"

definition modal_phase :: "elem \<Rightarrow> elem \<Rightarrow> nat \<Rightarrow> phase \<Rightarrow> modal_world \<Rightarrow> bool" where
  "modal_phase e x g ph w \<longleftrightarrow> has_transition w \<and> later w = [] \<and> intervals w = [] \<and> (\<forall>es. \<not> vetoes (env (dm w)) es) \<and> modal_page e x (dm w)
     \<and> (\<exists>m b. modal_at e w = Some m \<and> md_gen m = g \<and> md_dialog m = Some x \<and> truthy (get (md_config m) ''backdrop'')
          \<and> phase_ok e x b ph m w)"

text \<open>What one awaited callback does when its element's transition ends, and that no other element's does anything.\<close>

lemma waiting_ends:
  assumes "waiting y cb w"
  shows "\<exists>i n. triggerTransitionEnd modal_run y w = run_handler modal_run (MarkCalled n) (unbind n (modal_run cb (unbind i w)))
    \<and> i < next_id w \<and> n < next_id w \<and> bound (unbind i w) = [(n, y, MarkCalled n)]"
    and "y' \<noteq> y \<Longrightarrow> triggerTransitionEnd modal_run y' w = w"
proof -
  from assms obtain i n where b: "i \<noteq> n" "i < next_id w" "n < next_id w" "bound w = [(i, y, Callback cb), (n, y, MarkCalled n)]" by (auto simp: waiting_def)
  have "bound_on y w = [(i, y, Callback cb), (n, y, MarkCalled n)]" by (simp add: bound_on_def b)
  from awaited_runs [OF this] b show "\<exists>i n. triggerTransitionEnd modal_run y w = run_handler modal_run (MarkCalled n) (unbind n (modal_run cb (unbind i w)))
    \<and> i < next_id w \<and> n < next_id w \<and> bound (unbind i w) = [(n, y, MarkCalled n)]" by force
  show "triggerTransitionEnd modal_run y' w = w" if "y' \<noteq> y" using that by (intro no_handlers) (simp add: bound_on_def b)
qed

lemma phase_of_phase: "modal_phase e x g ph w \<Longrightarrow> phase_of e w = ph"
  by (cases ph) (auto simp: modal_phase_def phase_of_def)

lemma phase_awaited:
  assumes ph: "modal_phase e x g ph w"
  shows "awaited e x w = Some y \<Longrightarrow> \<exists>cb. waiting y cb w"
    and "awaited e x w = None \<Longrightarrow> bound w = []"
  using ph phase_of_phase [OF ph] unfolding awaited_def modal_phase_def
  by (cases ph; auto split: option.splits)+

text \<open>The phase does not depend on timers.\<close>

lemma modal_phase_timers [simp]: "modal_phase e x g ph (w\<lparr>timers := ts\<rparr>) = modal_phase e x g ph w"
  by (cases ph) (simp_all add: modal_phase_def waiting_def)

lemma modal_phase_called [simp]: "modal_phase e x g ph (w\<lparr>called := c\<rparr>) = modal_phase e x g ph w"
  by (cases ph) (simp_all add: modal_phase_def waiting_def)

lemma hasClass_setAttrs [simp]: "hasClass y k (setAttr j v e d) = hasClass y k d" "hasClass y k (removeAttr j e d) = hasClass y k d"
  "hasClass y k (setStyle j v e d) = hasClass y k d" "hasClass y k (fire n r e d) = hasClass y k d" "hasClass y k (focus e d) = hasClass y k d"
  by (simp_all add: hasClass_def)

subsection \<open>The steps of a fading modal\<close>

lemma getScrollbarWidth_effect:
  assumes "tree_ok (dtree d)"
  defines "s \<equiv> fresh_elem d"
  shows "dtree (snd (getScrollbarWidth d)) = (dtree d)\<lparr>node_order := node_order (dtree d) @ [s], parent_of := (parent_of (dtree d))(s := None)\<rparr>"
    "y \<noteq> s \<Longrightarrow> hasClass y k (snd (getScrollbarWidth d)) = hasClass y k d"
    "env (snd (getScrollbarWidth d)) = env d" "event_log (snd (getScrollbarWidth d)) = event_log d"
  using append_fresh [of "createElement ''div'' [''modal-scrollbar-measure''] s d" s] assms(1) fresh_elem_notin [of d]
  by (simp_all add: getScrollbarWidth_def Let_def s_def detach_def) (simp add: hasClass_def createElement_def)

lemma checkScrollbar_simps [simp]:
  "dm (checkScrollbar e w) = snd (getScrollbarWidth (dm w))" "bound (checkScrollbar e w) = bound w"
  "has_transition (checkScrollbar e w) = has_transition w" "later (checkScrollbar e w) = later w"
  "intervals (checkScrollbar e w) = intervals w"
  by (simp_all add: checkScrollbar_def Let_def split_beta)

lemma checkScrollbar_modal:
  "modal_at e w = Some m \<Longrightarrow> \<exists>v z. modal_at e (checkScrollbar e w) = Some (m\<lparr>md_isBodyOverflowing := v, md_scrollbarWidth := z\<rparr>)"
  by (auto simp: checkScrollbar_def Let_def split_beta)

text \<open>The preparation as one pass over the document and one over the object.\<close>

lemma show_prepare_stages:
  assumes b: "body_elem (dtree (snd (getScrollbarWidth (dm w)))) = body_elem (dtree (dm w))" and m: "modal_at e w = Some m"
  shows "\<exists>m1 m2 g. modal_at e (show_prepare e w) = Some m2
    \<and> md_gen m2 = md_gen m \<and> md_dialog m2 = md_dialog m \<and> md_config m2 = md_config m \<and> md_backdrop m2 = md_backdrop m
    \<and> md_isTransitioning m2 = md_isTransitioning m \<and> md_isShown m2
    \<and> dm (show_prepare e w) = addClass ''modal-open'' (body_elem (dtree (dm w))) (g (snd (getScrollbarWidth (dm w))))
    \<and> (g = adjustDialog e m1 \<or> (\<exists>z. g = adjustDialog e m1 \<circ> setScrollbar z))
    \<and> bound (show_prepare e w) = bound w \<and> has_transition (show_prepare e w) = has_transition w
    \<and> later (show_prepare e w) = later w \<and> intervals (show_prepare e w) = intervals w"
proof -
  let ?w0 = "md_upd e (md_isShown_update (\<lambda>_. True)) w"
  have "modal_at e ?w0 = Some (m\<lparr>md_isShown := True\<rparr>)" using m by simp
  from checkScrollbar_modal [OF this] obtain v z where
    m1: "modal_at e (checkScrollbar e ?w0) = Some (m\<lparr>md_isShown := True, md_isBodyOverflowing := v, md_scrollbarWidth := z\<rparr>)" by auto
  let ?m1 = "m\<lparr>md_isShown := True, md_isBodyOverflowing := v, md_scrollbarWidth := z\<rparr>"
  let ?w2 = "if v then on_dom (setScrollbar z) (checkScrollbar e ?w0) else checkScrollbar e ?w0"
  let ?w4 = "on_dom (\<lambda>d. addClass ''modal-open'' (body_elem (dtree d)) d) (on_dom (adjustDialog e ?m1) ?w2)"
  let ?esc = "\<lambda>m. if md_isShown m \<and> truthy (get (md_config m) ''keyboard'') then m\<lparr>md_keydown := True\<rparr>
                   else if \<not> md_isShown m then m\<lparr>md_keydown := False\<rparr> else m"
  have at4: "modal_at e ?w4 = Some ?m1" using m1 by simp
  have "setResizeEvent e (setEscapeEvent e ?w4) = md_upd e (md_resize_update (\<lambda>_. True)) (md_upd e ?esc ?w4)"
    using at4 by (simp add: setResizeEvent_def setEscapeEvent_def)
  then have prep: "show_prepare e w = md_upd e (\<lambda>m. m\<lparr>md_dismiss := True, md_mousedown := md_dialog m \<noteq> None\<rparr>)
      (md_upd e (md_resize_update (\<lambda>_. True)) (md_upd e ?esc ?w4))"
    using m1 unfolding show_prepare_def Let_def handleUpdate_def by (cases v) simp_all
  have "dm (show_prepare e w) = addClass ''modal-open'' (body_elem (dtree (dm w)))
      ((if v then adjustDialog e ?m1 \<circ> setScrollbar z else adjustDialog e ?m1) (snd (getScrollbarWidth (dm w))))"
    using b unfolding prep by simp
  moreover have "(if v then adjustDialog e ?m1 \<circ> setScrollbar z else adjustDialog e ?m1) = adjustDialog e ?m1
      \<or> (\<exists>z'. (if v then adjustDialog e ?m1 \<circ> setScrollbar z else adjustDialog e ?m1) = adjustDialog e ?m1 \<circ> setScrollbar z')"
    by auto
  moreover have "\<exists>m2. modal_at e (show_prepare e w) = Some m2
    \<and> md_gen m2 = md_gen m \<and> md_dialog m2 = md_dialog m \<and> md_config m2 = md_config m \<and> md_backdrop m2 = md_backdrop m
    \<and> md_isTransitioning m2 = md_isTransitioning m \<and> md_isShown m2"
    unfolding prep using at4 by simp
  moreover have "bound (show_prepare e w) = bound w \<and> has_transition (show_prepare e w) = has_transition w
    \<and> later (show_prepare e w) = later w \<and> intervals (show_prepare e w) = intervals w"
    unfolding prep by simp
  ultimately show ?thesis by blast
qed

lemma show_prepare_effect:
  assumes ok: "tree_ok (dtree (dm w))" and m: "modal_at e w = Some m"
  shows "\<exists>m'. modal_at e (show_prepare e w) = Some m' \<and> md_gen m' = md_gen m \<and> md_dialog m' = md_dialog m
      \<and> md_config m' = md_config m \<and> md_backdrop m' = md_backdrop m \<and> md_isTransitioning m' = md_isTransitioning m \<and> md_isShown m'"
    and "dtree (dm (show_prepare e w)) = (dtree (dm w))\<lparr>node_order := node_order (dtree (dm w)) @ [fresh_elem (dm w)],
           parent_of := (parent_of (dtree (dm w)))(fresh_elem (dm w) := None)\<rparr>"
    and "\<And>y k. y \<noteq> fresh_elem (dm w) \<Longrightarrow> hasClass y k (dm (show_prepare e w))
           \<longleftrightarrow> hasClass y k (dm w) \<or> y = body_elem (dtree (dm w)) \<and> k = ''modal-open''"
    and "bound (show_prepare e w) = bound w" "has_transition (show_prepare e w) = has_transition w"
    "later (show_prepare e w) = later w" "intervals (show_prepare e w) = intervals w" "env (dm (show_prepare e w)) = env (dm w)"
    "event_log (dm (show_prepare e w)) = event_log (dm w)"
proof -
  have b: "body_elem (dtree (snd (getScrollbarWidth (dm w)))) = body_elem (dtree (dm w))"
    using getScrollbarWidth_effect(1) [OF ok] by simp
  from show_prepare_stages [OF b m] obtain m1 m2 g where st: "modal_at e (show_prepare e w) = Some m2"
    "md_gen m2 = md_gen m" "md_dialog m2 = md_dialog m" "md_config m2 = md_config m" "md_backdrop m2 = md_backdrop m"
    "md_isTransitioning m2 = md_isTransitioning m" "md_isShown m2"
    "dm (show_prepare e w) = addClass ''modal-open'' (body_elem (dtree (dm w))) (g (snd (getScrollbarWidth (dm w))))"
    and g: "g = adjustDialog e m1 \<or> (\<exists>z. g = adjustDialog e m1 \<circ> setScrollbar z)"
    and fr: "bound (show_prepare e w) = bound w" "has_transition (show_prepare e w) = has_transition w"
    "later (show_prepare e w) = later w" "intervals (show_prepare e w) = intervals w" by blast
  have gf: "dtree (g d) = dtree d" "hasClass y k (g d) = hasClass y k d" "env (g d) = env d" "event_log (g d) = event_log d" for d y k
    using g by auto
  show "\<exists>m'. modal_at e (show_prepare e w) = Some m' \<and> md_gen m' = md_gen m \<and> md_dialog m' = md_dialog m
      \<and> md_config m' = md_config m \<and> md_backdrop m' = md_backdrop m \<and> md_isTransitioning m' = md_isTransitioning m \<and> md_isShown m'"
    using st(1-7) by blast
  show "bound (show_prepare e w) = bound w" "has_transition (show_prepare e w) = has_transition w"
    "later (show_prepare e w) = later w" "intervals (show_prepare e w) = intervals w" by (fact fr)+
  show "dtree (dm (show_prepare e w)) = (dtree (dm w))\<lparr>node_order := node_order (dtree (dm w)) @ [fresh_elem (dm w)],
           parent_of := (parent_of (dtree (dm w)))(fresh_elem (dm w) := None)\<rparr>"
    "env (dm (show_prepare e w)) = env (dm w)" "event_log (dm (show_prepare e w)) = event_log (dm w)"
    by (simp_all add: st(8) gf getScrollbarWidth_effect [OF ok])
  show "hasClass y k (dm (show_prepare e w)) \<longleftrightarrow> hasClass y k (dm w) \<or> y = body_elem (dtree (dm w)) \<and> k = ''modal-open''"
    if "y \<noteq> fresh_elem (dm w)" for y k
    using that by (auto simp add: st(8) gf getScrollbarWidth_effect [OF ok])
qed

lemma new_backdrop_effect:
  assumes ok: "tree_ok (dtree (dm w))" and m: "modal_at e w = Some m"
  defines "b \<equiv> fresh_elem (dm w)"
  shows "modal_at e (new_backdrop e w) = Some (m\<lparr>md_backdrop := Some b, md_backdropClick := True\<rparr>)"
    "dtree (dm (new_backdrop e w)) = (dtree (dm w))\<lparr>node_order := node_order (dtree (dm w)) @ [b],
      parent_of := (parent_of (dtree (dm w)))(b \<mapsto> body_elem (dtree (dm w)))\<rparr>"
    "tree_ok (dtree (dm (new_backdrop e w)))"
    "\<And>y k. y \<noteq> b \<Longrightarrow> hasClass y k (dm (new_backdrop e w)) = hasClass y k (dm w)" "hasClass b ''show'' (dm (new_backdrop e w))"
    "bound (new_backdrop e w) = bound w" "has_transition (new_backdrop e w) = has_transition w" "later (new_backdrop e w) = later w"
    "intervals (new_backdrop e w) = intervals w" "env (dm (new_backdrop e w)) = env (dm w)"
proof -
  let ?cs = "if hasClass e ''fade'' (dm w) then [''modal-backdrop'', ''fade''] else [''modal-backdrop'']"
  have new: "b \<notin> set (node_order (dtree (dm w)))" by (simp add: b_def fresh_elem_notin)
  have d: "dm (new_backdrop e w) = addClass ''show'' b (append_to_body b (createElement ''div'' ?cs b (dm w)))"
    by (simp add: new_backdrop_def Let_def b_def)
  show t: "dtree (dm (new_backdrop e w)) = (dtree (dm w))\<lparr>node_order := node_order (dtree (dm w)) @ [b],
      parent_of := (parent_of (dtree (dm w)))(b \<mapsto> body_elem (dtree (dm w)))\<rparr>"
    using append_fresh [of "createElement ''div'' ?cs b (dm w)" b] ok new unfolding d by simp
  show "tree_ok (dtree (dm (new_backdrop e w)))"
    using ok new by (auto simp: t tree_ok_def split: option.splits)
  show "\<And>y k. y \<noteq> b \<Longrightarrow> hasClass y k (dm (new_backdrop e w)) = hasClass y k (dm w)" "hasClass b ''show'' (dm (new_backdrop e w))"
    by (simp_all add: d)
  show "env (dm (new_backdrop e w)) = env (dm w)" by (simp add: d)
qed (use m in \<open>simp_all add: new_backdrop_def Let_def b_def\<close>)

lemma show_prepare_page:
  assumes pg: "modal_page e x (dm w)" and m: "modal_at e w = Some m"
  shows "modal_page e x (dm (show_prepare e w))"
    "y \<in> set (node_order (dtree (dm w))) \<Longrightarrow> y \<in> set (node_order (dtree (dm (show_prepare e w))))
       \<and> parent_of (dtree (dm (show_prepare e w))) y = parent_of (dtree (dm w)) y
       \<and> (hasClass y k (dm (show_prepare e w)) \<longleftrightarrow> hasClass y k (dm w) \<or> y = body_elem (dtree (dm w)) \<and> k = ''modal-open'')"
    "body_elem (dtree (dm (show_prepare e w))) = body_elem (dtree (dm w))"
proof -
  have ok: "tree_ok (dtree (dm w))" using pg by (simp add: modal_page_def)
  note pr = show_prepare_effect [OF ok m]
  have ns: "y \<noteq> fresh_elem (dm w)" if "y \<in> set (node_order (dtree (dm w)))" for y
    using that fresh_elem_notin [of "dm w"] by auto
  show at: "y \<in> set (node_order (dtree (dm (show_prepare e w))))
       \<and> parent_of (dtree (dm (show_prepare e w))) y = parent_of (dtree (dm w)) y
       \<and> (hasClass y k (dm (show_prepare e w)) \<longleftrightarrow> hasClass y k (dm w) \<or> y = body_elem (dtree (dm w)) \<and> k = ''modal-open'')"
    if "y \<in> set (node_order (dtree (dm w)))" for y k
    using that ns [OF that] pr(3) [OF ns [OF that], of k] by (simp add: pr(2))
  show body: "body_elem (dtree (dm (show_prepare e w))) = body_elem (dtree (dm w))" by (simp add: pr(2))
  have "tree_ok (dtree (dm (show_prepare e w)))"
    using ok ns by (auto simp: pr(2) tree_ok_def split: option.splits)
  then show "modal_page e x (dm (show_prepare e w))"
    using pg at [of e "''fade''"] at [of x] body by (simp add: modal_page_def)
qed

text \<open>A show that goes through: a new backdrop waits for the end of its transition.\<close>

lemma modal_show_effect:
  assumes ht: "has_transition w" and pg: "modal_page e x (dm w)" and veto: "\<forall>es. \<not> vetoes (env (dm w)) es"
    and m: "modal_at e w = Some m" "\<not> md_isShown m" "\<not> md_isTransitioning m" "md_dialog m = Some x"
      "truthy (get (md_config m) ''backdrop'')"
  shows "\<exists>m' b i. modal_at e (modal_show e rel w) = Some m' \<and> md_gen m' = md_gen m \<and> md_dialog m' = Some x
      \<and> md_config m' = md_config m \<and> md_isShown m' \<and> md_isTransitioning m' \<and> md_backdrop m' = Some b
      \<and> bound (modal_show e rel w) = bound w @ [(i, b, Callback (AfterBackdrop e (md_gen m) (ThenShow rel))), (Suc i, b, MarkCalled (Suc i))] \<and> Suc i < next_id (modal_show e rel w)
      \<and> has_transition (modal_show e rel w) \<and> later (modal_show e rel w) = later w \<and> intervals (modal_show e rel w) = intervals w
      \<and> env (dm (modal_show e rel w)) = env (dm w) \<and> b \<notin> set (node_order (dtree (dm w)))
      \<and> modal_page e x (dm (modal_show e rel w)) \<and> backdrop_on b e x (dm (modal_show e rel w)) \<and> hasClass b ''show'' (dm (modal_show e rel w))
      \<and> body_elem (dtree (dm (modal_show e rel w))) = body_elem (dtree (dm w))
      \<and> (\<forall>y \<in> set (node_order (dtree (dm w))). y \<in> set (node_order (dtree (dm (modal_show e rel w))))
           \<and> parent_of (dtree (dm (modal_show e rel w))) y = parent_of (dtree (dm w)) y
           \<and> (\<forall>k. hasClass y k (dm (modal_show e rel w)) \<longleftrightarrow> hasClass y k (dm w) \<or> y = body_elem (dtree (dm w)) \<and> k = ''modal-open''))"
proof -
  define w1 where "w1 = arm_restore e False ((md_upd e (md_isTransitioning_update (\<lambda>_. True)) w)\<lparr>dm := fire MD_SHOW rel e (dm w)\<rparr>)"
  have w1: "dm w1 = fire MD_SHOW rel e (dm w)" "bound w1 = bound w" "has_transition w1" "later w1 = later w" "intervals w1 = intervals w"
    "modal_at e w1 = Some (m\<lparr>md_isTransitioning := True\<rparr>)"
    using m ht by (simp_all add: w1_def)
  have pg1: "modal_page e x (dm w1)" using pg by (simp add: w1(1) modal_page_def)
  then have ok1: "tree_ok (dtree (dm w1))" by (simp add: modal_page_def)
  note pr = show_prepare_effect [OF ok1 w1(6)] and pg2 = show_prepare_page [OF pg1 w1(6)]
  define w2 where "w2 = show_prepare e w1"
  define b where "b = fresh_elem (dm w2)"
  obtain m2 where m2: "modal_at e w2 = Some m2" "md_gen m2 = md_gen m" "md_dialog m2 = Some x" "md_config m2 = md_config m"
    "md_isTransitioning m2" "md_isShown m2"
    using pr(1) m(4) by (auto simp: w2_def)
  have page2: "modal_page e x (dm w2)" using pg2(1) by (simp add: w2_def)
  then have ok2: "tree_ok (dtree (dm w2))" by (simp add: modal_page_def)
  note nb = new_backdrop_effect [OF ok2 m2(1), folded b_def]
  let ?w3 = "new_backdrop e w2"
  have run: "modal_show e rel w = await_end b (AfterBackdrop e (md_gen m) (ThenShow rel)) ?w3"
    using m ht pg veto m2 pr(5) w1(3) page2
    by (simp add: modal_show_def trigger_fire modal_page_def Let_def w1_def [symmetric] w2_def [symmetric] showBackdrop_def modal_obj_def b_def)
  have b2: "b \<notin> set (node_order (dtree (dm w2)))" by (simp add: b_def fresh_elem_notin)
  have keep: "y \<in> set (node_order (dtree (dm ?w3))) \<and> parent_of (dtree (dm ?w3)) y = parent_of (dtree (dm w)) y
      \<and> (\<forall>k. hasClass y k (dm ?w3) \<longleftrightarrow> hasClass y k (dm w) \<or> y = body_elem (dtree (dm w)) \<and> k = ''modal-open'') \<and> y \<noteq> b"
    if y: "y \<in> set (node_order (dtree (dm w)))" for y
  proof -
    have y2: "y \<in> set (node_order (dtree (dm w2)))" using pg2(2) [of y] y by (simp add: w2_def w1(1))
    then have "y \<noteq> b" using b2 by auto
    then show ?thesis using pg2(2) [of y] y y2 nb(4) [of y] by (simp add: w2_def w1(1) nb(2) [unfolded w2_def])
  qed
  have body: "body_elem (dtree (dm ?w3)) = body_elem (dtree (dm w))" using pg2(3) by (simp add: nb(2)) (simp add: w2_def w1(1))
  have nodes: "e \<in> set (node_order (dtree (dm w)))" "x \<in> set (node_order (dtree (dm w)))" "body_elem (dtree (dm w)) \<in> set (node_order (dtree (dm w)))"
    using pg by (auto simp: modal_page_def tree_ok_def)
  have page3: "modal_page e x (dm ?w3)"
    using pg keep nodes nb(3) body by (simp add: modal_page_def)
  have on3: "backdrop_on b e x (dm ?w3)"
    using keep nodes body by (auto simp: backdrop_on_def nb(2))
  have bw: "b \<notin> set (node_order (dtree (dm w)))" using keep by auto
  have fr: "bound ?w3 = bound w" "has_transition ?w3" "later ?w3 = later w" "intervals ?w3 = intervals w" "env (dm ?w3) = env (dm w)"
    using nb(6-10) pr(4-8) w1 by (simp_all add: w2_def)
  show ?thesis
    unfolding run using nb(1,5) m2 page3 on3 keep bw body fr
    by (intro exI [of _ "m2\<lparr>md_backdrop := Some b, md_backdropClick := True\<rparr>"] exI [of _ b] exI [of _ "next_id ?w3"]) simp
qed

lemma phase_show: "modal_phase e x g Hidden w \<Longrightarrow> modal_phase e x g BackdropIn (modal_show e rel w)"
proof -
  assume ph: "modal_phase e x g Hidden w"
  then obtain m where m: "modal_at e w = Some m" "md_gen m = g" "md_dialog m = Some x" "truthy (get (md_config m) ''backdrop'')"
    "\<not> md_isShown m" "\<not> md_isTransitioning m" and w: "bound w = []" "\<not> hasClass e ''show'' (dm w)" "has_transition w" "modal_page e x (dm w)"
    "\<forall>es. \<not> vetoes (env (dm w)) es" "later w = []" "intervals w = []"
    by (auto simp: modal_phase_def)
  have nodes: "e \<in> set (node_order (dtree (dm w)))" "body_elem (dtree (dm w)) \<in> set (node_order (dtree (dm w)))" "e \<noteq> body_elem (dtree (dm w))"
    using w(4) by (auto simp: modal_page_def tree_ok_def)
  from modal_show_effect [OF w(3,4,5) m(1,5,6,3,4), of rel] obtain m' b i where
    m': "modal_at e (modal_show e rel w) = Some m'" "md_gen m' = md_gen m" "md_dialog m' = Some x" "md_config m' = md_config m"
      "md_isShown m'" "md_isTransitioning m'" "md_backdrop m' = Some b"
    and bd: "bound (modal_show e rel w) = bound w @ [(i, b, Callback (AfterBackdrop e (md_gen m) (ThenShow rel))), (Suc i, b, MarkCalled (Suc i))]"
      "Suc i < next_id (modal_show e rel w)"
    and fr: "has_transition (modal_show e rel w)" "later (modal_show e rel w) = later w" "intervals (modal_show e rel w) = intervals w"
      "env (dm (modal_show e rel w)) = env (dm w)" "modal_page e x (dm (modal_show e rel w))" "backdrop_on b e x (dm (modal_show e rel w))"
      "hasClass b ''show'' (dm (modal_show e rel w))" "body_elem (dtree (dm (modal_show e rel w))) = body_elem (dtree (dm w))"
    and kp: "\<forall>y \<in> set (node_order (dtree (dm w))). \<forall>k. hasClass y k (dm (modal_show e rel w)) \<longleftrightarrow> hasClass y k (dm w) \<or> y = body_elem (dtree (dm w)) \<and> k = ''modal-open''"
    by blast
  have "waiting b (AfterBackdrop e g (ThenShow rel)) (modal_show e rel w)"
    using bd w(1) m(2) by (auto simp: waiting_def)
  then have "phase_ok e x b BackdropIn m' (modal_show e rel w)"
    using m' fr kp nodes w m by auto
  then show ?thesis using m' fr w m by (auto simp: modal_phase_def)
qed

text \<open>The end of the awaited transition, with the emulator's mark taken off.\<close>

lemma phase_ends:
  assumes "waiting y cb w"
    and "\<And>i n. i < next_id w \<Longrightarrow> n < next_id w \<Longrightarrow> bound (unbind i w) = [(n, y, MarkCalled n)]
      \<Longrightarrow> modal_phase e x g ph (unbind n (modal_run cb (unbind i w)))"
  shows "modal_phase e x g ph (triggerTransitionEnd modal_run y w)"
proof -
  from waiting_ends(1) [OF assms(1)] obtain i n where
    "triggerTransitionEnd modal_run y w = run_handler modal_run (MarkCalled n) (unbind n (modal_run cb (unbind i w)))"
    "i < next_id w" "n < next_id w" "bound (unbind i w) = [(n, y, MarkCalled n)]" by blast
  then show ?thesis using assms(2) by simp
qed

lemma modal_at_enforce [simp]:
  "modal_at e (enforceFocus e w) = map_option (md_focusin_update (\<lambda>_. True) \<circ> md_focusin_update (\<lambda>_. False)) (modal_at e w)"
  "dm (enforceFocus e w) = dm w" "bound (enforceFocus e w) = bound w" "has_transition (enforceFocus e w) = has_transition w"
  "later (enforceFocus e w) = later w" "intervals (enforceFocus e w) = intervals w" "next_id (enforceFocus e w) = next_id w"
  by (simp_all add: enforceFocus_def option.map_comp)

lemma phase_backdrop_in:
  assumes "modal_phase e x g BackdropIn w" "awaited e x w = Some y"
  shows "modal_phase e x g DialogIn (triggerTransitionEnd modal_run y w)"
proof -
  from assms(1) obtain m b r where m: "modal_at e w = Some m" "md_gen m = g" "md_dialog m = Some x" "truthy (get (md_config m) ''backdrop'')"
    "md_isShown m" "md_isTransitioning m" "md_backdrop m = Some b" and wt: "waiting b (AfterBackdrop e g (ThenShow r)) w"
    and w: "backdrop_on b e x (dm w)" "hasClass b ''show'' (dm w)" "hasClass (body_elem (dtree (dm w))) ''modal-open'' (dm w)"
      "has_transition w" "modal_page e x (dm w)" "\<forall>es. \<not> vetoes (env (dm w)) es" "later w = []" "intervals w = []"
    by (auto simp: modal_phase_def)
  have y: "y = b" using assms m phase_of_phase [OF assms(1)] by (simp add: awaited_def)
  show ?thesis unfolding y
  proof (rule phase_ends [OF wt])
    fix i n
    assume i: "i < next_id w" "n < next_id w" "bound (unbind i w) = [(n, b, MarkCalled n)]"
    let ?f = "truthy (get (md_config m) ''focus'')"
    let ?d = "addClass ''show'' e (removeAttr ''aria-hidden'' e (setStyle ''display'' ''block'' e (dm w)))"
    let ?w = "unbind n (modal_run (AfterBackdrop e g (ThenShow r)) (unbind i w))"
    have run: "?w = unbind n (await_end x (ShowComplete e g r)
        ((if ?f then enforceFocus e else id) (on_dom (\<lambda>_. ?d) (unbind i w))))"
      using m w by (auto simp: run_after_def modal_obj_def showElement_def modal_page_def Let_def on_dom_def)
    have at: "\<exists>m'. modal_at e ?w = Some m' \<and> md_gen m' = g \<and> md_dialog m' = Some x \<and> truthy (get (md_config m') ''backdrop'')
        \<and> md_isShown m' \<and> md_isTransitioning m' \<and> md_backdrop m' = Some b"
      unfolding run using m by simp
    have d: "dm ?w = ?d" unfolding run by simp
    have bd: "waiting x (ShowComplete e g r) ?w"
      unfolding run waiting_def using i by (intro exI [of _ "next_id w"] exI [of _ "Suc (next_id w)"]) simp
    have "has_transition ?w" "later ?w = []" "intervals ?w = []" unfolding run using w by simp_all
    moreover have "modal_page e x (dm ?w)" "backdrop_on b e x (dm ?w)" "hasClass b ''show'' (dm ?w)" "hasClass e ''show'' (dm ?w)"
      "style_of (dm ?w) e ''display'' = ''block''" "hasClass (body_elem (dtree (dm ?w))) ''modal-open'' (dm ?w)"
      "\<forall>es. \<not> vetoes (env (dm ?w)) es"
      using w unfolding d by (simp_all add: modal_page_def backdrop_on_def)
    ultimately show "modal_phase e x g DialogIn ?w" using at bd by (auto simp: modal_phase_def)
  qed
qed

lemma phase_dialog_in:
  assumes "modal_phase e x g DialogIn w" "awaited e x w = Some y"
  shows "modal_phase e x g Shown (triggerTransitionEnd modal_run y w)"
proof -
  from assms(1) obtain m b r where m: "modal_at e w = Some m" "md_gen m = g" "md_dialog m = Some x" "truthy (get (md_config m) ''backdrop'')"
    "md_isShown m" "md_isTransitioning m" "md_backdrop m = Some b" and wt: "waiting x (ShowComplete e g r) w"
    and w: "backdrop_on b e x (dm w)" "hasClass b ''show'' (dm w)" "hasClass e ''show'' (dm w)" "style_of (dm w) e ''display'' = ''block''"
      "hasClass (body_elem (dtree (dm w))) ''modal-open'' (dm w)"
      "has_transition w" "modal_page e x (dm w)" "\<forall>es. \<not> vetoes (env (dm w)) es" "later w = []" "intervals w = []"
    by (auto simp: modal_phase_def)
  have y: "y = x" using assms m phase_of_phase [OF assms(1)] by (simp add: awaited_def)
  show ?thesis unfolding y
  proof (rule phase_ends [OF wt])
    fix i n
    assume "bound (unbind i w) = [(n, x, MarkCalled n)]"
    then show "modal_phase e x g Shown (unbind n (modal_run (ShowComplete e g r) (unbind i w)))"
      using m w by (simp add: modal_obj_def modal_shown_def Let_def modal_phase_def modal_page_def backdrop_on_def)
  qed
qed

lemma phase_dialog_out:
  assumes "modal_phase e x g DialogOut w" "awaited e x w = Some y"
  shows "modal_phase e x g BackdropOut (triggerTransitionEnd modal_run y w)"
proof -
  from assms(1) obtain m b where m: "modal_at e w = Some m" "md_gen m = g" "md_dialog m = Some x" "truthy (get (md_config m) ''backdrop'')"
    "\<not> md_isShown m" "md_isTransitioning m" "md_backdrop m = Some b" and wt: "waiting e (HideModal e g) w"
    and w: "backdrop_on b e x (dm w)" "\<not> hasClass e ''show'' (dm w)"
      "has_transition w" "modal_page e x (dm w)" "\<forall>es. \<not> vetoes (env (dm w)) es" "later w = []" "intervals w = []"
    by (auto simp: modal_phase_def)
  have y: "y = e" using assms m phase_of_phase [OF assms(1)] by (simp add: awaited_def)
  show ?thesis unfolding y
  proof (rule phase_ends [OF wt])
    fix i n
    assume i: "i < next_id w" "n < next_id w" "bound (unbind i w) = [(n, e, MarkCalled n)]"
    let ?d = "removeClass ''show'' b (setAttr ''aria-hidden'' ''true'' e (setStyle ''display'' ''none'' e (dm w)))"
    let ?w = "unbind n (modal_run (HideModal e g) (unbind i w))"
    have run: "?w = unbind n (await_end b (AfterRemove e g ThenHidden)
        (on_dom (\<lambda>_. ?d) (md_upd e (md_isTransitioning_update (\<lambda>_. False)) (on_dom (\<lambda>_. setAttr ''aria-hidden'' ''true'' e (setStyle ''display'' ''none'' e (dm w))) (unbind i w)))))"
      using m w by (simp add: hideModal_def showBackdrop_def modal_obj_def modal_page_def Let_def on_dom_def)
    have at: "\<exists>m'. modal_at e ?w = Some m' \<and> md_gen m' = g \<and> md_dialog m' = Some x \<and> truthy (get (md_config m') ''backdrop'')
        \<and> \<not> md_isShown m' \<and> \<not> md_isTransitioning m' \<and> md_backdrop m' = Some b"
      unfolding run using m by simp
    have d: "dm ?w = ?d" unfolding run by simp
    have bd: "waiting b (AfterRemove e g ThenHidden) ?w"
      unfolding run waiting_def using i by (intro exI [of _ "next_id w"] exI [of _ "Suc (next_id w)"]) simp
    have "has_transition ?w" "later ?w = []" "intervals ?w = []" unfolding run using w by simp_all
    moreover have "modal_page e x (dm ?w)" "backdrop_on b e x (dm ?w)" "\<not> hasClass b ''show'' (dm ?w)" "\<not> hasClass e ''show'' (dm ?w)"
      "style_of (dm ?w) e ''display'' = ''none''" "\<forall>es. \<not> vetoes (env (dm ?w)) es"
      using w unfolding d by (simp_all add: modal_page_def backdrop_on_def)
    ultimately show "modal_phase e x g BackdropOut ?w" using at bd by (auto simp: modal_phase_def)
  qed
qed

lemma jq_remove_simps [simp]:
  "dm (jq_remove b w) = detach b (dm w)" "bound (jq_remove b w) = filter (\<lambda>(i, x, h). x \<noteq> b) (bound w)"
  "has_transition (jq_remove b w) = has_transition w" "later (jq_remove b w) = later w" "intervals (jq_remove b w) = intervals w"
  "modal_at e (jq_remove b w) = modal_at e w"
  by (simp_all add: jq_remove_def)

lemma detach_tree [simp]:
  "body_elem (dtree (detach b d)) = body_elem (dtree d)" "node_order (dtree (detach b d)) = node_order (dtree d)"
  "parent_of (dtree (detach b d)) y = (if y = b then None else parent_of (dtree d) y)"
  by (simp_all add: detach_def)

lemma modal_page_detach: "modal_page e x d \<Longrightarrow> b \<noteq> e \<Longrightarrow> modal_page e x (detach b d)"
  by (auto simp: modal_page_def tree_ok_def split: option.splits)

text \<open>What is left when the backdrop has gone, whoever it belonged to.\<close>

lemma backdrop_gone:
  assumes m: "modal_at e w = Some m" "md_gen m = g" "md_backdrop m = Some b"
  defines "w' \<equiv> modal_run (AfterRemove e g ThenHidden) w"
  shows "modal_at e w' = Some (m\<lparr>md_backdrop := None\<rparr>)" "bound w' = filter (\<lambda>(i, x, h). x \<noteq> b) (bound w)"
    "has_transition w' = has_transition w" "later w' = later w" "intervals w' = intervals w" "env (dm w') = env (dm w)"
    "dtree (dm w') = dtree (detach b (dm w))"
    "hasClass y k (dm w') \<longleftrightarrow> hasClass y k (dm w) \<and> \<not> (y = body_elem (dtree (dm w)) \<and> k = ''modal-open'')"
  using m by (auto simp: w'_def run_after_def removeBackdrop_def modal_obj_def modal_hidden_def)

lemma phase_backdrop_out:
  assumes "modal_phase e x g BackdropOut w" "awaited e x w = Some y"
  shows "modal_phase e x g Hidden (triggerTransitionEnd modal_run y w)"
proof -
  from assms(1) obtain m b where m: "modal_at e w = Some m" "md_gen m = g" "md_dialog m = Some x" "truthy (get (md_config m) ''backdrop'')"
    "\<not> md_isShown m" "\<not> md_isTransitioning m" "md_backdrop m = Some b" and wt: "waiting b (AfterRemove e g ThenHidden) w"
    and w: "backdrop_on b e x (dm w)" "\<not> hasClass e ''show'' (dm w)"
      "has_transition w" "modal_page e x (dm w)" "\<forall>es. \<not> vetoes (env (dm w)) es" "later w = []" "intervals w = []"
    by (auto simp: modal_phase_def)
  have y: "y = b" using assms m phase_of_phase [OF assms(1)] by (simp add: awaited_def)
  show ?thesis unfolding y
  proof (rule phase_ends [OF wt])
    fix i n
    assume i: "bound (unbind i w) = [(n, b, MarkCalled n)]"
    let ?w = "unbind n (modal_run (AfterRemove e g ThenHidden) (unbind i w))"
    have "modal_at e (unbind i w) = Some m" using m by simp
    note bg = backdrop_gone [OF this m(2,7)]
    have pg: "modal_page e x (detach b (dm w))" using modal_page_detach [OF w(4)] w(1) by (simp add: backdrop_on_def)
    have "modal_page e x (dm ?w)"
      using pg bg(7,8) w(4) by (simp add: modal_page_def)
    moreover have "bound ?w = []" unfolding unbind_simps(9) [of n] bg(2) i by simp
    ultimately show "modal_phase e x g Hidden ?w"
      using bg(1,3-8) m w by (simp add: modal_phase_def)
  qed
qed

lemma phase_hide:
  assumes "modal_phase e x g Shown w"
  shows "modal_phase e x g DialogOut (modal_hide e w)"
proof -
  from assms obtain m b where m: "modal_at e w = Some m" "md_gen m = g" "md_dialog m = Some x" "truthy (get (md_config m) ''backdrop'')"
    "md_isShown m" "\<not> md_isTransitioning m" "md_backdrop m = Some b"
    and w: "bound w = []" "backdrop_on b e x (dm w)" "has_transition w" "modal_page e x (dm w)" "\<forall>es. \<not> vetoes (env (dm w)) es" "later w = []" "intervals w = []"
    by (auto simp: modal_phase_def)
  have w': "modal_hide e w = modal_hide_go e g (w\<lparr>dm := fire MD_HIDE None e (dm w)\<rparr>)"
    using m w(5) by (simp add: modal_hide_def trigger_fire)
  let ?w = "modal_hide_go e g (w\<lparr>dm := fire MD_HIDE None e (dm w)\<rparr>)"
  have fade: "hasClass e ''fade'' (dm w)" using w(4) by (simp add: modal_page_def)
  have d: "dm ?w = removeClass ''show'' e (fire MD_HIDE None e (dm w))"
    "bound ?w = [(next_id w, e, Callback (HideModal e g)), (Suc (next_id w), e, MarkCalled (Suc (next_id w)))]"
    "next_id ?w = Suc (Suc (next_id w))" "has_transition ?w" "later ?w = []" "intervals ?w = []"
    using m w fade by (simp_all add: modal_hide_go_def Let_def setResizeEvent_def setEscapeEvent_def)
  have at: "\<exists>m'. modal_at e ?w = Some m' \<and> md_gen m' = g \<and> md_dialog m' = Some x \<and> truthy (get (md_config m') ''backdrop'')
        \<and> \<not> md_isShown m' \<and> md_isTransitioning m' \<and> md_backdrop m' = Some b"
    using m w fade by (simp add: modal_hide_go_def Let_def setResizeEvent_def setEscapeEvent_def)
  have "waiting e (HideModal e g) ?w" by (simp add: waiting_def d)
  then show ?thesis unfolding w' using at d w by (auto simp: modal_phase_def modal_page_def backdrop_on_def)
qed

lemma phase_end:
  assumes ph: "modal_phase e x g ph w" and y: "awaited e x w = Some y"
  shows "modal_phase e x g (phase_next ph AEnd) (triggerTransitionEnd modal_run y w)"
proof (cases ph)
  case BackdropIn
  then show ?thesis using phase_backdrop_in ph y by simp
next
  case DialogIn
  then show ?thesis using phase_dialog_in ph y by simp
next
  case DialogOut
  then show ?thesis using phase_dialog_out ph y by simp
next
  case BackdropOut
  then show ?thesis using phase_backdrop_out ph y by simp
qed (use y phase_of_phase [OF ph] in \<open>simp_all add: awaited_def\<close>)

lemma phase_ended:
  assumes ph: "modal_phase e x g ph w"
  shows "modal_phase e x g (phase_next ph (if awaited e x w = Some y then AEnd else ANothing)) (triggerTransitionEnd modal_run y w)"
proof (cases "awaited e x w = Some y")
  case True
  then show ?thesis using phase_end [OF ph True] by simp
next
  case False
  have nothing: "phase_next ph ANothing = ph" by (cases ph) simp_all
  have "triggerTransitionEnd modal_run y w = w"
  proof (cases "awaited e x w")
    case None
    then have "bound w = []" by (rule phase_awaited(2) [OF ph])
    then show ?thesis by (intro no_handlers) (simp add: bound_on_def)
  next
    case (Some z)
    then obtain cb where "waiting z cb w" using phase_awaited(1) [OF ph] by blast
    then show ?thesis using False Some by (intro waiting_ends(2)) auto
  qed
  then show ?thesis using False ph nothing by simp
qed

lemma phase_modal_show:
  assumes ph: "modal_phase e x g ph w" and "ph \<noteq> BackdropOut"
  shows "modal_phase e x g (phase_next ph AShow) (modal_show e rel w)"
proof (cases "ph = Hidden")
  case True
  then show ?thesis using phase_show ph by simp
next
  case False
  obtain m where "modal_at e w = Some m" "md_isTransitioning m \<or> md_isShown m"
    using ph assms(2) False by (cases ph) (auto simp: modal_phase_def)
  then have "modal_show e rel w = w" by (simp add: modal_show_def)
  moreover have "phase_next ph AShow = ph" using False by (cases ph) simp_all
  ultimately show ?thesis using ph by simp
qed

lemma phase_modal_hide:
  assumes ph: "modal_phase e x g ph w"
  shows "modal_phase e x g (phase_next ph AHide) (modal_hide e w)"
proof (cases "ph = Shown")
  case True
  then show ?thesis using phase_hide ph by simp
next
  case False
  obtain m where "modal_at e w = Some m" "md_isTransitioning m \<or> \<not> md_isShown m"
    using ph False by (cases ph) (auto simp: modal_phase_def)
  then have "modal_hide e w = w" by (simp add: modal_hide_def)
  moreover have "phase_next ph AHide = ph" using False by (cases ph) simp_all
  ultimately show ?thesis using ph by simp
qed

lemma phase_toggle:
  assumes ph: "modal_phase e x g ph w" and nb: "ph \<noteq> BackdropOut"
  shows "modal_phase e x g (phase_next ph AToggle) (modal_toggle e rel w)"
proof -
  obtain m where m: "modal_at e w = Some m" using ph by (auto simp: modal_phase_def)
  show ?thesis
  proof (cases "md_isShown m")
    case True
    then have "phase_next ph AToggle = phase_next ph AHide" using m ph by (cases ph) (auto simp: modal_phase_def)
    then show ?thesis using phase_modal_hide [OF ph] m True by (simp add: modal_toggle_def)
  next
    case False
    then have "phase_next ph AToggle = phase_next ph AShow" using m ph by (cases ph) (auto simp: modal_phase_def)
    then show ?thesis using phase_modal_show [OF assms] m False by (simp add: modal_toggle_def)
  qed
qed

lemma phase_tick:
  assumes ph: "modal_phase e x g ph w"
  shows "modal_phase e x g (phase_next ph (input_of e x w (MTick t))) (tick_step modal_run t w)"
proof -
  have nothing: "phase_next ph ANothing = ph" by (cases ph) simp_all
  have rest: "later w = []" "intervals w = []" using ph by (simp_all add: modal_phase_def)
  show ?thesis
  proof (cases t)
    case (Timer n)
    show ?thesis
    proof (cases "map_of (timers w) n")
      case None
      then show ?thesis using ph nothing Timer by (simp add: timer_fires_def)
    next
      case (Some y)
      let ?w = "w\<lparr>timers := filter (\<lambda>t. fst t \<noteq> n) (timers w)\<rparr>"
      have ph': "modal_phase e x g ph ?w" using ph by simp
      have "phase_of e ?w = phase_of e w" unfolding phase_of_def modal_at_simps by simp
      then have "awaited e x ?w = awaited e x w" unfolding awaited_def modal_at_simps by simp
      then show ?thesis using phase_ended [OF ph', of y] ph' nothing Timer Some by (auto simp: timer_fires_def Let_def)
    qed
  qed (use ph nothing rest phase_ended [OF ph] in simp_all)
qed

text \<open>
  C3: the modal refines its contract. For a modal with a fade effect and a backdrop, on a page that
  prevents nothing, every call of \<open>show\<close>, \<open>hide\<close> and \<open>toggle\<close>, every Escape and every end of a
  transition or of its timer takes the modal from the phase it is in to the next one of the abstract
  machine, and in each phase the object's flags, the classes and styles of the modal, its backdrop and
  the body, and the awaited callback are the ones of that phase. The one exception is a call of \<open>show\<close>
  or \<open>toggle\<close> while the backdrop fades out.
\<close>

theorem modal_refines:
  assumes ph: "modal_phase e x g (phase_of e w) w"
    and op: "phase_of e w = BackdropOut \<Longrightarrow> input_of e x w op \<noteq> AShow \<and> input_of e x w op \<noteq> AToggle"
  shows "modal_phase e x g (phase_next (phase_of e w) (input_of e x w op)) (modal_step e op w)
    \<and> phase_of e (modal_step e op w) = phase_next (phase_of e w) (input_of e x w op)"
proof -
  have "modal_phase e x g (phase_next (phase_of e w) (input_of e x w op)) (modal_step e op w)"
  proof (cases op)
    case (MShow rel)
    then show ?thesis using phase_modal_show [OF ph] op by auto
  next
    case MHide
    then show ?thesis using phase_modal_hide [OF ph] by simp
  next
    case (MToggle rel)
    then show ?thesis using phase_toggle [OF ph] op by auto
  next
    case (MEscape k)
    have "phase_next (phase_of e w) ANothing = phase_of e w" by (cases "phase_of e w") simp_all
    then show ?thesis using phase_modal_hide [OF ph] ph MEscape by (simp add: modal_escape_def split: option.split)
  next
    case (MTick t)
    then show ?thesis using phase_tick [OF ph] by simp
  qed
  then show ?thesis using phase_of_phase by blast
qed

text \<open>
  C20: a modal that is shown again while its backdrop fades out is lost. The end of the old backdrop's
  transition removes the new backdrop and its handler, takes \<open>modal-open\<close> off the body and leaves the
  old backdrop in the document; the modal stays in transition with no callback left to end it, so every
  later \<open>show\<close> and \<open>hide\<close> returns at once.
\<close>

theorem reopen_during_fade_locks:
  assumes ph: "modal_phase e x g BackdropOut w" and b: "awaited e x w = Some b"
    and w'_def: "w' = triggerTransitionEnd modal_run b (modal_show e rel w)"
  shows "bound w' = [] \<and> parent_of (dtree (dm w')) b = Some (body_elem (dtree (dm w')))
    \<and> \<not> hasClass (body_elem (dtree (dm w'))) ''modal-open'' (dm w')
    \<and> (\<exists>m. modal_at e w' = Some m \<and> md_isShown m \<and> md_isTransitioning m \<and> md_backdrop m = None)
    \<and> modal_hide e w' = w' \<and> modal_show e rel' w' = w'"
proof -
  from ph obtain m b0 where m: "modal_at e w = Some m" "md_gen m = g" "md_dialog m = Some x" "truthy (get (md_config m) ''backdrop'')"
    "\<not> md_isShown m" "\<not> md_isTransitioning m" "md_backdrop m = Some b0" and wt: "waiting b0 (AfterRemove e g ThenHidden) w"
    and w: "backdrop_on b0 e x (dm w)" "has_transition w" "modal_page e x (dm w)" "\<forall>es. \<not> vetoes (env (dm w)) es"
    by (auto simp: modal_phase_def)
  have b0: "b0 = b" using b m phase_of_phase [OF ph] by (simp add: awaited_def)
  from wt obtain i n where bw: "i \<noteq> n" "bound w = [(i, b, Callback (AfterRemove e g ThenHidden)), (n, b, MarkCalled n)]"
    by (auto simp: waiting_def b0)
  let ?w = "modal_show e rel w"
  from modal_show_effect [OF w(2,3,4) m(1,5,6,3,4), of rel] obtain m' c k where
    m': "modal_at e ?w = Some m'" "md_gen m' = md_gen m" "md_isShown m'" "md_isTransitioning m'" "md_backdrop m' = Some c"
    and bd: "bound ?w = bound w @ [(k, c, Callback (AfterBackdrop e (md_gen m) (ThenShow rel))), (Suc k, c, MarkCalled (Suc k))]"
    and c: "c \<notin> set (node_order (dtree (dm w)))" and body: "body_elem (dtree (dm ?w)) = body_elem (dtree (dm w))"
    and kp: "\<forall>y \<in> set (node_order (dtree (dm w))). parent_of (dtree (dm ?w)) y = parent_of (dtree (dm w)) y"
    by blast
  have bc: "c \<noteq> b" "parent_of (dtree (dm ?w)) b = Some (body_elem (dtree (dm w)))"
    using c w(1) kp by (auto simp: backdrop_on_def b0)
  have on: "bound_on b ?w = [(i, b, Callback (AfterRemove e g ThenHidden)), (n, b, MarkCalled n)]"
    using bd bw bc by (simp add: bound_on_def)
  let ?v = "modal_run (AfterRemove e g ThenHidden) (unbind i ?w)"
  have w': "w' = (unbind n ?v)\<lparr>called := (called ?v)(n := True)\<rparr>"
    unfolding w'_def using awaited_runs [OF on, of modal_run] by simp
  have "modal_at e (unbind i ?w) = Some m'" "md_gen m' = g" using m' m by simp_all
  note bg = backdrop_gone [OF this m'(5)]
  have bnd: "bound w' = []"
  proof -
    have "bound w' = filter (\<lambda>b. fst b \<noteq> n) (bound ?v)" by (simp only: w') simp
    then show ?thesis unfolding bg(2) using bd bw by (simp add: filter_empty_conv)
  qed
  have at: "modal_at e w' = Some (m'\<lparr>md_backdrop := None\<rparr>)" using bg(1) by (simp only: w') simp
  have tr: "dtree (dm w') = dtree (detach c (dm ?w))" using bg(7) by (simp only: w') simp
  have "\<not> hasClass (body_elem (dtree (dm w'))) ''modal-open'' (dm w')"
    using bg(8) by (simp only: w' tr [unfolded w']) simp
  then show ?thesis using bnd at tr bc body m' by (auto simp: modal_hide_def modal_show_def)
qed

text \<open>
  C21: a prevented \<open>show\<close> locks a fading modal. The flag \<open>_isTransitioning\<close> is set before the page is
  asked, and nothing resets it: no callback is bound, the modal stays hidden, and every later \<open>show\<close>
  and \<open>hide\<close> returns at once.
\<close>

theorem prevented_show_locks:
  assumes m: "modal_at e w = Some m" "\<not> md_isShown m" "\<not> md_isTransitioning m" "has_transition w" "hasClass e ''fade'' (dm w)"
    and veto: "vetoes (env (dm w)) (event_log (dm w) @ [Event MD_SHOW e rel])"
  shows "bound (modal_show e rel w) = bound w \<and> modal_at e (modal_show e rel w) = Some (m\<lparr>md_isTransitioning := True\<rparr>)
    \<and> modal_show e rel' (modal_show e rel w) = modal_show e rel w \<and> modal_hide e (modal_show e rel w) = modal_show e rel w"
proof -
  let ?w = "modal_show e rel w"
  have w: "?w = arm_restore e True ((md_upd e (md_isTransitioning_update (\<lambda>_. True)) w)\<lparr>dm := fire MD_SHOW rel e (dm w)\<rparr>)"
    using assms by (simp add: modal_show_def trigger_fire)
  have at: "modal_at e ?w = Some (m\<lparr>md_isTransitioning := True\<rparr>)" unfolding w using m by simp
  moreover have "bound ?w = bound w" unfolding w by simp
  moreover have "modal_show e rel' ?w = ?w" "modal_hide e ?w = ?w" using at by (simp_all add: modal_show_def [of e rel'] modal_hide_def)
  ultimately show ?thesis by simp
qed

subsection \<open>A page with a modal\<close>

text \<open>The modal 2 with its dialog 3, the backdrop 4 of a modal that fades out, and a navbar 5 fixed at the top with its toggler 6.\<close>

definition modal_doc :: dom where
  "modal_doc = setStyle ''display'' ''none'' 2 (page
     [(0, None, ''html'', [], []), (1, Some 0, ''body'', [], []), (2, Some 1, ''div'', [''modal'', ''fade''], []),
      (3, Some 2, ''div'', [''modal-dialog''], []), (4, Some 1, ''div'', [''modal-backdrop'', ''fade''], []),
      (5, Some 1, ''nav'', [''fixed-top''], []), (6, Some 5, ''button'', [''navbar-toggler''], [])])"

definition modal_object :: "elem option \<Rightarrow> modal" where
  "modal_object b =
     \<lparr>md_gen = 7, md_config = modal_Default, md_dialog = Some 3, md_backdrop = b, md_isShown = False,
      md_isBodyOverflowing = False, md_ignoreBackdropClick = False, md_scrollbarWidth = 0, md_isTransitioning = False,
      md_keydown = False, md_dismiss = False, md_backdropClick = False, md_mousedown = False, md_mouseup = False,
      md_resize = False, md_focusin = False\<rparr>"

definition modal_demo :: modal_world where
  "modal_demo = (new_world modal_doc)\<lparr>insts := [2 \<mapsto> \<lparr>sl_modal = Some (modal_object None), sl_armed = [], sl_restore = []\<rparr>],
     next_id := 8, has_transition := True\<rparr>"

definition fading_demo :: modal_world where
  "fading_demo = (new_world modal_doc)\<lparr>insts := [2 \<mapsto> \<lparr>sl_modal = Some (modal_object (Some 4)), sl_armed = [], sl_restore = []\<rparr>],
     next_id := 10, has_transition := True, bound := [(8, 4, Callback (AfterRemove 2 7 ThenHidden)), (9, 4, MarkCalled 9)]\<rparr>"

definition vetoed_demo :: modal_world where
  "vetoed_demo = modal_demo\<lparr>dm := modal_doc\<lparr>env := (env modal_doc)\<lparr>vetoes := \<lambda>_. True\<rparr>\<rparr>\<rparr>"

lemma modal_doc_simps: "\<not> vetoes (env modal_doc) es"
  by (simp add: modal_doc_def)

lemma modal_doc_page: "modal_page 2 3 modal_doc"
  unfolding modal_page_def tree_ok_def by code_simp

lemma modal_demo_at: "modal_at 2 modal_demo = Some (modal_object None)" "modal_at 2 fading_demo = Some (modal_object (Some 4))"
  "modal_at 2 vetoed_demo = Some (modal_object None)"
  by (simp_all add: modal_at_def slot_def modal_demo_def fading_demo_def vetoed_demo_def)

lemma modal_demo_phase: "modal_phase 2 3 7 Hidden modal_demo"
proof -
  have "\<not> hasClass 2 ''show'' modal_doc" "\<not> hasClass (body_elem (dtree modal_doc)) ''modal-open'' modal_doc"
    "truthy (get modal_Default ''backdrop'')" by code_simp+
  then show ?thesis unfolding modal_phase_def modal_demo_at
    by (simp add: modal_object_def modal_doc_simps modal_doc_page) (simp add: modal_demo_def new_world_def modal_doc_page modal_doc_simps)
qed

lemma fading_demo_phase: "modal_phase 2 3 7 BackdropOut fading_demo"
proof -
  have d: "dm fading_demo = modal_doc" "has_transition fading_demo" "later fading_demo = []" "intervals fading_demo = []"
    by (simp_all add: fading_demo_def new_world_def)
  have w: "waiting 4 (AfterRemove 2 7 ThenHidden) fading_demo" by (simp add: waiting_def fading_demo_def)
  have "\<not> hasClass 2 ''show'' modal_doc" "\<not> hasClass 4 ''show'' modal_doc" "backdrop_on 4 2 3 modal_doc"
    "style_of modal_doc 2 ''display'' = ''none''" "truthy (get modal_Default ''backdrop'')"
    unfolding backdrop_on_def by code_simp+
  then show ?thesis unfolding modal_phase_def modal_demo_at d using w
    by (simp add: modal_object_def modal_doc_simps modal_doc_page d)
qed

theorem modal_refines_witness:
  "phase_of 2 modal_demo = Hidden \<and> phase_of 2 (modal_step 2 (MShow None) modal_demo) = BackdropIn"
proof -
  have h: "phase_of 2 modal_demo = Hidden" using phase_of_phase [OF modal_demo_phase] .
  then have "modal_phase 2 3 7 (phase_of 2 modal_demo) modal_demo" using modal_demo_phase by simp
  from modal_refines [OF this, of "MShow None"] h show ?thesis by simp
qed

theorem reopen_during_fade_locks_witness:
  "let w' = triggerTransitionEnd modal_run 4 (modal_show 2 None fading_demo)
   in bound w' = [] \<and> parent_of (dtree (dm w')) 4 = Some (body_elem (dtree (dm w'))) \<and> modal_hide 2 w' = w'"
proof -
  have "awaited 2 3 fading_demo = Some 4"
    by (simp add: awaited_def phase_of_phase [OF fading_demo_phase] modal_demo_at modal_object_def)
  from reopen_during_fade_locks [OF fading_demo_phase this refl] show ?thesis by (simp add: Let_def)
qed

theorem prevented_show_locks_witness:
  "modal_hide 2 (modal_show 2 None vetoed_demo) = modal_show 2 None vetoed_demo"
proof -
  have d: "dm vetoed_demo = modal_doc\<lparr>env := (env modal_doc)\<lparr>vetoes := \<lambda>_. True\<rparr>\<rparr>" "has_transition vetoed_demo"
    by (simp_all add: vetoed_demo_def modal_demo_def)
  have "hasClass 2 ''fade'' modal_doc" by code_simp
  then have "hasClass 2 ''fade'' (dm vetoed_demo)" by (simp add: d hasClass_def)
  with prevented_show_locks [OF modal_demo_at(3) _ _ d(2) this] show ?thesis by (simp add: d modal_object_def)
qed

theorem scrollbar_roundtrip_witness:
  "jq_all is_fixed_content modal_doc = [5]
   \<and> style_of (setScrollbar 15 modal_doc) 5 ''padding-right'' = ''15px''
   \<and> style_of (resetScrollbar (setScrollbar 15 modal_doc)) = style_of modal_doc"
proof -
  have c: "distinct (node_order (dtree modal_doc))" "\<not> is_fixed_content modal_doc (body_elem (dtree modal_doc))"
    "jq_all is_fixed_content modal_doc = [5]" "style_of (setScrollbar 15 modal_doc) 5 ''padding-right'' = ''15px''" by code_simp+
  have "data_of modal_doc x k = None" for x k by (simp add: modal_doc_def page_def)
  moreover have "\<not> is_sticky modal_doc x \<or> \<not> is_navbar_toggler modal_doc x" for x
    by (auto simp: is_sticky_def is_navbar_toggler_def modal_doc_def)
  ultimately show ?thesis using c scrollbar_roundtrip [of modal_doc 15] by blast
qed

end
