(* ===== verification/Bs_Tooltip.thy ===== *)
theory Bs_Tooltip
  imports Bs_Util
begin

section \<open>Tooltip and Popover\<close>

text \<open>
  The Tooltip component of \<open>bootstrap.js\<close> and the Popover that inherits from it. The operations take
  the class as an argument; each class keeps its objects under its own data key, so a world holds the
  objects of one class. Popper is third-party code: creating one records the placement it was given and
  writes the \<open>x-placement\<close> attribute Popper writes, and its callbacks are operations of their own. The
  element a template makes is one element with the classes of its root; what its inner parts show is kept
  in the object. The two delays of an option object are the keys \<open>delay.show\<close> and \<open>delay.hide\<close>. The
  empty \<open>mouseover\<close> listeners for iOS have no effect and are left out. An operation that throws
  leaves the state it reached.
\<close>

datatype tip_class = Tooltip | Popover

datatype hover_state = HoverShow | HoverOut | HoverNone

record tip =
  tt_gen :: nat
  tt_isEnabled :: bool
  tt_timeout :: "nat option"
  tt_hoverState :: hover_state
  tt_click :: bool
  tt_focus :: bool
  tt_hover :: bool
  tt_popper :: "(elem \<times> string option) option"
  tt_config :: jsobj
  tt_tip :: "elem option"
  tt_triggers :: "string list"
  tt_selector :: jsval
  tt_modal :: "elem option"
  tt_inner :: "(string \<times> jsval \<times> bool) list"

datatype tip_cb =
    ShowComplete elem nat
  | HideComplete elem nat elem
  | DelayedShow nat elem nat
  | DelayedHide nat elem nat

type_synonym tip_world = "(tip, tip_cb) world"

datatype 'w outcome = Threw js_error 'w | Done 'w

fun and_then :: "'w outcome \<Rightarrow> ('w \<Rightarrow> 'w outcome) \<Rightarrow> 'w outcome" where
  "and_then (Threw err w) f = Threw err w"
| "and_then (Done w) f = f w"

fun final :: "'w outcome \<Rightarrow> 'w" where
  "final (Threw err w) = w"
| "final (Done w) = w"

subsection \<open>What the two classes differ in\<close>

fun tip_NAME :: "tip_class \<Rightarrow> string" where
  "tip_NAME Tooltip = ''tooltip''"
| "tip_NAME Popover = ''popover''"

fun tip_event :: "tip_class \<Rightarrow> string \<Rightarrow> string" where
  "tip_event K ev = ev @ ''.bs.'' @ tip_NAME K"

declare tip_event.simps [simp del]

definition tooltip_Default :: jsobj where
  "tooltip_Default = map_of
     [(''animation'', JBool True),
      (''template'', JStr ''<div class=\"tooltip\" role=\"tooltip\"><div class=\"arrow\"></div><div class=\"tooltip-inner\"></div></div>''),
      (''trigger'', JStr ''hover focus''), (''title'', JStr ''''), (''delay'', JNum 0), (''html'', JBool False),
      (''selector'', JBool False), (''placement'', JStr ''top''), (''offset'', JNum 0), (''container'', JBool False),
      (''fallbackPlacement'', JStr ''flip''), (''boundary'', JStr ''scrollParent'')]"

definition popover_Default :: jsobj where
  "popover_Default = extends tooltip_Default (map_of
     [(''placement'', JStr ''right''), (''trigger'', JStr ''click''), (''content'', JStr ''''),
      (''template'', JStr ''<div class=\"popover\" role=\"tooltip\"><div class=\"arrow\"></div><h3 class=\"popover-header\"></h3><div class=\"popover-body\"></div></div>'')])"

fun tip_Default :: "tip_class \<Rightarrow> jsobj" where
  "tip_Default Tooltip = tooltip_Default"
| "tip_Default Popover = popover_Default"

definition tooltip_DefaultType :: "(string \<times> string) list" where
  "tooltip_DefaultType =
     [(''animation'', ''boolean''), (''template'', ''string''), (''title'', ''(string|element|function)''),
      (''trigger'', ''string''), (''delay'', ''(number|object)''), (''html'', ''boolean''),
      (''selector'', ''(string|boolean)''), (''placement'', ''(string|function)''), (''offset'', ''(number|string)''),
      (''container'', ''(string|element|boolean)''), (''fallbackPlacement'', ''(string|array)''), (''boundary'', ''(string|element)'')]"

definition popover_DefaultType :: "(string \<times> string) list" where
  "popover_DefaultType = tooltip_DefaultType @ [(''content'', ''(string|element|function)'')]"

fun tip_DefaultType :: "tip_class \<Rightarrow> (string \<times> string) list" where
  "tip_DefaultType Tooltip = tooltip_DefaultType"
| "tip_DefaultType Popover = popover_DefaultType"

definition class_prefix :: "tip_class \<Rightarrow> string" where
  "class_prefix K = ''bs-'' @ tip_NAME K"

subsection \<open>Objects\<close>

definition tip_obj :: "elem \<Rightarrow> nat \<Rightarrow> tip_world \<Rightarrow> tip option" where
  "tip_obj e g w = (case insts w e of None \<Rightarrow> None | Some c \<Rightarrow> if tt_gen c = g then Some c else None)"

definition tt_upd :: "elem \<Rightarrow> (tip \<Rightarrow> tip) \<Rightarrow> tip_world \<Rightarrow> tip_world" where
  "tt_upd e f w = w\<lparr>insts := (insts w)(e := map_option f (insts w e))\<rparr>"

fun timeout_id :: "tip_cb \<Rightarrow> nat option" where
  "timeout_id (DelayedShow n e g) = Some n"
| "timeout_id (DelayedHide n e g) = Some n"
| "timeout_id _ = None"

definition clearTimeout :: "nat option \<Rightarrow> tip_world \<Rightarrow> tip_world" where
  "clearTimeout n w = w\<lparr>later := filter (\<lambda>cb. timeout_id cb = None \<or> timeout_id cb \<noteq> n) (later w)\<rparr>"

definition jstr :: "string option \<Rightarrow> jsval" where
  "jstr s = (case s of None \<Rightarrow> JNull | Some t \<Rightarrow> JStr t)"

definition or_else :: "jsval \<Rightarrow> jsval \<Rightarrow> jsval" where
  "or_else a b = (if truthy a then a else b)"

definition option_value :: "string \<Rightarrow> elem \<Rightarrow> jsobj \<Rightarrow> dom \<Rightarrow> jsval" where
  "option_value k e cfg d = (if get cfg k = JFun then call_fn (env d) (event_log d) e k else get cfg k)"

definition getTitle :: "elem \<Rightarrow> tip \<Rightarrow> dom \<Rightarrow> jsval" where
  "getTitle e c d = or_else (jstr (attr_of d e ''data-original-title'')) (option_value ''title'' e (tt_config c) d)"

definition getContent :: "elem \<Rightarrow> tip \<Rightarrow> dom \<Rightarrow> jsval" where
  "getContent e c d = or_else (jstr (attr_of d e ''data-content'')) (get (tt_config c) ''content'')"

fun isWithContent :: "tip_class \<Rightarrow> elem \<Rightarrow> tip \<Rightarrow> dom \<Rightarrow> bool" where
  "isWithContent Tooltip e c d = truthy (getTitle e c d)"
| "isWithContent Popover e c d = (truthy (getTitle e c d) \<or> truthy (getContent e c d))"

definition isWithActiveTrigger :: "tip \<Rightarrow> bool" where
  "isWithActiveTrigger c \<longleftrightarrow> tt_click c \<or> tt_focus c \<or> tt_hover c"

definition getAttachment :: "string \<Rightarrow> string option" where
  "getAttachment placement =
     map_of [(''AUTO'', ''auto''), (''TOP'', ''top''), (''RIGHT'', ''right''), (''BOTTOM'', ''bottom''), (''LEFT'', ''left'')]
       (toUpperCase placement)"

text \<open>An undefined attachment is printed as such in the class name.\<close>

definition attachment_class :: "tip_class \<Rightarrow> string option \<Rightarrow> string" where
  "attachment_class K a = class_prefix K @ ''-'' @ (case a of None \<Rightarrow> ''undefined'' | Some s \<Rightarrow> s)"

subsection \<open>The tip's element\<close>

definition getTipElement :: "elem \<Rightarrow> tip_world \<Rightarrow> elem \<times> tip_world" where
  "getTipElement e w =
     (case insts w e of
        None \<Rightarrow> (e, w)
      | Some c \<Rightarrow>
          (case tt_tip c of
             Some t \<Rightarrow> (t, w)
           | None \<Rightarrow>
               let t = fresh_elem (dm w);
                   classes = parse_html (env (dm w)) (js_string (get (tt_config c) ''template''))
               in (t, tt_upd e (tt_tip_update (\<lambda>_. Some t)) (on_dom (new_detached ''div'' classes t) w))))"

definition addAttachmentClass :: "tip_class \<Rightarrow> elem \<Rightarrow> string option \<Rightarrow> tip_world \<Rightarrow> tip_world" where
  "addAttachmentClass K e a w = (let (t, w) = getTipElement e w in on_dom (addClass (attachment_class K a) t) w)"

definition is_attachment_class :: "tip_class \<Rightarrow> string \<Rightarrow> bool" where
  "is_attachment_class K c \<longleftrightarrow> startsWith c (class_prefix K) \<and> length c > length (class_prefix K)"

definition cleanTipClass :: "tip_class \<Rightarrow> elem \<Rightarrow> tip_world \<Rightarrow> tip_world" where
  "cleanTipClass K e w =
     (let (t, w) = getTipElement e w
      in on_dom (\<lambda>d. fold (\<lambda>c. removeClass c t) (filter (is_attachment_class K) (class_of d t)) d) w)"

definition handlePopperPlacementChange :: "tip_class \<Rightarrow> elem \<Rightarrow> string \<Rightarrow> tip_world \<Rightarrow> tip_world" where
  "handlePopperPlacementChange K e placement w = addAttachmentClass K e (getAttachment placement) (cleanTipClass K e w)"

text \<open>Popper's callbacks \<open>onCreate\<close> and \<open>onUpdate\<close>.\<close>

definition tip_onCreate :: "tip_class \<Rightarrow> elem \<Rightarrow> string \<Rightarrow> string \<Rightarrow> tip_world \<Rightarrow> tip_world" where
  "tip_onCreate K e originalPlacement placement w =
     (if originalPlacement \<noteq> placement then handlePopperPlacementChange K e placement w else w)"

definition tip_onUpdate :: "tip_class \<Rightarrow> elem \<Rightarrow> string \<Rightarrow> tip_world \<Rightarrow> tip_world" where
  "tip_onUpdate K e placement w = handlePopperPlacementChange K e placement w"

text \<open>What an inner element shows: its class, the content, and whether it is inserted as HTML.\<close>

definition setElementContent :: "elem \<Rightarrow> string \<Rightarrow> jsval \<Rightarrow> tip_world \<Rightarrow> tip_world" where
  "setElementContent e part content w =
     tt_upd e (\<lambda>c. c\<lparr>tt_inner := filter (\<lambda>p. fst p \<noteq> part) (tt_inner c) @ [(part, content, truthy (get (tt_config c) ''html''))]\<rparr>) w"

fun setContent :: "tip_class \<Rightarrow> elem \<Rightarrow> tip \<Rightarrow> tip_world \<Rightarrow> tip_world" where
  "setContent Tooltip e c w =
     (let (t, w) = getTipElement e w;
          w = setElementContent e ''tooltip-inner'' (getTitle e c (dm w)) w
      in on_dom (removeClass ''show'' t \<circ> removeClass ''fade'' t) w)"
| "setContent Popover e c w =
     (let (t, w) = getTipElement e w;
          w = setElementContent e ''popover-header'' (getTitle e c (dm w)) w;
          content = getContent e c (dm w);
          content = (if content = JFun then call_fn (env (dm w)) (event_log (dm w)) e ''content'' else content);
          w = setElementContent e ''popover-body'' content w
      in on_dom (removeClass ''show'' t \<circ> removeClass ''fade'' t) w)"

subsection \<open>Hiding\<close>

text \<open>\<open>popper.destroy()\<close> takes Popper's attribute off what it positioned.\<close>

definition destroy_popper :: "tip \<Rightarrow> dom \<Rightarrow> dom" where
  "destroy_popper c d = (case tt_popper c of None \<Rightarrow> d | Some (t, _) \<Rightarrow> removeAttr ''x-placement'' t d)"

definition hide_complete :: "tip_class \<Rightarrow> elem \<Rightarrow> nat \<Rightarrow> elem \<Rightarrow> tip_world \<Rightarrow> tip_world" where
  "hide_complete K e g t w =
     (case tip_obj e g w of
        None \<Rightarrow> on_dom (detach t) w
      | Some c \<Rightarrow>
          let w = (if tt_hoverState c \<noteq> HoverShow then on_dom (detach t) w else w);
              w = cleanTipClass K e w
          in on_dom (destroy_popper c \<circ> fire (tip_event K ''hidden'') None e \<circ> removeAttr ''aria-describedby'' e) w)"

definition tip_hide :: "tip_class \<Rightarrow> elem \<Rightarrow> tip_world \<Rightarrow> tip_world" where
  "tip_hide K e w =
     (case insts w e of
        None \<Rightarrow> w
      | Some c \<Rightarrow>
          let (t, w) = getTipElement e w;
              (prevented, d) = trigger (tip_event K ''hide'') None e (dm w);
              w = w\<lparr>dm := d\<rparr>
          in if prevented then w
             else
               let w = on_dom (removeClass ''show'' t) w;
                   w = tt_upd e (\<lambda>c. c\<lparr>tt_click := False, tt_focus := False, tt_hover := False\<rparr>) w;
                   w = (if has_transition w \<and> hasClass t ''fade'' (dm w) then await_end t (HideComplete e (tt_gen c) t) w
                        else hide_complete K e (tt_gen c) t w)
               in tt_upd e (tt_hoverState_update (\<lambda>_. HoverNone)) w)"

definition delay_of :: "string \<Rightarrow> tip \<Rightarrow> jsval" where
  "delay_of k c = (if truthy (get (tt_config c) ''delay'') then get (tt_config c) (''delay.'' @ k) else JUndef)"

text \<open>The body of \<open>_leave\<close> once the context is known.\<close>

definition leave_context :: "tip_class \<Rightarrow> elem \<Rightarrow> tip_world \<Rightarrow> tip_world" where
  "leave_context K e w =
     (case insts w e of
        None \<Rightarrow> w
      | Some c \<Rightarrow>
          if isWithActiveTrigger c then w
          else
            let w = tt_upd e (tt_hoverState_update (\<lambda>_. HoverOut)) (clearTimeout (tt_timeout c) w)
            in if \<not> truthy (delay_of ''hide'' c) then tip_hide K e w
               else
                 let n = next_id w
                 in setTimeout (DelayedHide n e (tt_gen c))
                      (tt_upd e (tt_timeout_update (\<lambda>_. Some n)) (w\<lparr>next_id := Suc n\<rparr>)))"

subsection \<open>Showing\<close>

text \<open>Whether \<open>$(element).css('display')\<close> is none.\<close>

definition display_none :: "elem \<Rightarrow> dom \<Rightarrow> bool" where
  "display_none e d \<longleftrightarrow> style_of d e ''display'' = ''none'' \<or> style_of d e ''display'' = '''' \<and> layout e ''display: none'' d \<noteq> 0"

definition in_document :: "elem \<Rightarrow> dom \<Rightarrow> bool" where
  "in_document e d \<longleftrightarrow> is_desc (dtree d) (html_elem (dtree d)) e"

definition insert_tip :: "elem \<Rightarrow> jsval \<Rightarrow> dom \<Rightarrow> dom" where
  "insert_tip t container d =
     (if in_document t d then d
      else
        case container of
          JBool False \<Rightarrow> append_to_body t d
        | JElem c \<Rightarrow> append_child c t d
        | JQuery cs \<Rightarrow> (if cs = [] then d else append_child (last cs) t d)
        | JStr s \<Rightarrow> (case select s d of None \<Rightarrow> d | Some cs \<Rightarrow> if cs = [] then d else append_child (last cs) t d)
        | _ \<Rightarrow> d)"

definition create_popper :: "elem \<Rightarrow> elem \<Rightarrow> string option \<Rightarrow> tip_world \<Rightarrow> tip_world" where
  "create_popper e t attachment w =
     tt_upd e (tt_popper_update (\<lambda>_. Some (t, attachment)))
       (on_dom (\<lambda>d. case popper_sets (env d) (event_log d) of None \<Rightarrow> d | Some p \<Rightarrow> setAttr ''x-placement'' p t d) w)"

text \<open>The part of \<open>show\<close> after the page agreed, up to the wait for the transition.\<close>

definition insert_and_place :: "tip_class \<Rightarrow> elem \<Rightarrow> tip \<Rightarrow> tip_world \<Rightarrow> tip_world outcome" where
  "insert_and_place K e c w =
     (let (t, w) = getTipElement e w;
          tipId = getUID (random (env (dm w)) (event_log (dm w))) 0 (document_ids (dm w)) (tip_NAME K);
          w = on_dom (setAttr ''aria-describedby'' tipId e \<circ> setAttr ''id'' tipId t) w;
          w = setContent K e c w;
          w = (if truthy (get (tt_config c) ''animation'') then on_dom (addClass ''fade'' t) w else w)
      in case option_value ''placement'' e (tt_config c) (dm w) of
           JStr placement \<Rightarrow>
             let attachment = getAttachment placement;
                 w = addAttachmentClass K e attachment w;
                 w = on_dom (setData (''bs.'' @ tip_NAME K) (JElem e) t) w;
                 w = on_dom (insert_tip t (get (tt_config c) ''container'')) w;
                 w = on_dom (fire (tip_event K ''inserted'') None e) w;
                 w = create_popper e t attachment w
             in Done (on_dom (addClass ''show'' t) w)
         | _ \<Rightarrow> Threw (TypeErrorMsg ''placement.toUpperCase is not a function'') w)"

text \<open>The guards of \<open>show\<close>, with what follows them as an argument.\<close>

definition show_with ::
  "(tip_world \<Rightarrow> tip_world outcome) \<Rightarrow> tip_class \<Rightarrow> elem \<Rightarrow> tip_world \<Rightarrow> tip_world outcome" where
  "show_with finish K e w =
     (case insts w e of
        None \<Rightarrow> Done w
      | Some c \<Rightarrow>
          if display_none e (dm w) then Threw (ErrorMsg ''Please use show on visible elements'') w
          else if isWithContent K e c (dm w) \<and> tt_isEnabled c
          then
            let (prevented, d) = trigger (tip_event K ''show'') None e (dm w);
                w = w\<lparr>dm := d\<rparr>
            in if prevented \<or> \<not> in_document e (dm w) then Done w
               else and_then (insert_and_place K e c w) finish
          else Done w)"

text \<open>The end of \<open>complete\<close>.\<close>

definition show_done :: "tip_class \<Rightarrow> elem \<Rightarrow> tip_world \<Rightarrow> tip_world" where
  "show_done K e w =
     (case insts w e of
        None \<Rightarrow> w
      | Some c \<Rightarrow>
          let w = on_dom (fire (tip_event K ''shown'') None e) (tt_upd e (tt_hoverState_update (\<lambda>_. HoverNone)) w)
          in if tt_hoverState c = HoverOut then leave_context K e w else w)"

definition set_animation :: "jsval \<Rightarrow> elem \<Rightarrow> tip_world \<Rightarrow> tip_world" where
  "set_animation v e w = tt_upd e (\<lambda>c. c\<lparr>tt_config := (tt_config c)(''animation'' \<mapsto> v)\<rparr>) w"

text \<open>
  \<open>_fixTransition\<close> shows the tip again with the animation off: \<open>setContent\<close> took \<open>fade\<close> off the tip, so
  that inner show ends at once and does not come back here.
\<close>

definition fixTransition :: "tip_class \<Rightarrow> elem \<Rightarrow> tip_world \<Rightarrow> tip_world outcome" where
  "fixTransition K e w =
     (let (t, w) = getTipElement e w
      in case insts w e of
           None \<Rightarrow> Done w
         | Some c \<Rightarrow>
             if attr_of (dm w) t ''x-placement'' \<noteq> None then Done w
             else
               let w = set_animation (JBool False) e (on_dom (removeClass ''fade'' t) w);
                   w = tip_hide K e w
               in and_then (show_with (\<lambda>w. Done (show_done K e w)) K e w)
                    (\<lambda>w. Done (set_animation (get (tt_config c) ''animation'') e w)))"

definition show_complete :: "tip_class \<Rightarrow> elem \<Rightarrow> nat \<Rightarrow> tip_world \<Rightarrow> tip_world outcome" where
  "show_complete K e g w =
     (case tip_obj e g w of
        None \<Rightarrow> Threw (TypeErrorMsg ''Cannot read property 'animation' of null'') w
      | Some c \<Rightarrow>
          and_then (if truthy (get (tt_config c) ''animation'') then fixTransition K e w else Done w)
            (\<lambda>w. Done (show_done K e w)))"

definition show_finish :: "tip_class \<Rightarrow> elem \<Rightarrow> tip_world \<Rightarrow> tip_world outcome" where
  "show_finish K e w =
     (case insts w e of
        None \<Rightarrow> Done w
      | Some c \<Rightarrow>
          (case tt_tip c of
             None \<Rightarrow> Done w
           | Some t \<Rightarrow>
               if has_transition w \<and> hasClass t ''fade'' (dm w) then Done (await_end t (ShowComplete e (tt_gen c)) w)
               else show_complete K e (tt_gen c) w))"

definition tip_show :: "tip_class \<Rightarrow> elem \<Rightarrow> tip_world \<Rightarrow> tip_world outcome" where
  "tip_show K e w = show_with (show_finish K e) K e w"

text \<open>The body of \<open>_enter\<close> once the context is known.\<close>

definition enter_context :: "tip_class \<Rightarrow> elem \<Rightarrow> tip_world \<Rightarrow> tip_world outcome" where
  "enter_context K e w =
     (let (t, w) = getTipElement e w
      in case insts w e of
           None \<Rightarrow> Done w
         | Some c \<Rightarrow>
             if hasClass t ''show'' (dm w) \<or> tt_hoverState c = HoverShow
             then Done (tt_upd e (tt_hoverState_update (\<lambda>_. HoverShow)) w)
             else
               let w = tt_upd e (tt_hoverState_update (\<lambda>_. HoverShow)) (clearTimeout (tt_timeout c) w)
               in if \<not> truthy (delay_of ''show'' c) then tip_show K e w
                  else
                    let n = next_id w
                    in Done (setTimeout (DelayedShow n e (tt_gen c))
                         (tt_upd e (tt_timeout_update (\<lambda>_. Some n)) (w\<lparr>next_id := Suc n\<rparr>))))"

text \<open>The callbacks. What a callback throws goes to the browser.\<close>

fun tip_run :: "tip_class \<Rightarrow> tip_cb \<Rightarrow> tip_world \<Rightarrow> tip_world" where
  "tip_run K (ShowComplete e g) w = final (show_complete K e g w)"
| "tip_run K (HideComplete e g t) w = hide_complete K e g t w"
| "tip_run K (DelayedShow n e g) w =
     (case tip_obj e g w of
        None \<Rightarrow> w
      | Some c \<Rightarrow> if tt_hoverState c = HoverShow then final (tip_show K e w) else w)"
| "tip_run K (DelayedHide n e g) w =
     (case tip_obj e g w of
        None \<Rightarrow> w
      | Some c \<Rightarrow> if tt_hoverState c = HoverOut then tip_hide K e w else w)"

subsection \<open>Instances\<close>

definition js_num_str :: "jsval \<Rightarrow> jsval" where
  "js_num_str v = (case v of JNum n \<Rightarrow> JStr (int_str n) | _ \<Rightarrow> v)"

definition tip_getConfig :: "tip_class \<Rightarrow> elem \<Rightarrow> jsobj \<Rightarrow> dom \<Rightarrow> js_error + jsobj" where
  "tip_getConfig K e config d =
     (let config = extends (extends (tip_Default K) (data_of d e)) config;
          config = (case get config ''delay'' of
                      JNum n \<Rightarrow> config(''delay'' \<mapsto> JObj, ''delay.show'' \<mapsto> JNum n, ''delay.hide'' \<mapsto> JNum n)
                    | _ \<Rightarrow> config);
          config = config(''title'' := map_option js_num_str (config ''title''));
          config = config(''content'' := map_option js_num_str (config ''content''))
      in case typeCheckConfig ''tooltip'' config (tip_DefaultType K) of
           Inl err \<Rightarrow> Inl err
         | Inr _ \<Rightarrow> Inr config)"

definition getDelegateConfig :: "tip_class \<Rightarrow> tip \<Rightarrow> jsobj" where
  "getDelegateConfig K c = (\<lambda>k. if get (tip_Default K) k \<noteq> get (tt_config c) k then tt_config c k else None)"

definition fixTitle :: "elem \<Rightarrow> dom \<Rightarrow> dom" where
  "fixTitle e d =
     (let title = (case attr_of d e ''title'' of None \<Rightarrow> '''' | Some s \<Rightarrow> s)
      in if title \<noteq> '''' \<or> attr_of d e ''data-original-title'' = None
         then setAttr ''title'' '''' e (setAttr ''data-original-title'' title e d)
         else d)"

definition split_spaces :: "string \<Rightarrow> string list" where
  "split_spaces s = split_on CHR '' '' s"

definition new_tip :: "tip_class \<Rightarrow> elem \<Rightarrow> jsobj \<Rightarrow> tip_world \<Rightarrow> js_error + tip_world" where
  "new_tip K e config w =
     (if \<not> has_popper (env (dm w)) then Inl (TypeErrorMsg ''Bootstrap tooltips require Popper.js (https://popper.js.org)'')
      else
        case tip_getConfig K e config (dm w) of
          Inl err \<Rightarrow> Inl err
        | Inr cfg \<Rightarrow>
            let triggers = split_spaces (js_string (get cfg ''trigger''));
                delegated = truthy (get cfg ''selector'');
                c = \<lparr>tt_gen = next_id w, tt_isEnabled = True, tt_timeout = None, tt_hoverState = HoverNone,
                     tt_click = False, tt_focus = False, tt_hover = False, tt_popper = None,
                     tt_config = (if delegated then cfg(''trigger'' \<mapsto> JStr ''manual'', ''selector'' \<mapsto> JStr '''') else cfg),
                     tt_tip = None, tt_triggers = triggers, tt_selector = get cfg ''selector'',
                     tt_modal = jq_closest (\<lambda>d x. hasClass x ''modal'' d) e (dm w), tt_inner = []\<rparr>;
                w = w\<lparr>insts := (insts w)(e \<mapsto> c), next_id := Suc (next_id w)\<rparr>
            in Inr (if delegated then w else on_dom (fixTitle e) w))"

text \<open>\<open>off('hide.bs.modal')\<close> takes off the handlers of every tip in the modal.\<close>

definition tip_dispose :: "tip_class \<Rightarrow> elem \<Rightarrow> tip_world \<Rightarrow> tip_world" where
  "tip_dispose K e w =
     (case insts w e of
        None \<Rightarrow> w
      | Some c \<Rightarrow>
          let w = clearTimeout (tt_timeout c) w;
              m = jq_closest (\<lambda>d x. hasClass x ''modal'' d) e (dm w);
              w = w\<lparr>insts := (\<lambda>x. map_option (\<lambda>c. if m \<noteq> None \<and> tt_modal c = m then c\<lparr>tt_modal := None\<rparr> else c) (insts w x))\<rparr>;
              w = w\<lparr>insts := (insts w)(e := None)\<rparr>
          in on_dom (destroy_popper c) (case tt_tip c of
                None \<Rightarrow> w
              | Some t \<Rightarrow> on_dom (detach t) (w\<lparr>bound := filter (\<lambda>(i, x, h). x \<noteq> t) (bound w)\<rparr>)))"

definition set_enabled :: "(bool \<Rightarrow> bool) \<Rightarrow> elem \<Rightarrow> tip_world \<Rightarrow> tip_world" where
  "set_enabled f e w = tt_upd e (\<lambda>c. c\<lparr>tt_isEnabled := f (tt_isEnabled c)\<rparr>) w"

text \<open>\<open>toggle()\<close> without an event.\<close>

definition tip_toggle :: "tip_class \<Rightarrow> elem \<Rightarrow> tip_world \<Rightarrow> tip_world outcome" where
  "tip_toggle K e w =
     (case insts w e of
        None \<Rightarrow> Done w
      | Some c \<Rightarrow>
          if \<not> tt_isEnabled c then Done w
          else
            let (t, w) = getTipElement e w
            in if hasClass t ''show'' (dm w) then Done (leave_context K e w) else enter_context K e w)"

subsection \<open>Handlers of the triggers\<close>

text \<open>The object of the event's current target, made with the delegating object's options if there is none.\<close>

definition with_context ::
  "tip_class \<Rightarrow> elem \<Rightarrow> elem \<Rightarrow> (tip_world \<Rightarrow> tip_world outcome) \<Rightarrow> tip_world \<Rightarrow> tip_world outcome" where
  "with_context K e cur f w =
     (case insts w cur of
        Some _ \<Rightarrow> f w
      | None \<Rightarrow>
          (case insts w e of
             None \<Rightarrow> Done w
           | Some c \<Rightarrow>
               (case new_tip K cur (getDelegateConfig K c) w of
                  Inl err \<Rightarrow> Threw err w
                | Inr w \<Rightarrow> f w)))"

definition enter_event :: "tip_class \<Rightarrow> elem \<Rightarrow> elem \<Rightarrow> bool \<Rightarrow> tip_world \<Rightarrow> tip_world outcome" where
  "enter_event K e cur focusin w =
     with_context K e cur
       (\<lambda>w. enter_context K cur
          (tt_upd cur (\<lambda>c. if focusin then c\<lparr>tt_focus := True\<rparr> else c\<lparr>tt_hover := True\<rparr>) w)) w"

definition leave_event :: "tip_class \<Rightarrow> elem \<Rightarrow> elem \<Rightarrow> bool \<Rightarrow> tip_world \<Rightarrow> tip_world outcome" where
  "leave_event K e cur focusout w =
     with_context K e cur
       (\<lambda>w. Done (leave_context K cur
          (tt_upd cur (\<lambda>c. if focusout then c\<lparr>tt_focus := False\<rparr> else c\<lparr>tt_hover := False\<rparr>) w))) w"

definition toggle_event :: "tip_class \<Rightarrow> elem \<Rightarrow> elem \<Rightarrow> tip_world \<Rightarrow> tip_world outcome" where
  "toggle_event K e cur w =
     (case insts w e of
        None \<Rightarrow> Done w
      | Some c \<Rightarrow>
          if \<not> tt_isEnabled c then Done w
          else with_context K e cur
            (\<lambda>w. let w = tt_upd cur (\<lambda>c. c\<lparr>tt_click := \<not> tt_click c\<rparr>) w
                 in if (case insts w cur of None \<Rightarrow> False | Some c \<Rightarrow> isWithActiveTrigger c)
                    then enter_context K cur w else Done (leave_context K cur w)) w)"

datatype tip_event_type = Click | MouseEnter | MouseLeave | FocusIn | FocusOut

text \<open>The handlers that \<open>_setListeners\<close> bound for an event: one per trigger of its kind.\<close>

fun tip_handler :: "tip_class \<Rightarrow> elem \<Rightarrow> elem \<Rightarrow> tip_event_type \<Rightarrow> string \<Rightarrow> tip_world \<Rightarrow> tip_world outcome" where
  "tip_handler K e cur Click tr w = (if tr = ''click'' then toggle_event K e cur w else Done w)"
| "tip_handler K e cur MouseEnter tr w = (if tr = ''hover'' then enter_event K e cur False w else Done w)"
| "tip_handler K e cur MouseLeave tr w = (if tr = ''hover'' then leave_event K e cur False w else Done w)"
| "tip_handler K e cur FocusIn tr w =
     (if tr \<noteq> ''click'' \<and> tr \<noteq> ''manual'' \<and> tr \<noteq> ''hover'' then enter_event K e cur True w else Done w)"
| "tip_handler K e cur FocusOut tr w =
     (if tr \<noteq> ''click'' \<and> tr \<noteq> ''manual'' \<and> tr \<noteq> ''hover'' then leave_event K e cur True w else Done w)"

fun tip_handlers :: "tip_class \<Rightarrow> elem \<Rightarrow> elem \<Rightarrow> tip_event_type \<Rightarrow> string list \<Rightarrow> tip_world \<Rightarrow> tip_world outcome" where
  "tip_handlers K e cur ev [] w = Done w"
| "tip_handlers K e cur ev (tr # trs) w = and_then (tip_handler K e cur ev tr w) (tip_handlers K e cur ev trs)"

definition tip_dispatch :: "tip_class \<Rightarrow> elem \<Rightarrow> elem \<Rightarrow> tip_event_type \<Rightarrow> tip_world \<Rightarrow> tip_world outcome" where
  "tip_dispatch K e cur ev w = (case insts w e of None \<Rightarrow> Done w | Some c \<Rightarrow> tip_handlers K e cur ev (tt_triggers c) w)"

text \<open>The modal around a tip hides: one call for each trigger.\<close>

definition tip_modal_hides :: "tip_class \<Rightarrow> elem \<Rightarrow> elem \<Rightarrow> tip_world \<Rightarrow> tip_world" where
  "tip_modal_hides K m e w =
     (case insts w e of
        None \<Rightarrow> w
      | Some c \<Rightarrow> if tt_modal c = Some m then fold (\<lambda>_. tip_hide K e) (tt_triggers c) w else w)"

subsection \<open>The plugin\<close>

fun skips_missing :: "tip_class \<Rightarrow> plugin_arg \<Rightarrow> bool" where
  "skips_missing Tooltip (StrArg m) = (contains m ''dispose'' \<or> contains m ''hide'')"
| "skips_missing Popover (StrArg m) = (contains m ''destroy'' \<or> contains m ''hide'')"
| "skips_missing _ _ = False"

definition tip_method :: "tip_class \<Rightarrow> string \<Rightarrow> elem \<Rightarrow> tip_world \<Rightarrow> tip_world outcome" where
  "tip_method K m e w =
     (if m = ''enable'' then Done (set_enabled (\<lambda>_. True) e w)
      else if m = ''disable'' then Done (set_enabled (\<lambda>_. False) e w)
      else if m = ''toggleEnabled'' then Done (set_enabled Not e w)
      else if m = ''toggle'' then tip_toggle K e w
      else if m = ''dispose'' then Done (tip_dispose K e w)
      else if m = ''show'' then tip_show K e w
      else if m = ''hide'' then Done (tip_hide K e w)
      else if m = ''update'' then Done w
      else Threw (no_method m) w)"

definition tip_each :: "tip_class \<Rightarrow> plugin_arg \<Rightarrow> elem \<Rightarrow> tip_world \<Rightarrow> tip_world outcome" where
  "tip_each K config e w =
     (if insts w e = None \<and> skips_missing K config then Done w
      else
        case (if insts w e = None then new_tip K e (case config of ObjArg ob \<Rightarrow> ob | _ \<Rightarrow> (\<lambda>_. None)) w else Inr w) of
          Inl err \<Rightarrow> Threw err w
        | Inr w \<Rightarrow> (case config of StrArg m \<Rightarrow> tip_method K m e w | _ \<Rightarrow> Done w))"

fun tip_jQueryInterface :: "tip_class \<Rightarrow> plugin_arg \<Rightarrow> elem list \<Rightarrow> tip_world \<Rightarrow> tip_world outcome" where
  "tip_jQueryInterface K config [] w = Done w"
| "tip_jQueryInterface K config (e # es) w = and_then (tip_each K config e w) (tip_jQueryInterface K config es)"

subsection \<open>Facts about objects\<close>

lemma tt_upd_simps [simp]:
  "dm (tt_upd e f w) = dm w" "bound (tt_upd e f w) = bound w" "has_transition (tt_upd e f w) = has_transition w"
  "next_id (tt_upd e f w) = next_id w" "later (tt_upd e f w) = later w"
  "insts (tt_upd e f w) x = (if x = e then map_option f (insts w e) else insts w x)"
  by (simp_all add: tt_upd_def)

lemma clearTimeout_simps [simp]:
  "dm (clearTimeout n w) = dm w" "insts (clearTimeout n w) = insts w" "bound (clearTimeout n w) = bound w"
  "has_transition (clearTimeout n w) = has_transition w" "next_id (clearTimeout n w) = next_id w"
  by (simp_all add: clearTimeout_def)

lemma getTipElement_known: "insts w e = Some c \<Longrightarrow> tt_tip c = Some t \<Longrightarrow> getTipElement e w = (t, w)"
  by (simp add: getTipElement_def)

subsection \<open>The attachment class\<close>

lemma attachment_class_is: "is_attachment_class K (attachment_class K a)"
proof -
  have "startsWith (p @ s) p" for p s :: string by (simp add: startsWith_def)
  then show ?thesis by (simp add: is_attachment_class_def attachment_class_def)
qed

lemma fold_removeClass_list:
  "class_of (fold (\<lambda>c. removeClass c t) cs d) t = filter (\<lambda>k. k \<notin> set cs) (class_of d t)"
proof (induction cs arbitrary: d)
  case (Cons c cs)
  have "filter (\<lambda>k. k \<notin> set cs) (filter (\<lambda>k. k \<noteq> c) (class_of d t)) = filter (\<lambda>k. k \<notin> set (c # cs)) (class_of d t)"
    by (auto simp: filter_filter intro: filter_cong)
  then show ?case using Cons [of "removeClass c t d"] by (simp add: removeClass_def)
qed simp

text \<open>
  C22: a tip carries exactly one attachment class. When Popper reports a placement, the classes of
  the tip that start with the component's prefix are replaced by the one for that placement, and its
  other classes stay as they are.
\<close>

theorem placement_change_unique:
  assumes c: "insts w e = Some c" "tt_tip c = Some t"
  shows "filter (is_attachment_class K) (class_of (dm (handlePopperPlacementChange K e p w)) t) = [attachment_class K (getAttachment p)]
    \<and> filter (\<lambda>k. \<not> is_attachment_class K k) (class_of (dm (handlePopperPlacementChange K e p w)) t)
        = filter (\<lambda>k. \<not> is_attachment_class K k) (class_of (dm w) t)"
proof -
  let ?a = "attachment_class K (getAttachment p)"
  let ?d = "fold (\<lambda>c. removeClass c t) (filter (is_attachment_class K) (class_of (dm w) t)) (dm w)"
  have "dm (cleanTipClass K e w) = ?d" "insts (cleanTipClass K e w) e = Some c"
    using c by (simp_all add: cleanTipClass_def getTipElement_known)
  then have dm: "dm (handlePopperPlacementChange K e p w) = addClass ?a t ?d"
    using c by (simp add: handlePopperPlacementChange_def addAttachmentClass_def getTipElement_known)
  have d: "class_of ?d t = filter (\<lambda>k. \<not> is_attachment_class K k) (class_of (dm w) t)"
    unfolding fold_removeClass_list by (auto intro: filter_cong)
  then have "?a \<notin> set (class_of ?d t)" using attachment_class_is by auto
  then have "class_of (addClass ?a t ?d) t = class_of ?d t @ [?a]" by (simp add: addClass_def)
  then show ?thesis unfolding dm using d attachment_class_is by (simp add: filter_empty_conv)
qed

subsection \<open>Delays\<close>

text \<open>Making the tip's element changes nothing else of the object.\<close>

lemma getTipElement_keeps:
  assumes "insts w e = Some c" "getTipElement e w = (t, w1)"
  shows "insts w1 e = Some (c\<lparr>tt_tip := Some t\<rparr>)"
proof (cases "tt_tip c")
  case (Some t')
  then have "c\<lparr>tt_tip := Some t'\<rparr> = c" by (cases c) simp
  then show ?thesis using assms Some by (auto simp: getTipElement_def)
qed (use assms in \<open>auto simp: getTipElement_def Let_def\<close>)

lemma cleanTipClass_keeps:
  assumes "insts w e = Some c"
  shows "\<exists>t. insts (cleanTipClass K e w) e = Some (c\<lparr>tt_tip := Some t\<rparr>)"
proof -
  obtain t w1 where "getTipElement e w = (t, w1)" by (cases "getTipElement e w")
  then show ?thesis using getTipElement_keeps [OF assms] by (auto simp: cleanTipClass_def)
qed

lemma hide_complete_keeps:
  assumes "insts w e = Some c" "tt_gen c = g"
  shows "\<exists>t'. insts (hide_complete K e g t w) e = Some (c\<lparr>tt_tip := Some t'\<rparr>)"
proof -
  let ?w = "if tt_hoverState c \<noteq> HoverShow then on_dom (detach t) w else w"
  have "insts ?w e = Some c" using assms by simp
  from cleanTipClass_keeps [OF this] show ?thesis using assms by (simp add: hide_complete_def tip_obj_def Let_def)
qed

lemma tip_hide_hover:
  assumes c: "insts w e = Some c" "tt_hoverState c \<noteq> HoverShow"
  shows "\<exists>c'. insts (tip_hide K e w) e = Some c' \<and> tt_hoverState c' \<noteq> HoverShow"
proof -
  obtain t w1 where tw: "getTipElement e w = (t, w1)" by (cases "getTipElement e w")
  note k = getTipElement_keeps [OF c(1) tw]
  show ?thesis
  proof (cases "fst (trigger (tip_event K ''hide'') None e (dm w1))")
    case True
    then show ?thesis using c k tw by (simp add: tip_hide_def split_beta)
  next
    case False
    define w2 where "w2 = tt_upd e (\<lambda>c. c\<lparr>tt_click := False, tt_focus := False, tt_hover := False\<rparr>)
      (on_dom (removeClass ''show'' t) (w1\<lparr>dm := snd (trigger (tip_event K ''hide'') None e (dm w1))\<rparr>))"
    have "\<exists>c'. insts w2 e = Some c' \<and> tt_gen c' = tt_gen c" using k by (simp add: w2_def)
    then obtain c2 where c2: "insts w2 e = Some c2" "tt_gen c2 = tt_gen c" by blast
    from hide_complete_keeps [OF this, of K t] c2
    have "\<exists>c'. insts (if has_transition w2 \<and> hasClass t ''fade'' (dm w2) then await_end t (HideComplete e (tt_gen c) t) w2
        else hide_complete K e (tt_gen c) t w2) e = Some c'" by auto
    moreover have "tip_hide K e w = tt_upd e (tt_hoverState_update (\<lambda>_. HoverNone))
        (if has_transition w2 \<and> hasClass t ''fade'' (dm w2) then await_end t (HideComplete e (tt_gen c) t) w2
         else hide_complete K e (tt_gen c) t w2)"
      using c(1) tw False by (simp add: tip_hide_def split_beta Let_def w2_def)
    ultimately show ?thesis by auto
  qed
qed

lemma leave_context_hover:
  assumes c: "insts w e = Some c" "\<not> isWithActiveTrigger c"
  shows "\<exists>c'. insts (leave_context K e w) e = Some c' \<and> tt_hoverState c' \<noteq> HoverShow"
proof (cases "truthy (delay_of ''hide'' c)")
  case True
  then show ?thesis using c by (simp add: leave_context_def Let_def)
next
  case False
  let ?w = "tt_upd e (tt_hoverState_update (\<lambda>_. HoverOut)) (clearTimeout (tt_timeout c) w)"
  have "insts ?w e = Some (c\<lparr>tt_hoverState := HoverOut\<rparr>)" using c by simp
  from tip_hide_hover [OF this] show ?thesis using c False by (simp add: leave_context_def Let_def)
qed

text \<open>
  C23: a delayed \<open>show\<close> is cancelled by leaving. When the last active trigger of a tip ends, by the
  pointer or by the focus, no delayed \<open>show\<close> that is still due for the element does anything, whether
  its timer was cleared or not, and whether the tip then hides at once, later, or is kept by the page.
\<close>

theorem leave_cancels_show:
  assumes c: "insts w e = Some c" "\<not> tt_click c" "if focusout then \<not> tt_hover c else \<not> tt_focus c"
  shows "\<exists>w'. leave_event K e e focusout w = Done w' \<and> (\<forall>n g. tip_run K (DelayedShow n e g) w' = w')"
proof -
  let ?w = "tt_upd e (\<lambda>c. if focusout then c\<lparr>tt_focus := False\<rparr> else c\<lparr>tt_hover := False\<rparr>) w"
  let ?c = "if focusout then c\<lparr>tt_focus := False\<rparr> else c\<lparr>tt_hover := False\<rparr>"
  have "insts ?w e = Some ?c" "\<not> isWithActiveTrigger ?c" using c by (auto simp: isWithActiveTrigger_def)
  from leave_context_hover [OF this, of K] obtain c' where
    "insts (leave_context K e ?w) e = Some c'" "tt_hoverState c' \<noteq> HoverShow" by blast
  then show ?thesis using c(1) by (simp add: leave_event_def with_context_def tip_obj_def)
qed

subsection \<open>Showing\<close>

lemma setContent_attr:
  assumes c: "insts w e = Some c" "tt_tip c = Some t"
  shows "attr_of (dm (setContent K e c' w)) = attr_of (dm w)"
    and "\<exists>c''. insts (setContent K e c' w) e = Some c'' \<and> tt_tip c'' = Some t \<and> tt_gen c'' = tt_gen c"
    and "dtree (dm (setContent K e c' w)) = dtree (dm w)" "has_transition (setContent K e c' w) = has_transition w"
  using c by (cases K; simp add: getTipElement_known setElementContent_def Let_def)+

lemma insert_tip_attr [simp]: "attr_of (insert_tip t k d) = attr_of d" "class_of (insert_tip t k d) = class_of d"
  by (auto simp: insert_tip_def append_child_def Let_def split: jsval.split bool.split option.split)

lemma document_ids_fire [simp]: "document_ids (fire n r e d) = document_ids d"
  by (simp add: document_ids_def)

text \<open>
  C24: a shown tip describes its element. If \<open>show\<close> is not refused and the tip fades in, the element's
  \<open>aria-describedby\<close> is the id of the tip, an id no element of the document had, and the tip carries
  \<open>show\<close>.
\<close>

theorem shown_tip_describes:
  assumes c: "insts w e = Some c" "tt_tip c = Some t" "tt_isEnabled c" "isWithContent K e c (dm w)" "t \<noteq> e"
    and cfg: "truthy (get (tt_config c) ''animation'')" "get (tt_config c) ''placement'' = JStr p" "has_transition w"
    and d: "\<not> display_none e (dm w)" "in_document e (dm w)"
    and veto: "\<not> vetoes (env (dm w)) (event_log (dm w) @ [Event (tip_event K ''show'') e None])"
  shows "\<exists>w' tipId. tip_show K e w = Done w' \<and> attr_of (dm w') e ''aria-describedby'' = Some tipId \<and> attr_of (dm w') t ''id'' = Some tipId
    \<and> tipId \<notin> set (document_ids (dm w)) \<and> hasClass t ''show'' (dm w')"
proof -
  let ?w1 = "w\<lparr>dm := fire (tip_event K ''show'') None e (dm w)\<rparr>"
  define tipId where "tipId = getUID (random (env (dm ?w1)) (event_log (dm ?w1))) 0 (document_ids (dm ?w1)) (tip_NAME K)"
  have new: "tipId \<notin> set (document_ids (dm w))"
    using getUID_notin [of "random (env (dm ?w1)) (event_log (dm ?w1))" 0 "document_ids (dm ?w1)" "tip_NAME K"]
    by (simp add: tipId_def)
  define w2 where "w2 = on_dom (setAttr ''aria-describedby'' tipId e \<circ> setAttr ''id'' tipId t) ?w1"
  have i2: "insts w2 e = Some c" using c by (simp add: w2_def)
  note sc = setContent_attr [OF i2 c(2), of K c]
  define w4 where "w4 = on_dom (addClass ''fade'' t) (setContent K e c w2)"
  obtain c4 where c4: "insts w4 e = Some c4" "tt_tip c4 = Some t" using sc(2) by (auto simp: w4_def)
  have ht: "has_transition w4" using sc(4) cfg(3) by (simp add: w4_def w2_def)
  define a where "a = attachment_class K (getAttachment p)"
  define d5 where "d5 = fire (tip_event K ''inserted'') None e
      (insert_tip t (get (tt_config c) ''container'') (setData (''bs.'' @ tip_NAME K) (JElem e) t (addClass a t (dm w4))))"
  define w7 where "w7 = on_dom (addClass ''show'' t) (create_popper e t (getAttachment p) (w4\<lparr>dm := d5\<rparr>))"
  have "addAttachmentClass K e (getAttachment p) w4 = on_dom (addClass a t) w4"
    using c4 by (simp add: addAttachmentClass_def getTipElement_known a_def)
  note att = this
  have "option_value ''placement'' e (tt_config c) (dm w4) = JStr p" by (simp add: option_value_def cfg)
  note place = this
  have g: "getTipElement e ?w1 = (t, ?w1)" using c by (simp add: getTipElement_known)
  have w7': "w7 = on_dom (addClass ''show'' t) (create_popper e t (getAttachment p) (on_dom (fire (tip_event K ''inserted'') None e)
      (on_dom (insert_tip t (get (tt_config c) ''container'')) (on_dom (setData (''bs.'' @ tip_NAME K) (JElem e) t)
        (on_dom (addClass a t) w4)))))"
    unfolding w7_def d5_def by (simp add: on_dom_def)
  have ins: "insert_and_place K e c ?w1 = Done w7"
    unfolding insert_and_place_def g Let_def prod.case tipId_def [symmetric] w2_def [symmetric] if_P [OF cfg(1)] w4_def [symmetric]
      place att jsval.case w7' ..
  have c7: "\<exists>c7. insts w7 e = Some c7 \<and> tt_tip c7 = Some t" "has_transition w7"
    using c4 ht by (simp_all add: w7_def create_popper_def)
  have cls: "hasClass t ''fade'' (dm w7)" "hasClass t ''show'' (dm w7)"
    by (simp_all add: w7_def create_popper_def d5_def w4_def hasClass_def addClass_def split: option.split)
  have attr: "attr_of (dm w7) x k = attr_of (dm w2) x k" if "k \<noteq> ''x-placement''" for x k
    using that sc(1) by (simp add: w7_def create_popper_def d5_def w4_def split: option.split)
  have ids: "attr_of (dm w7) e ''aria-describedby'' = Some tipId" "attr_of (dm w7) t ''id'' = Some tipId"
    using c(5) by (simp_all add: attr w2_def)
  from c7 cls obtain g where "show_finish K e w7 = Done (await_end t (ShowComplete e g) w7)"
    by (auto simp: show_finish_def)
  then have "tip_show K e w = Done (await_end t (ShowComplete e g) w7)"
    using c d veto ins by (simp add: tip_show_def show_with_def trigger_fire in_document_def)
  then show ?thesis using ids new cls by auto
qed

subsection \<open>A page with a tooltip\<close>

text \<open>The link 2 with a title, and its tip 3, which is not inserted yet and carries the class of an earlier placement.\<close>

definition tip_page :: dom where
  "tip_page = page
     [(0, None, ''html'', [], []), (1, Some 0, ''body'', [], []), (2, Some 1, ''a'', [], [(''data-original-title'', ''Speed'')]),
      (3, None, ''div'', [''tooltip'', ''bs-tooltip-left''], [])]"

definition tip_object :: tip where
  "tip_object =
     \<lparr>tt_gen = 5, tt_isEnabled = True, tt_timeout = Some 6, tt_hoverState = HoverShow, tt_click = False, tt_focus = False,
      tt_hover = True, tt_popper = None, tt_config = tooltip_Default, tt_tip = Some 3, tt_triggers = [''hover'', ''focus''],
      tt_selector = JBool False, tt_modal = None, tt_inner = []\<rparr>"

definition tip_demo :: tip_world where
  "tip_demo = (new_world tip_page)\<lparr>insts := [2 \<mapsto> tip_object], next_id := 7, later := [DelayedShow 6 2 5]\<rparr>"

lemma tip_demo_at: "insts tip_demo 2 = Some tip_object" "tt_tip tip_object = Some 3" "dm tip_demo = tip_page" "has_transition tip_demo"
  by (simp_all add: tip_demo_def tip_object_def)

theorem placement_change_unique_witness:
  "filter (is_attachment_class Tooltip) (class_of (dm (handlePopperPlacementChange Tooltip 2 ''bottom'' tip_demo)) 3) = [''bs-tooltip-bottom'']"
proof -
  have "attachment_class Tooltip (getAttachment ''bottom'') = ''bs-tooltip-bottom''" by code_simp
  with placement_change_unique [OF tip_demo_at(1,2), of Tooltip "''bottom''"] show ?thesis by simp
qed

theorem leave_cancels_show_witness:
  "\<exists>w'. leave_event Tooltip 2 2 False tip_demo = Done w' \<and> tip_run Tooltip (DelayedShow 6 2 5) w' = w'"
proof -
  have "\<exists>w'. leave_event Tooltip 2 2 False tip_demo = Done w' \<and> (\<forall>n g. tip_run Tooltip (DelayedShow n 2 g) w' = w')"
    by (rule leave_cancels_show [OF tip_demo_at(1)]) (simp_all add: tip_object_def)
  then show ?thesis by blast
qed

theorem shown_tip_describes_witness:
  "\<exists>w' tipId. tip_show Tooltip 2 tip_demo = Done w' \<and> attr_of (dm w') 2 ''aria-describedby'' = Some tipId
    \<and> attr_of (dm w') 3 ''id'' = Some tipId"
proof -
  have c: "tt_isEnabled tip_object" "isWithContent Tooltip 2 tip_object tip_page" "truthy (get (tt_config tip_object) ''animation'')"
    "get (tt_config tip_object) ''placement'' = JStr ''top''" "\<not> display_none 2 tip_page" "in_document 2 tip_page"
    by code_simp+
  have "\<not> vetoes (env tip_page) es" for es by (simp add: tip_page_def)
  with shown_tip_describes [OF tip_demo_at(1,2) c(1), of Tooltip "''top''"] c(2-6) tip_demo_at show ?thesis by auto
qed

end
