(* ===== verification/Bs_Scrollspy.thy ===== *)
theory Bs_Scrollspy
  imports Bs_Util
begin

section \<open>ScrollSpy\<close>

text \<open>
  The ScrollSpy component of \<open>bootstrap.js\<close>: it keeps the targets of a navigation sorted by their offset
  and makes the link of the one that has been scrolled to active. Lengths are whole pixels. The window,
  as the scroll element of a spy on the body, is represented by the root element. A scroll is an event of
  the history, so that what layout reports can change with it. Targets with equal offsets keep their
  order, as the sorting of arrays does since ES2019.
\<close>

record spy =
  spy_config :: jsobj
  spy_selector :: string
  spy_offsets :: "int list"
  spy_targets :: "string list"
  spy_activeTarget :: jsval
  spy_scrollHeight :: int

type_synonym spy_world = "(spy, unit) world"

abbreviation ACTIVATE :: string where "ACTIVATE \<equiv> ''activate.bs.scrollspy''"

definition spy_Default :: jsobj where
  "spy_Default = map_of [(''offset'', JNum 10), (''method'', JStr ''auto''), (''target'', JStr '''')]"

definition spy_DefaultType :: "(string \<times> string) list" where
  "spy_DefaultType = [(''offset'', ''number''), (''method'', ''string''), (''target'', ''(string|element)'')]"

definition str_of :: "jsval \<Rightarrow> string" where
  "str_of v = (case v of JStr s \<Rightarrow> s | JNull \<Rightarrow> ''null'' | _ \<Rightarrow> ''undefined'')"

definition num_of :: "jsval \<Rightarrow> int" where
  "num_of v = (case v of JNum n \<Rightarrow> n | _ \<Rightarrow> 0)"

subsection \<open>Measuring\<close>

definition on_window :: "elem \<Rightarrow> dom \<Rightarrow> bool" where
  "on_window e d \<longleftrightarrow> tag_of d e = ''body''"

definition scroll_elem :: "elem \<Rightarrow> dom \<Rightarrow> elem" where
  "scroll_elem e d = (if on_window e d then html_elem (dtree d) else e)"

definition getScrollTop :: "elem \<Rightarrow> dom \<Rightarrow> int" where
  "getScrollTop e d = (if on_window e d then layout (html_elem (dtree d)) ''pageYOffset'' d else layout e ''scrollTop'' d)"

text \<open>The window has no \<open>scrollHeight\<close>.\<close>

definition getScrollHeight :: "elem \<Rightarrow> dom \<Rightarrow> int" where
  "getScrollHeight e d =
     (let h = (if on_window e d then 0 else layout e ''scrollHeight'' d)
      in if h \<noteq> 0 then h
         else max (layout (body_elem (dtree d)) ''scrollHeight'' d) (layout (html_elem (dtree d)) ''scrollHeight'' d))"

definition getOffsetHeight :: "elem \<Rightarrow> dom \<Rightarrow> int" where
  "getOffsetHeight e d = (if on_window e d then layout (html_elem (dtree d)) ''innerHeight'' d else layout e ''height'' d)"

subsection \<open>The sorted targets\<close>

definition offset_method :: "spy \<Rightarrow> elem \<Rightarrow> dom \<Rightarrow> string" where
  "offset_method s e d =
     (let autoMethod = (if on_window e d then ''offset'' else ''position'')
      in if get (spy_config s) ''method'' = JStr ''auto'' then autoMethod else str_of (get (spy_config s) ''method''))"

definition link_entry :: "string \<Rightarrow> int \<Rightarrow> dom \<Rightarrow> elem \<Rightarrow> (int \<times> string) option" where
  "link_entry offsetMethod offsetBase d x =
     (case getSelectorFromElement x d of
        None \<Rightarrow> None
      | Some sel \<Rightarrow>
          (case target_of x d of
             None \<Rightarrow> None
           | Some target \<Rightarrow>
               if layout target ''width'' d \<noteq> 0 \<or> layout target ''height'' d \<noteq> 0
               then Some (layout target (offsetMethod @ ''.top'') d + offsetBase, sel) else None))"

definition spy_entries :: "spy \<Rightarrow> elem \<Rightarrow> dom \<Rightarrow> (int \<times> string) list" where
  "spy_entries s e d =
     (let m = offset_method s e d;
          base = (if m = ''position'' then getScrollTop e d else 0);
          links = (case select (spy_selector s) d of None \<Rightarrow> [] | Some xs \<Rightarrow> xs)
      in sort_key fst (List.map_filter (link_entry m base d) links))"

definition refresh :: "elem \<Rightarrow> dom \<Rightarrow> spy \<Rightarrow> spy" where
  "refresh e d s =
     s\<lparr>spy_offsets := map fst (spy_entries s e d), spy_targets := map snd (spy_entries s e d),
       spy_scrollHeight := getScrollHeight e d\<rparr>"

subsection \<open>Activating a link\<close>

definition clear :: "spy \<Rightarrow> dom \<Rightarrow> dom" where
  "clear s d =
     (case select (spy_selector s) d of
        None \<Rightarrow> d
      | Some xs \<Rightarrow> fold (removeClass ''active'') (filter (\<lambda>x. hasClass x ''active'' d) xs) d)"

definition link_query :: "string \<Rightarrow> string \<Rightarrow> string" where
  "link_query target sel =
     sel @ ''[data-target='' @ quoted target @ ''],'' @ sel @ ''[href='' @ quoted target @ '']''"

fun join :: "char \<Rightarrow> string list \<Rightarrow> string" where
  "join c [] = []"
| "join c [s] = s"
| "join c (s # ss) = s @ c # join c ss"

text \<open>\<open>$link.parents('.nav, .list-group')\<close> and the element before a sibling.\<close>

definition nav_parents :: "elem list \<Rightarrow> dom \<Rightarrow> elem list" where
  "nav_parents links d =
     filter (\<lambda>x. (hasClass x ''nav'' d \<or> hasClass x ''list-group'' d) \<and> list_ex (\<lambda>l. is_desc (dtree d) x l) links)
       (node_order (dtree d))"

definition prev_sibling :: "elem \<Rightarrow> dom \<Rightarrow> elem option" where
  "prev_sibling x d =
     (case parent_of (dtree d) x of
        None \<Rightarrow> None
      | Some p \<Rightarrow> first (rev (takeWhile (\<lambda>y. y \<noteq> x) (jq_children (\<lambda>_ _. True) p d))))"

definition prevs :: "elem list \<Rightarrow> dom \<Rightarrow> elem list" where
  "prevs xs d = List.map_filter (\<lambda>x. prev_sibling x d) xs"

definition activate_links :: "elem list \<Rightarrow> dom \<Rightarrow> dom" where
  "activate_links links d =
     (if list_ex (\<lambda>x. hasClass x ''dropdown-item'' d) links
      then
        let dropdowns = List.map_filter (\<lambda>x. jq_closest (\<lambda>d y. hasClass y ''dropdown'' d) x d) links;
            toggles = concat (map (\<lambda>y. jq_find (\<lambda>d z. hasClass z ''dropdown-toggle'' d) y d) dropdowns)
        in fold (addClass ''active'') links (fold (addClass ''active'') toggles d)
      else
        let d1 = fold (addClass ''active'') links d;
            before = prevs (nav_parents links d1) d1;
            d2 = fold (addClass ''active'') (filter (\<lambda>x. hasClass x ''nav-link'' d1 \<or> hasClass x ''list-group-item'' d1) before) d1;
            navItems = filter (\<lambda>x. hasClass x ''nav-item'' d2) before
        in fold (addClass ''active'')
             (concat (map (\<lambda>x. jq_children (\<lambda>d y. hasClass y ''nav-link'' d) x d2) navItems)) d2)"

definition activate :: "elem \<Rightarrow> jsval \<Rightarrow> spy \<Rightarrow> dom \<Rightarrow> spy \<times> dom" where
  "activate e target s d =
     (let s = s\<lparr>spy_activeTarget := target\<rparr>;
          d = clear s d;
          queries = map (link_query (str_of target)) (split_on CHR '','' (spy_selector s));
          links = (case select (join CHR '','' queries) d of None \<Rightarrow> [] | Some xs \<Rightarrow> xs)
      in (s, fire ACTIVATE None (scroll_elem e d) (activate_links links d)))"

subsection \<open>Following the scroll position\<close>

text \<open>The loop \<open>for (i = offsets.length; i--;)\<close>, from the last index down.\<close>

definition is_active_target :: "int \<Rightarrow> spy \<Rightarrow> nat \<Rightarrow> bool" where
  "is_active_target scrollTop s i \<longleftrightarrow>
     spy_activeTarget s \<noteq> JStr (spy_targets s ! i) \<and> scrollTop \<ge> spy_offsets s ! i
     \<and> (Suc i \<ge> length (spy_offsets s) \<or> scrollTop < spy_offsets s ! Suc i)"

fun process_loop :: "elem \<Rightarrow> int \<Rightarrow> nat \<Rightarrow> spy \<Rightarrow> dom \<Rightarrow> spy \<times> dom" where
  "process_loop e scrollTop 0 s d = (s, d)"
| "process_loop e scrollTop (Suc i) s d =
     (let (s, d) = (if is_active_target scrollTop s i then activate e (JStr (spy_targets s ! i)) s d else (s, d))
      in process_loop e scrollTop i s d)"

definition last_target :: "spy \<Rightarrow> jsval" where
  "last_target s = (case spy_targets s of [] \<Rightarrow> JUndef | ts \<Rightarrow> JStr (last ts))"

definition process :: "elem \<Rightarrow> spy \<Rightarrow> dom \<Rightarrow> spy \<times> dom" where
  "process e s d =
     (let scrollTop = getScrollTop e d + num_of (get (spy_config s) ''offset'');
          scrollHeight = getScrollHeight e d;
          maxScroll = num_of (get (spy_config s) ''offset'') + scrollHeight - getOffsetHeight e d;
          s = (if spy_scrollHeight s \<noteq> scrollHeight then refresh e d s else s)
      in if scrollTop \<ge> maxScroll
         then if spy_activeTarget s \<noteq> last_target s then activate e (last_target s) s d else (s, d)
         else if truthy (spy_activeTarget s) \<and> spy_offsets s \<noteq> []
                 \<and> scrollTop < hd (spy_offsets s) \<and> hd (spy_offsets s) > 0
         then (s\<lparr>spy_activeTarget := JNull\<rparr>, clear s d)
         else process_loop e scrollTop (length (spy_offsets s)) s d)"

subsection \<open>Construction and the plugin\<close>

text \<open>
  \<open>_getConfig\<close>: a target given as an element is named by its id, which is made up if it has none. The
  draws of \<open>getUID\<close> are the parameter \<open>draw\<close>.
\<close>

definition target_elem :: "jsval \<Rightarrow> elem option" where
  "target_elem v = (case v of JElem x \<Rightarrow> Some x | JQuery (x # _) \<Rightarrow> Some x | _ \<Rightarrow> None)"

definition spy_getConfig :: "(nat \<Rightarrow> nat) \<Rightarrow> jsobj \<Rightarrow> dom \<Rightarrow> (js_error + jsobj) \<times> dom" where
  "spy_getConfig draw config d =
     (let config = extends spy_Default config;
          (config, d) =
            (case get config ''target'' of
               JStr _ \<Rightarrow> (config, d)
             | v \<Rightarrow>
                 (let x = target_elem v;
                      old = (case x of None \<Rightarrow> None | Some y \<Rightarrow> attr_of d y ''id'');
                      uid = getUID draw 0 (document_ids d) ''scrollspy''
                  in case old of
                       Some (c # i) \<Rightarrow> (config(''target'' \<mapsto> JStr (CHR ''#'' # c # i)), d)
                     | _ \<Rightarrow> (config(''target'' \<mapsto> JStr (CHR ''#'' # uid)),
                             case x of None \<Rightarrow> d | Some y \<Rightarrow> setAttr ''id'' uid y d)))
      in case typeCheckConfig ''scrollspy'' config spy_DefaultType of
           Inl err \<Rightarrow> (Inl err, d)
         | Inr _ \<Rightarrow> (Inr config, d))"

definition spy_select_string :: "string \<Rightarrow> string" where
  "spy_select_string t = t @ '' .nav-link,'' @ t @ '' .list-group-item,'' @ t @ '' .dropdown-item''"

definition new_spy :: "(nat \<Rightarrow> nat) \<Rightarrow> elem \<Rightarrow> jsobj \<Rightarrow> spy_world \<Rightarrow> js_error + spy_world" where
  "new_spy draw e config w =
     (case spy_getConfig draw config (dm w) of
        (Inl err, d) \<Rightarrow> Inl err
      | (Inr cfg, d) \<Rightarrow>
          (let s = \<lparr>spy_config = cfg, spy_selector = spy_select_string (str_of (get cfg ''target'')), spy_offsets = [],
                    spy_targets = [], spy_activeTarget = JNull, spy_scrollHeight = 0\<rparr>;
               (s, d) = process e (refresh e d s) d
           in Inr (w\<lparr>dm := d, insts := (insts w)(e \<mapsto> s)\<rparr>)))"

definition spy_dispose :: "elem \<Rightarrow> spy_world \<Rightarrow> spy_world" where
  "spy_dispose e w = w\<lparr>insts := (insts w)(e := None)\<rparr>"

definition spy_scroll :: "elem \<Rightarrow> spy_world \<Rightarrow> spy_world" where
  "spy_scroll e w =
     (let d = fire ''scroll'' None (scroll_elem e (dm w)) (dm w)
      in case insts w e of
           None \<Rightarrow> w\<lparr>dm := d\<rparr>
         | Some s \<Rightarrow> (let (s, d) = process e s d in w\<lparr>dm := d, insts := (insts w)(e \<mapsto> s)\<rparr>))"

definition spy_method :: "string \<Rightarrow> elem \<Rightarrow> spy_world \<Rightarrow> js_error + spy_world" where
  "spy_method m e w =
     (if m = ''refresh''
      then Inr (w\<lparr>insts := (insts w)(e := map_option (refresh e (dm w)) (insts w e))\<rparr>)
      else if m = ''dispose'' then Inr (spy_dispose e w)
      else Inl (no_method m))"

definition spy_each :: "(nat \<Rightarrow> nat) \<Rightarrow> plugin_arg \<Rightarrow> elem \<Rightarrow> spy_world \<Rightarrow> js_error + spy_world" where
  "spy_each draw config e w =
     (case (if insts w e = None then new_spy draw e (case config of ObjArg ob \<Rightarrow> ob | _ \<Rightarrow> (\<lambda>_. None)) w else Inr w) of
        Inl err \<Rightarrow> Inl err
      | Inr w \<Rightarrow> (case config of StrArg m \<Rightarrow> spy_method m e w | _ \<Rightarrow> Inr w))"

definition spy_jQueryInterface :: "(nat \<Rightarrow> nat) \<Rightarrow> plugin_arg \<Rightarrow> elem list \<Rightarrow> spy_world \<Rightarrow> js_error + spy_world" where
  "spy_jQueryInterface draw config es w = each_err (spy_each draw config) es w"

definition spy_load :: "(nat \<Rightarrow> nat) \<Rightarrow> spy_world \<Rightarrow> js_error + spy_world" where
  "spy_load draw w =
     each_err (\<lambda>e w. spy_jQueryInterface draw (ObjArg (data_of (dm w) e)) [e] w)
       (rev (jq_all (\<lambda>d x. attr_of d x ''data-spy'' = Some ''scroll'') (dm w))) w"

subsection \<open>The target that has been scrolled to\<close>

lemma activate_fst [simp]: "fst (activate e t s d) = s\<lparr>spy_activeTarget := t\<rparr>"
  by (simp add: activate_def Let_def)

text \<open>The reference: the last target whose offset has been reached.\<close>

fun reached :: "int \<Rightarrow> (int \<times> string) list \<Rightarrow> string option" where
  "reached y [] = None"
| "reached y ((off, t) # es) = (case reached y es of Some u \<Rightarrow> Some u | None \<Rightarrow> if off \<le> y then Some t else None)"

lemma reached_append:
  "reached y (xs @ ys) = (case reached y ys of Some u \<Rightarrow> Some u | None \<Rightarrow> reached y xs)"
  by (induction xs) (auto split: option.split)

lemma reached_None: "reached y es = None \<longleftrightarrow> (\<forall>p \<in> set es. y < fst p)"
  by (induction es) (auto split: option.split if_splits)

definition spy_ok :: "spy \<Rightarrow> bool" where
  "spy_ok s \<longleftrightarrow> sorted (spy_offsets s) \<and> length (spy_targets s) = length (spy_offsets s)"

lemma refresh_ok: "spy_ok (refresh e d s)"
  by (simp add: spy_ok_def refresh_def spy_entries_def Let_def)

text \<open>The position between two offsets is unique, and it is where the reference stops.\<close>

definition between :: "int \<Rightarrow> spy \<Rightarrow> nat \<Rightarrow> bool" where
  "between y s i \<longleftrightarrow> i < length (spy_offsets s) \<and> spy_offsets s ! i \<le> y
     \<and> (Suc i \<ge> length (spy_offsets s) \<or> y < spy_offsets s ! Suc i)"

lemma between_after:
  assumes "spy_ok s" "between y s k" "k < j" "j < length (spy_offsets s)"
  shows "y < spy_offsets s ! j"
proof -
  have "y < spy_offsets s ! Suc k" using assms by (simp add: between_def)
  also have "\<dots> \<le> spy_offsets s ! j" using assms by (intro sorted_nth_mono) (simp_all add: spy_ok_def)
  finally show ?thesis .
qed

lemma between_unique: "spy_ok s \<Longrightarrow> between y s i \<Longrightarrow> between y s k \<Longrightarrow> i = k"
  using between_after [of s y i k] between_after [of s y k i]
  by (metis between_def linorder_neqE_nat not_less)

lemma between_reached:
  assumes "spy_ok s" "between y s k"
  shows "reached y (zip (spy_offsets s) (spy_targets s)) = Some (spy_targets s ! k)"
proof -
  let ?es = "zip (spy_offsets s) (spy_targets s)"
  have k: "k < length ?es" using assms by (simp add: spy_ok_def between_def)
  have "y < fst p" if "p \<in> set (drop (Suc k) ?es)" for p
  proof -
    obtain j where "j < length (drop (Suc k) ?es)" "p = drop (Suc k) ?es ! j" using \<open>p \<in> _\<close> by (auto simp: in_set_conv_nth)
    then show ?thesis using between_after [OF assms, of "Suc k + j"] assms(1) by (simp add: spy_ok_def)
  qed
  then have none: "reached y (drop (Suc k) ?es) = None" by (simp add: reached_None)
  have es: "?es = take k ?es @ (spy_offsets s ! k, spy_targets s ! k) # drop (Suc k) ?es"
    using id_take_nth_drop [OF k] k by simp
  have "spy_offsets s ! k \<le> y" using assms(2) by (simp add: between_def)
  with arg_cong [OF es, of "reached y"] show ?thesis
    by (simp only: reached_append reached.simps none option.case if_True)
qed

lemma between_exists:
  assumes "spy_ok s" "i < length (spy_offsets s)" "spy_offsets s ! i \<le> y"
  shows "\<exists>k. between y s k"
proof -
  let ?A = "{j. j < length (spy_offsets s) \<and> spy_offsets s ! j \<le> y}"
  have "Max ?A \<in> ?A" using assms by (intro Max_in) auto
  moreover have "Suc (Max ?A) \<notin> ?A"
  proof
    assume "Suc (Max ?A) \<in> ?A"
    then have "Suc (Max ?A) \<le> Max ?A" by (intro Max_ge) auto
    then show False by simp
  qed
  ultimately show ?thesis by (intro exI [of _ "Max ?A"]) (auto simp: between_def)
qed

lemma not_reached:
  assumes "spy_ok s" "\<not> (\<exists>k. between y s k)"
  shows "reached y (zip (spy_offsets s) (spy_targets s)) = None"
proof -
  have "\<not> spy_offsets s ! i \<le> y" if "i < length (spy_offsets s)" for i using between_exists assms that by blast
  then show ?thesis by (auto simp: reached_None in_set_zip not_le)
qed

lemma reached_None_hd:
  assumes "spy_ok s" "spy_offsets s \<noteq> []"
  shows "reached y (zip (spy_offsets s) (spy_targets s)) = None \<longleftrightarrow> y < hd (spy_offsets s)"
proof -
  have "fst ` set (zip (spy_offsets s) (spy_targets s)) = set (spy_offsets s)"
    using assms(1) by (metis list.set_map map_fst_zip spy_ok_def)
  then have "reached y (zip (spy_offsets s) (spy_targets s)) = None \<longleftrightarrow> (\<forall>x \<in> set (spy_offsets s). y < x)"
    by (metis (no_types, lifting) image_iff reached_None)
  then show ?thesis using assms by (cases "spy_offsets s") (auto simp: spy_ok_def)
qed

lemma is_active_between:
  "i < length (spy_offsets s) \<Longrightarrow>
     is_active_target y s i \<longleftrightarrow> spy_activeTarget s \<noteq> JStr (spy_targets s ! i) \<and> between y s i"
  by (auto simp: is_active_target_def between_def)

lemma loop_outside:
  "n \<le> length (spy_offsets s) \<Longrightarrow> (\<And>k. k < n \<Longrightarrow> \<not> between y s k) \<Longrightarrow> process_loop e y n s d = (s, d)"
  by (induction n) (simp_all add: is_active_between)

lemma loop_inside:
  assumes "spy_ok s" "between y s k"
  shows "n \<le> length (spy_offsets s) \<Longrightarrow> k < n \<Longrightarrow>
    fst (process_loop e y n s d) = s\<lparr>spy_activeTarget := JStr (spy_targets s ! k)\<rparr>"
proof (induction n)
  case (Suc i)
  have i: "i < length (spy_offsets s)" using Suc.prems by simp
  show ?case
  proof (cases "k = i")
    case True
    let ?s = "s\<lparr>spy_activeTarget := JStr (spy_targets s ! i)\<rparr>"
    have none: "\<not> between y s j" if "j < i" for j using between_unique [OF assms(1) _ assms(2)] that True by blast
    then have "\<not> between y ?s j" if "j < i" for j using that by (simp add: between_def)
    then have out: "process_loop e y i ?s d' = (?s, d')" for d' using i by (intro loop_outside) auto
    obtain d' where act: "activate e (JStr (spy_targets s ! i)) s d = (?s, d')"
      using activate_fst [of e "JStr (spy_targets s ! i)" s d] by (metis prod.collapse)
    show ?thesis
    proof (cases "is_active_target y s i")
      case is_act: True
      then show ?thesis using out act True by simp
    next
      case False
      then have "spy_activeTarget s = JStr (spy_targets s ! i)" using is_active_between [OF i] assms(2) True by simp
      then show ?thesis using False loop_outside [of i s y e d] none i True by simp
    qed
  next
    case False
    then have "\<not> between y s i" using between_unique [OF assms(1) assms(2)] by blast
    then show ?thesis using Suc False is_active_between [OF i] by simp
  qed
qed simp

lemma process_loop_reached:
  assumes "spy_ok s"
  shows "fst (process_loop e y (length (spy_offsets s)) s d) =
    s\<lparr>spy_activeTarget := (case reached y (zip (spy_offsets s) (spy_targets s)) of Some t \<Rightarrow> JStr t | None \<Rightarrow> spy_activeTarget s)\<rparr>"
proof (cases "\<exists>k. between y s k")
  case True
  then obtain k where k: "between y s k" by blast
  then have "k < length (spy_offsets s)" by (simp add: between_def)
  then show ?thesis using loop_inside [OF assms k order.refl] between_reached [OF assms k] by simp
next
  case False
  then show ?thesis using loop_outside [OF order.refl, of s y e d] not_reached [OF assms False] by simp
qed

text \<open>
  C7: what a scroll does to the active target. The offsets stay sorted. At the bottom the last target is
  active; otherwise it is the last one whose offset the position has reached, and when none has been
  reached the active target is cleared if the first offset is positive and stays what it was if not.
\<close>

theorem scroll_follows:
  assumes "insts w e = Some s" "spy_ok s"
  defines "d \<equiv> fire ''scroll'' None (scroll_elem e (dm w)) (dm w)"
  defines "s1 \<equiv> if spy_scrollHeight s \<noteq> getScrollHeight e d then refresh e d s else s"
  defines "off \<equiv> num_of (get (spy_config s) ''offset'')"
  defines "y \<equiv> getScrollTop e d + off"
  shows "\<exists>s'. insts (spy_scroll e w) e = Some s' \<and> spy_ok s' \<and> spy_offsets s' = spy_offsets s1 \<and> spy_targets s' = spy_targets s1
    \<and> spy_activeTarget s' =
        (if off + getScrollHeight e d - getOffsetHeight e d \<le> y then last_target s1
         else case reached y (zip (spy_offsets s1) (spy_targets s1)) of
                Some t \<Rightarrow> JStr t
              | None \<Rightarrow> if truthy (spy_activeTarget s) \<and> spy_offsets s1 \<noteq> [] \<and> 0 < hd (spy_offsets s1) then JNull
                        else spy_activeTarget s)"
proof -
  have ok: "spy_ok s1" using assms(2) by (simp add: s1_def refresh_ok)
  have c: "spy_config s1 = spy_config s" "spy_activeTarget s1 = spy_activeTarget s" by (simp_all add: s1_def refresh_def)
  have ins: "insts (spy_scroll e w) e = Some (fst (process e s d))"
    using assms(1) by (simp add: spy_scroll_def d_def Let_def split: prod.split)
  note hd = reached_None_hd [OF ok]
  have "fst (process e s d) = s1\<lparr>spy_activeTarget :=
      (if off + getScrollHeight e d - getOffsetHeight e d \<le> y then last_target s1
       else case reached y (zip (spy_offsets s1) (spy_targets s1)) of
              Some t \<Rightarrow> JStr t
            | None \<Rightarrow> if truthy (spy_activeTarget s) \<and> spy_offsets s1 \<noteq> [] \<and> 0 < hd (spy_offsets s1) then JNull
                      else spy_activeTarget s)\<rparr>"
    using process_loop_reached [OF ok, of e y d] hd
    by (auto simp: process_def Let_def y_def [symmetric] off_def [symmetric] s1_def [symmetric] c split: option.splits)
  then show ?thesis using ok by (simp add: ins spy_ok_def)
qed

subsection \<open>A spy scrolled between two targets\<close>

definition spy_page :: dom where
  "spy_page =
     (let d = page [(0, None, ''html'', [], []), (1, Some 0, ''body'', [], []), (2, Some 1, ''div'', [], [])]
      in d\<lparr>env := (env d)\<lparr>measure_of := (\<lambda>log x k. if k = ''scrollTop'' then 150 else if k = ''scrollHeight'' then 1000
                                               else if k = ''height'' then 300 else 0)\<rparr>\<rparr>)"

definition spy_demo :: spy where
  "spy_demo = \<lparr>spy_config = spy_Default, spy_selector = '' .nav-link'', spy_offsets = [0, 100, 200],
     spy_targets = [''#a'', ''#b'', ''#c''], spy_activeTarget = JNull, spy_scrollHeight = 1000\<rparr>"

theorem scroll_follows_witness:
  "\<exists>s'. insts (spy_scroll 2 ((new_world spy_page)\<lparr>insts := [2 \<mapsto> spy_demo]\<rparr>)) 2 = Some s' \<and> spy_activeTarget s' = JStr ''#b''"
proof -
  let ?d = "fire ''scroll'' None 2 spy_page"
  have m: "getScrollHeight 2 ?d = 1000" "getScrollTop 2 ?d = 150" "getOffsetHeight 2 ?d = 300" "scroll_elem 2 spy_page = 2"
    by code_simp+
  have s: "spy_ok spy_demo" "num_of (get (spy_config spy_demo) ''offset'') = 10" "spy_scrollHeight spy_demo = 1000"
    "reached 160 (zip (spy_offsets spy_demo) (spy_targets spy_demo)) = Some ''#b''"
    by code_simp+
  show ?thesis
    using scroll_follows [of "(new_world spy_page)\<lparr>insts := [2 \<mapsto> spy_demo]\<rparr>" 2 spy_demo] s m by auto
qed

end
