(* ===== verification/Bs_Tab.thy ===== *)
theory Bs_Tab
  imports Bs_Util
begin

section \<open>Tab, and the check of the jQuery version\<close>

text \<open>
  The Tab component of \<open>bootstrap.js\<close>: showing a tab moves the \<open>active\<close> class inside its list and then,
  at the end of the fade of the old pane if it has one, from the old pane to the new one. The last
  section is the version check that \<open>bootstrap.js\<close> runs when it is loaded.
\<close>

record tab =
  tab_gen :: nat

text \<open>The pending end of a pane change: the new pane, the old one, the instance, its element while it is not disposed, the previous tab.\<close>

datatype tab_cb = PaneComplete elem elem nat "elem option" "elem option"

type_synonym tab_world = "(tab, tab_cb) world"

abbreviation TAB_HIDE :: string where "TAB_HIDE \<equiv> ''hide.bs.tab''"
abbreviation TAB_HIDDEN :: string where "TAB_HIDDEN \<equiv> ''hidden.bs.tab''"
abbreviation TAB_SHOW :: string where "TAB_SHOW \<equiv> ''show.bs.tab''"
abbreviation TAB_SHOWN :: string where "TAB_SHOWN \<equiv> ''shown.bs.tab''"

definition is_nav_list_group :: selector where
  "is_nav_list_group d x \<longleftrightarrow> hasClass x ''nav'' d \<or> hasClass x ''list-group'' d"

definition is_tab_toggle :: selector where
  "is_tab_toggle d x \<longleftrightarrow> attr_of d x ''data-toggle'' \<in> {Some ''tab'', Some ''pill'', Some ''list''}"

text \<open>\<open>find('> li > .active')\<close>: active children of list items that are children of the list.\<close>

definition active_ul :: "elem \<Rightarrow> dom \<Rightarrow> elem list" where
  "active_ul l d =
     filter (\<lambda>x. hasClass x ''active'' d
                 \<and> (case parent_of (dtree d) x of
                      None \<Rightarrow> False
                    | Some li \<Rightarrow> tag_of d li = ''li'' \<and> parent_of (dtree d) li = Some l)) (node_order (dtree d))"

definition active_children :: "elem option \<Rightarrow> dom \<Rightarrow> elem list" where
  "active_children c d =
     (case c of
        None \<Rightarrow> filter (\<lambda>x. hasClass x ''active'' d) [html_elem (dtree d)]
      | Some p \<Rightarrow> jq_children (\<lambda>d x. hasClass x ''active'' d) p d)"

text \<open>The active elements of a container as \<open>_activate\<close> looks for them; the container of the root is the document.\<close>

definition activeElements :: "elem option \<Rightarrow> dom \<Rightarrow> elem list" where
  "activeElements c d =
     (case c of
        Some l \<Rightarrow> if tag_of d l = ''ul'' then active_ul l d else active_children c d
      | None \<Rightarrow> active_children None d)"

text \<open>\<open>$(p).find('> .dropdown-menu .active')[0]\<close>\<close>

definition dropdown_child :: "elem option \<Rightarrow> dom \<Rightarrow> elem option" where
  "dropdown_child p d =
     (case p of
        None \<Rightarrow> None
      | Some q \<Rightarrow>
          first (filter (\<lambda>x. hasClass x ''active'' d
                   \<and> list_ex (\<lambda>m. hasClass m ''dropdown-menu'' d \<and> parent_of (dtree d) m = Some q) (ancestors (dtree d) x))
                 (node_order (dtree d))))"

definition set_selected :: "bool \<Rightarrow> elem \<Rightarrow> dom \<Rightarrow> dom" where
  "set_selected b x d = (if attr_of d x ''role'' = Some ''tab'' then setAttr ''aria-selected'' (bool_str b) x d else d)"

definition deactivate :: "elem option \<Rightarrow> dom \<Rightarrow> dom" where
  "deactivate active d =
     (case active of
        None \<Rightarrow> d
      | Some a \<Rightarrow>
          (let d = removeClass ''active'' a (removeClass ''show'' a d);
               d = (case dropdown_child (parent_of (dtree d) a) d of None \<Rightarrow> d | Some x \<Rightarrow> removeClass ''active'' x d)
           in set_selected False a d))"

definition mark_dropdown :: "elem \<Rightarrow> dom \<Rightarrow> dom" where
  "mark_dropdown x d =
     (if (case parent_of (dtree d) x of None \<Rightarrow> False | Some p \<Rightarrow> hasClass p ''dropdown-menu'' d)
      then setAttr ''aria-expanded'' ''true'' x
             (case jq_closest (\<lambda>d y. hasClass y ''dropdown'' d) x d of
                None \<Rightarrow> d
              | Some dr \<Rightarrow> fold (addClass ''active'') (jq_find (\<lambda>d y. hasClass y ''dropdown-toggle'' d) dr d) d)
      else d)"

definition transitionComplete :: "elem \<Rightarrow> elem option \<Rightarrow> dom \<Rightarrow> dom" where
  "transitionComplete x active d =
     mark_dropdown x (addClass ''show'' x (set_selected True x (addClass ''active'' x (deactivate active d))))"

text \<open>The inner \<open>complete\<close> of \<open>show\<close>.\<close>

definition tab_complete :: "elem option \<Rightarrow> elem option \<Rightarrow> dom \<Rightarrow> dom" where
  "tab_complete this previous d =
     (let d = (case previous of None \<Rightarrow> d | Some p \<Rightarrow> fire TAB_HIDDEN this p d)
      in case this of None \<Rightarrow> d | Some e \<Rightarrow> fire TAB_SHOWN previous e d)"


text \<open>\<open>_activate\<close> for the pane, with the callback; the call for the tab itself has none and is synchronous.\<close>

definition activate_pane :: "elem \<Rightarrow> elem \<Rightarrow> nat \<Rightarrow> elem option \<Rightarrow> tab_world \<Rightarrow> tab_world" where
  "activate_pane target e g previous w =
     (let active = first (activeElements (parent_of (dtree (dm w)) target) (dm w))
      in case active of
           Some a \<Rightarrow>
             if has_transition w \<and> hasClass a ''fade'' (dm w)
             then await_end a (PaneComplete target a g (Some e) previous) w
             else on_dom (tab_complete (Some e) previous \<circ> transitionComplete target active) w
         | None \<Rightarrow> on_dom (tab_complete (Some e) previous \<circ> transitionComplete target None) w)"

definition previous_tab :: "elem option \<Rightarrow> dom \<Rightarrow> elem option" where
  "previous_tab listElement d =
     (case listElement of
        None \<Rightarrow> None
      | Some l \<Rightarrow>
          first (rev (if tag_of d l = ''ul'' then active_ul l d else jq_find (\<lambda>d x. hasClass x ''active'' d) l d)))"

definition tab_show :: "elem \<Rightarrow> nat \<Rightarrow> tab_world \<Rightarrow> js_error + tab_world" where
  "tab_show e g w =
     (if parent_of (dtree (dm w)) e \<noteq> None \<and> hasClass e ''active'' (dm w) \<or> hasClass e ''disabled'' (dm w) then Inr w
      else
        let listElement = jq_closest is_nav_list_group e (dm w);
            selector = getSelectorFromElement e (dm w);
            previous = previous_tab listElement (dm w);
            (hidePrevented, d) = (case previous of None \<Rightarrow> (False, dm w) | Some p \<Rightarrow> trigger TAB_HIDE (Some e) p (dm w));
            (showPrevented, d) = trigger TAB_SHOW previous e d;
            w = w\<lparr>dm := d\<rparr>
        in if showPrevented \<or> hidePrevented then Inr w
           else
             let target = (case selector of None \<Rightarrow> None | Some s \<Rightarrow> (case select s (dm w) of None \<Rightarrow> None | Some xs \<Rightarrow> first xs))
             in case listElement of
                  None \<Rightarrow> Inl (TypeErrorMsg ''Cannot read properties of undefined (reading 'nodeName')'')
                | Some l \<Rightarrow>
                    (let w = on_dom (\<lambda>d. transitionComplete e (first (activeElements (Some l) d)) d) w
                     in Inr (case target of
                               None \<Rightarrow> on_dom (tab_complete (Some e) previous) w
                             | Some t \<Rightarrow> activate_pane t e g previous w)))"

fun dispose_pane :: "nat \<Rightarrow> tab_cb handler \<Rightarrow> tab_cb handler" where
  "dispose_pane g (Callback (PaneComplete t a h this p)) = Callback (PaneComplete t a h (if h = g then None else this) p)"
| "dispose_pane g (MarkCalled n) = MarkCalled n"

definition tab_dispose :: "elem \<Rightarrow> nat \<Rightarrow> tab_world \<Rightarrow> tab_world" where
  "tab_dispose e g w =
     w\<lparr>insts := (insts w)(e := None), bound := map (\<lambda>(i, x, h). (i, x, dispose_pane g h)) (bound w)\<rparr>"

definition tab_get :: "elem \<Rightarrow> tab_world \<Rightarrow> nat \<times> tab_world" where
  "tab_get e w =
     (case insts w e of
        Some c \<Rightarrow> (tab_gen c, w)
      | None \<Rightarrow> (next_id w, w\<lparr>insts := (insts w)(e \<mapsto> \<lparr>tab_gen = next_id w\<rparr>), next_id := Suc (next_id w)\<rparr>))"

definition tab_each :: "plugin_arg \<Rightarrow> elem \<Rightarrow> tab_world \<Rightarrow> js_error + tab_world" where
  "tab_each config e w =
     (let (g, w) = tab_get e w
      in case config of
           StrArg m \<Rightarrow>
             if m = ''show'' then tab_show e g w
             else if m = ''dispose'' then Inr (tab_dispose e g w)
             else Inl (no_method m)
         | _ \<Rightarrow> Inr w)"

definition tab_jQueryInterface :: "plugin_arg \<Rightarrow> elem list \<Rightarrow> tab_world \<Rightarrow> js_error + tab_world" where
  "tab_jQueryInterface config es w = each_err (tab_each config) es w"

definition tab_click :: "elem \<Rightarrow> tab_world \<Rightarrow> js_error + tab_world" where
  "tab_click t w =
     each_err (\<lambda>x. tab_jQueryInterface (StrArg ''show'') [x])
       (filter (is_tab_toggle (dm w)) (t # ancestors (dtree (dm w)) t)) w"

subsection \<open>The jQuery version\<close>

text \<open>
  \<open><\<close> and \<open>>=\<close> between a version part, which is a string, and a number compare as numbers (a part
  that is missing or is no number compares as false); \<open>===\<close> compares types first.
\<close>

definition part_num :: "string list \<Rightarrow> nat \<Rightarrow> int option" where
  "part_num v i =
     (if i < length v \<and> v ! i \<noteq> '''' \<and> list_all (\<lambda>c. 48 \<le> (of_char c :: nat) \<and> (of_char c :: nat) \<le> 57) (v ! i)
      then Some (int (str_nat (v ! i))) else None)"

definition lt_num :: "int option \<Rightarrow> int \<Rightarrow> bool" where
  "lt_num x n = (case x of None \<Rightarrow> False | Some k \<Rightarrow> k < n)"

definition ge_num :: "int option \<Rightarrow> int \<Rightarrow> bool" where
  "ge_num x n = (case x of None \<Rightarrow> False | Some k \<Rightarrow> n \<le> k)"

text \<open>Strict equality of a part with a number.\<close>

definition strict_eq_num :: "jsval \<Rightarrow> int \<Rightarrow> bool" where
  "strict_eq_num v n \<longleftrightarrow> v = JNum n"

definition part_val :: "string list \<Rightarrow> nat \<Rightarrow> jsval" where
  "part_val v i = (if i < length v then JStr (v ! i) else JUndef)"

definition jquery_version :: "string \<Rightarrow> string list" where
  "jquery_version s = split_on CHR ''.'' (hd (split_on CHR '' '' s))"

definition check_jquery :: "string option \<Rightarrow> js_error + unit" where
  "check_jquery jquery =
     (case jquery of
        None \<Rightarrow> Inl (TypeErrorMsg ''Bootstrap's JavaScript requires jQuery. jQuery must be included before Bootstrap's JavaScript.'')
      | Some s \<Rightarrow>
          (let v = jquery_version s
           in if lt_num (part_num v 0) 2 \<and> lt_num (part_num v 1) 9
                 \<or> strict_eq_num (part_val v 0) 1 \<and> strict_eq_num (part_val v 1) 9 \<and> lt_num (part_num v 2) 1
                 \<or> ge_num (part_num v 0) 4
              then Inl (ErrorMsg ''Bootstrap's JavaScript requires at least jQuery v1.9.1 but less than v4.0.0'')
              else Inr ()))"

subsection \<open>One active tab, one active pane\<close>

definition in_slot :: "elem \<Rightarrow> dom \<Rightarrow> elem \<Rightarrow> bool" where
  "in_slot l d x \<longleftrightarrow>
     (if tag_of d l = ''ul''
      then (case parent_of (dtree d) x of None \<Rightarrow> False | Some li \<Rightarrow> tag_of d li = ''li'' \<and> parent_of (dtree d) li = Some l)
      else parent_of (dtree d) x = Some l)"

lemma activeElements_slot:
  "activeElements (Some l) d = filter (\<lambda>x. hasClass x ''active'' d \<and> in_slot l d x) (node_order (dtree d))"
  by (auto simp: activeElements_def active_ul_def active_children_def jq_children_def in_slot_def intro: filter_cong)

lemma in_slot_cong: "dtree d' = dtree d \<Longrightarrow> tag_of d' = tag_of d \<Longrightarrow> in_slot l d' = in_slot l d"
  by (auto simp: in_slot_def fun_eq_iff split: option.split)

definition no_menus :: "dom \<Rightarrow> bool" where
  "no_menus d \<longleftrightarrow> (\<forall>m. \<not> hasClass m ''dropdown-menu'' d)"

lemma set_selected_frame [simp]:
  "dtree (set_selected b x d) = dtree d" "tag_of (set_selected b x d) = tag_of d" "class_of (set_selected b x d) = class_of d"
  "event_log (set_selected b x d) = event_log d" "env (set_selected b x d) = env d"
  by (simp_all add: set_selected_def)

lemma hasClass_set_selected [simp]: "hasClass y c (set_selected b x d) = hasClass y c d"
  by (simp add: hasClass_def)





lemma tab_complete_frame [simp]:
  "dtree (tab_complete this p d) = dtree d" "tag_of (tab_complete this p d) = tag_of d"
  "class_of (tab_complete this p d) = class_of d"
  "hasClass y c (tab_complete this p d) = hasClass y c d"
  by (auto simp: tab_complete_def Let_def split: option.split)

lemma activeElements_complete [simp]: "activeElements (Some l) (tab_complete this p d) = activeElements (Some l) d"
  using in_slot_cong [of "tab_complete this p d" d l] by (simp add: activeElements_slot)




lemma fire_tab_frame [simp]:
  "activeElements (Some l) (fire n r x d) = activeElements (Some l) d" "no_menus (fire n r x d) = no_menus d"
  "in_slot l (fire n r x d) = in_slot l d" "select s (fire n r x d) = select s d"
  using in_slot_cong [of "fire n r x d" d l] by (simp_all add: activeElements_slot no_menus_def select_def)





lemma nat_str_no_dot: "CHR ''.'' \<notin> set (nat_str n)" "CHR '' '' \<notin> set (nat_str n)"
  using nat_str_digits [of _ n] by fastforce+

lemma jquery_version_parts:
  "jquery_version (nat_str a @ ''.'' @ nat_str b @ ''.'' @ nat_str c) = [nat_str a, nat_str b, nat_str c]"
  by (simp add: jquery_version_def split_on_none split_on_append nat_str_no_dot)

lemma part_num_nat: "i < length v \<Longrightarrow> v ! i = nat_str n \<Longrightarrow> part_num v i = Some (int n)"
  using nat_str_digits [of _ n] by (auto simp: part_num_def str_nat_nat_str list_all_iff)

text \<open>
  C27: of the jQuery versions a.b.c the check accepts exactly those with a at least 2 or b at least 9, and
  a below 4; so 1.9.0 passes although the message asks for 1.9.1, because the comparison that should
  catch it is strict between a string and a number.
\<close>

theorem check_jquery_accepts:
  "check_jquery (Some (nat_str a @ ''.'' @ nat_str b @ ''.'' @ nat_str c)) = Inr ()
     \<longleftrightarrow> (2 \<le> a \<or> 9 \<le> b) \<and> a < 4"
  unfolding check_jquery_def option.case jquery_version_parts Let_def
  by (auto simp: part_num_nat [of 0 _ a] part_num_nat [of "Suc 0" _ b] lt_num_def ge_num_def strict_eq_num_def part_val_def)

subsection \<open>A page with two tabs\<close>




end
