(* ===== verification/Popper_Geometry.thy ===== *)
theory Popper_Geometry
  imports Js_Number Dom "HOL-Library.Monad_Syntax"
begin

section \<open>Popper: what it measures\<close>

text \<open>
  The measuring functions of the Popper library that \<open>bootstrap.bundle.js\<close> carries (version 1.12.9): scroll
  and offset parents, rectangles, boundaries, and the choice of an automatic placement. Lengths are
  exact rationals or NaN; a member an object does not have reads as NaN, which is what \<open>undefined\<close> is in
  every computation of this code. Objects with sides and sizes (\<open>rect\<close>) are maps, and \<open>Object.assign\<close> is
  \<open>++\<close>. What the browser reports is the record \<open>browser\<close>. A function that walks the tree gives \<open>None\<close> when it
  throws or does not come to an end.
\<close>

subsection \<open>Lengths\<close>

datatype len = NoLen | Len rat

fun lift2 :: "(rat \<Rightarrow> rat \<Rightarrow> rat) \<Rightarrow> len \<Rightarrow> len \<Rightarrow> len" where
  "lift2 f (Len a) (Len b) = Len (f a b)"
| "lift2 f _ _ = NoLen"

fun compare_len :: "(rat \<Rightarrow> rat \<Rightarrow> bool) \<Rightarrow> len \<Rightarrow> len \<Rightarrow> bool" where
  "compare_len r (Len a) (Len b) = r a b"
| "compare_len r _ _ = False"

text \<open>The arithmetic and comparison operators; no comparison with NaN holds.\<close>

instantiation len :: "{zero, plus, minus, uminus, times, ord}"
begin

definition zero_len_def: "0 = Len 0"

definition plus_len_def: "x + y = lift2 (+) x y"

definition minus_len_def: "x - y = lift2 (-) x y"

definition uminus_len_def: "- x = lift2 (-) (Len 0) x"

definition times_len_def: "x * y = lift2 (*) x y"

definition less_len_def: "x < y = compare_len (<) x y"

definition less_eq_len_def: "x \<le> y = compare_len (\<le>) x y"

instance ..

end

lemma len_simps [simp]:
  "Len a + Len b = Len (a + b)" "Len a - Len b = Len (a - b)" "- Len a = Len (- a)" "Len a * Len b = Len (a * b)"
  "Len a < Len b \<longleftrightarrow> a < b" "Len a \<le> Len b \<longleftrightarrow> a \<le> b"
  "NoLen + x = NoLen" "x + NoLen = NoLen" "NoLen - x = NoLen" "x - NoLen = NoLen" "- NoLen = NoLen"
  "NoLen * x = NoLen" "x * NoLen = NoLen"
  "\<not> NoLen < x" "\<not> x < NoLen" "\<not> NoLen \<le> x" "\<not> x \<le> NoLen"
  by (cases x; simp add: plus_len_def minus_len_def uminus_len_def times_len_def less_len_def less_eq_len_def)+

lemma zero_Len: "0 = Len 0"
  by (simp add: zero_len_def)

definition div_by :: "len \<Rightarrow> rat \<Rightarrow> len" where
  "div_by x k = lift2 (\<lambda>a b. a / b) x (Len k)"

definition js_max :: "len \<Rightarrow> len \<Rightarrow> len" where
  "js_max x y = lift2 max x y"

definition js_min :: "len \<Rightarrow> len \<Rightarrow> len" where
  "js_min x y = lift2 min x y"

fun js_floor :: "len \<Rightarrow> len" where
  "js_floor (Len a) = Len (of_int \<lfloor>a\<rfloor>)"
| "js_floor NoLen = NoLen"

definition js_round :: "len \<Rightarrow> len" where
  "js_round x = js_floor (x + Len (1 / 2))"

definition truthy_len :: "len \<Rightarrow> bool" where
  "truthy_len x \<longleftrightarrow> x \<noteq> NoLen \<and> x \<noteq> Len 0"

lemma len_fun_simps [simp]:
  "div_by (Len a) k = Len (a / k)" "div_by NoLen k = NoLen"
  "js_max (Len a) (Len b) = Len (max a b)" "js_min (Len a) (Len b) = Len (min a b)"
  "truthy_len (Len a) \<longleftrightarrow> a \<noteq> 0" "\<not> truthy_len NoLen"
  by (simp_all add: div_by_def js_max_def js_min_def truthy_len_def)

subsection \<open>Rectangles\<close>

type_synonym rect = "string \<Rightarrow> len option"

definition side_of :: "rect \<Rightarrow> string \<Rightarrow> len" where
  "side_of r k = (case r k of None \<Rightarrow> NoLen | Some v \<Rightarrow> v)"

definition getClientRect :: "rect \<Rightarrow> rect" where
  "getClientRect offsets =
     offsets(''right'' \<mapsto> side_of offsets ''left'' + side_of offsets ''width'',
             ''bottom'' \<mapsto> side_of offsets ''top'' + side_of offsets ''height'')"

text \<open>The member \<open>k\<close> of the object increased by \<open>v\<close>.\<close>

definition add_to :: "string \<Rightarrow> len \<Rightarrow> rect \<Rightarrow> rect" where
  "add_to k v r = r(k \<mapsto> side_of r k + v)"

lemma side_of_upd [simp]: "side_of (r(k \<mapsto> v)) j = (if j = k then v else side_of r j)"
  by (simp add: side_of_def)

lemma side_of_assign [simp]: "side_of (r ++ s) j = (case s j of None \<Rightarrow> side_of r j | Some v \<Rightarrow> v)"
  by (simp add: side_of_def map_add_def split: option.splits)

lemma side_of_getClientRect [simp]:
  "side_of (getClientRect r) k =
     (if k = ''right'' then side_of r ''left'' + side_of r ''width''
      else if k = ''bottom'' then side_of r ''top'' + side_of r ''height'' else side_of r k)"
  by (auto simp: getClientRect_def)

lemma side_of_add_to [simp]: "side_of (add_to k v r) j = (if j = k then side_of r k + v else side_of r j)"
  by (simp add: add_to_def)

subsection \<open>The browser\<close>

text \<open>
  The tree, with the hosts of shadow roots; offset parents; computed styles, as text and read by
  \<open>parseFloat\<close>; the numbers an element has under a name such as \<open>clientWidth\<close> or \<open>scrollTop\<close> (NaN where it has
  none); the native bounding rectangles; whether one element follows another; the window; and which
  style properties the browser knows. An object that is not a node has node type 0.
\<close>

record browser =
  nodeName :: "elem \<Rightarrow> string"
  nodeType :: "elem \<Rightarrow> nat"
  parentNode :: "elem \<Rightarrow> elem option"
  host :: "elem \<Rightarrow> elem option"
  offsetParent :: "elem \<Rightarrow> elem option"
  firstElementChild :: "elem \<Rightarrow> elem option"
  all_nodes :: "elem list"
  follows :: "elem \<Rightarrow> elem \<Rightarrow> bool"
  documentElement :: elem
  document_body :: elem
  scrollingElement :: "elem option"
  computed :: "elem \<Rightarrow> string \<Rightarrow> string"
  computed_px :: "elem \<Rightarrow> string \<Rightarrow> len"
  metric :: "elem \<Rightarrow> string \<Rightarrow> len"
  native_rect :: "elem \<Rightarrow> string \<Rightarrow> rat"
  innerWidth :: rat
  innerHeight :: rat
  appVersion :: string
  knows_style :: "string \<Rightarrow> bool"
  querySelector :: "elem \<Rightarrow> string \<Rightarrow> elem option"

definition isIE10 :: "browser \<Rightarrow> bool" where
  "isIE10 b \<longleftrightarrow> contains (appVersion b) ''MSIE 10''"

definition getStyleComputedProperty :: "browser \<Rightarrow> elem \<Rightarrow> string \<Rightarrow> string" where
  "getStyleComputedProperty b x p = (if nodeType b x \<noteq> 1 then ''undefined'' else computed b x p)"

definition style_px :: "browser \<Rightarrow> elem \<Rightarrow> string \<Rightarrow> len" where
  "style_px b x p = (if nodeType b x \<noteq> 1 then NoLen else computed_px b x p)"

definition getParentNode :: "browser \<Rightarrow> elem \<Rightarrow> elem option" where
  "getParentNode b x =
     (if nodeName b x = ''HTML'' then Some x
      else case parentNode b x of Some p \<Rightarrow> Some p | None \<Rightarrow> host b x)"

subsection \<open>Scroll parents and offset parents\<close>

definition scrolls :: "browser \<Rightarrow> elem \<Rightarrow> bool" where
  "scrolls b x =
     (let s = getStyleComputedProperty b x ''overflow'' @ getStyleComputedProperty b x ''overflowY'' @ getStyleComputedProperty b x ''overflowX''
      in contains s ''auto'' \<or> contains s ''scroll'')"

partial_function (option) getScrollParent :: "browser \<Rightarrow> elem option \<Rightarrow> elem option" where
  "getScrollParent b e =
     (case e of
        None \<Rightarrow> Some (document_body b)
      | Some x \<Rightarrow>
          if nodeName b x \<in> {''HTML'', ''BODY'', ''#document''} then Some (document_body b)
          else if scrolls b x then Some x
          else getScrollParent b (getParentNode b x))"

partial_function (option) getOffsetParent :: "browser \<Rightarrow> elem option \<Rightarrow> elem option" where
  "getOffsetParent b e =
     (case Option.bind e (offsetParent b) of
        None \<Rightarrow> Some (documentElement b)
      | Some p \<Rightarrow>
          if nodeName b p \<in> {'''', ''BODY'', ''HTML''} then Some (documentElement b)
          else if nodeName b p \<in> {''TD'', ''TABLE''} \<and> getStyleComputedProperty b p ''position'' = ''static''
          then getOffsetParent b (Some p)
          else Some p)"

definition isOffsetContainer :: "browser \<Rightarrow> elem \<Rightarrow> bool option" where
  "isOffsetContainer b x =
     (if nodeName b x = ''BODY'' then Some False
      else if nodeName b x = ''HTML'' then Some True
      else do { p \<leftarrow> getOffsetParent b (firstElementChild b x); Some (p = x) })"

partial_function (option) getRoot :: "browser \<Rightarrow> elem \<Rightarrow> elem option" where
  "getRoot b x = (case parentNode b x of None \<Rightarrow> Some x | Some p \<Rightarrow> getRoot b p)"

text \<open>A node and its ancestors, and \<open>contains\<close>.\<close>

definition up_chain :: "browser \<Rightarrow> elem \<Rightarrow> elem list" where
  "up_chain b x = x # chain (length (all_nodes b)) (parentNode b) x"

definition node_contains :: "browser \<Rightarrow> elem \<Rightarrow> elem \<Rightarrow> bool" where
  "node_contains b p x \<longleftrightarrow> p \<in> set (up_chain b x)"

text \<open>
  The range from \<open>start\<close> to \<open>end\<close>: its common ancestor container is their first common ancestor; when they
  are in different trees, setting the end collapses the range to the end.
\<close>

definition commonAncestorContainer :: "browser \<Rightarrow> elem \<Rightarrow> elem \<Rightarrow> elem" where
  "commonAncestorContainer b s e =
     (case first (filter (\<lambda>x. x \<in> set (up_chain b e)) (up_chain b s)) of None \<Rightarrow> e | Some x \<Rightarrow> x)"

partial_function (option) findCommonOffsetParent :: "browser \<Rightarrow> elem option \<Rightarrow> elem option \<Rightarrow> elem option" where
  "findCommonOffsetParent b e1 e2 =
     (case (e1, e2) of
        (Some x1, Some x2) \<Rightarrow>
          if nodeType b x1 = 0 \<or> nodeType b x2 = 0 then Some (documentElement b)
          else
            let order = follows b x1 x2;
                s = (if order then x1 else x2);
                e = (if order then x2 else x1);
                c = commonAncestorContainer b s e
            in if x1 \<noteq> c \<and> x2 \<noteq> c \<or> node_contains b s e
               then do { k \<leftarrow> isOffsetContainer b c; if k then Some c else getOffsetParent b (Some c) }
               else do {
                 r1 \<leftarrow> getRoot b x1;
                 (case host b r1 of
                    Some h \<Rightarrow> findCommonOffsetParent b (Some h) (Some x2)
                  | None \<Rightarrow> do { r2 \<leftarrow> getRoot b x2; findCommonOffsetParent b (Some x1) (host b r2) }) }
      | _ \<Rightarrow> Some (documentElement b))"

partial_function (option) isFixed :: "browser \<Rightarrow> elem \<Rightarrow> bool option" where
  "isFixed b x =
     (if nodeName b x \<in> {''BODY'', ''HTML''} then Some False
      else if getStyleComputedProperty b x ''position'' = ''fixed'' then Some True
      else do { p \<leftarrow> getParentNode b x; isFixed b p })"

subsection \<open>Scroll positions and sizes\<close>

definition getScroll :: "browser \<Rightarrow> elem \<Rightarrow> string \<Rightarrow> len" where
  "getScroll b x side =
     (let upperSide = (if side = ''top'' then ''scrollTop'' else ''scrollLeft'')
      in if nodeName b x \<in> {''BODY'', ''HTML''}
         then metric b (case scrollingElement b of None \<Rightarrow> documentElement b | Some s \<Rightarrow> s) upperSide
         else metric b x upperSide)"

definition includeScroll :: "browser \<Rightarrow> rect \<Rightarrow> elem \<Rightarrow> bool \<Rightarrow> rect" where
  "includeScroll b r x subtract =
     (let modifier = Len (if subtract then -1 else 1);
          scrollTop = getScroll b x ''top'' * modifier;
          scrollLeft = getScroll b x ''left'' * modifier
      in add_to ''right'' scrollLeft (add_to ''left'' scrollLeft (add_to ''bottom'' scrollTop (add_to ''top'' scrollTop r))))"

definition getBordersSize :: "browser \<Rightarrow> elem \<Rightarrow> string \<Rightarrow> len" where
  "getBordersSize b x axis =
     (if axis = ''x'' then style_px b x ''borderLeftWidth'' + style_px b x ''borderRightWidth''
      else style_px b x ''borderTopWidth'' + style_px b x ''borderBottomWidth'')"

text \<open>
  In Internet Explorer 10 the last argument of \<open>Math.max\<close> is a number plus two computed margins, which are
  texts with a unit: the sum is a text and the maximum NaN.
\<close>

definition getSize :: "browser \<Rightarrow> string \<Rightarrow> len" where
  "getSize b axis =
     (let body = document_body b; html = documentElement b
      in if isIE10 b then NoLen
         else foldl js_max (metric b body (''offset'' @ axis))
                [metric b body (''scroll'' @ axis), metric b html (''client'' @ axis), metric b html (''offset'' @ axis),
                 metric b html (''scroll'' @ axis), 0])"

definition getWindowSizes :: "browser \<Rightarrow> rect" where
  "getWindowSizes b = [''height'' \<mapsto> getSize b ''Height'', ''width'' \<mapsto> getSize b ''Width'']"

definition or_len :: "len \<Rightarrow> len \<Rightarrow> len" where
  "or_len x y = (if truthy_len x then x else y)"

subsection \<open>Rectangles of elements\<close>

text \<open>
  The members \<open>right\<close> and \<open>bottom\<close> of \<open>result\<close> are not there yet when the last alternatives for the width and
  the height read them, so these are NaN.
\<close>

definition getBoundingClientRect :: "browser \<Rightarrow> elem \<Rightarrow> rect" where
  "getBoundingClientRect b x =
     (let scrollTop = (if isIE10 b then getScroll b x ''top'' else 0);
          scrollLeft = (if isIE10 b then getScroll b x ''left'' else 0);
          left = Len (native_rect b x ''left'') + scrollLeft;
          top = Len (native_rect b x ''top'') + scrollTop;
          result = [''left'' \<mapsto> left, ''top'' \<mapsto> top,
                    ''width'' \<mapsto> Len (native_rect b x ''right'') + scrollLeft - left,
                    ''height'' \<mapsto> Len (native_rect b x ''bottom'') + scrollTop - top];
          sizes = (if nodeName b x = ''HTML'' then getWindowSizes b else Map.empty);
          width = or_len (side_of sizes ''width'') (or_len (metric b x ''clientWidth'') (side_of result ''right'' - side_of result ''left''));
          height = or_len (side_of sizes ''height'') (or_len (metric b x ''clientHeight'') (side_of result ''bottom'' - side_of result ''top''));
          horizScrollbar = metric b x ''offsetWidth'' - width;
          vertScrollbar = metric b x ''offsetHeight'' - height
      in getClientRect
           (if truthy_len horizScrollbar \<or> truthy_len vertScrollbar
            then result(''width'' \<mapsto> side_of result ''width'' - (horizScrollbar - getBordersSize b x ''x''),
                        ''height'' \<mapsto> side_of result ''height'' - (vertScrollbar - getBordersSize b x ''y''))
            else result))"

definition getOffsetRectRelativeToArbitraryNode :: "browser \<Rightarrow> elem \<Rightarrow> elem \<Rightarrow> rect option" where
  "getOffsetRectRelativeToArbitraryNode b children parent =
     do {
       scrollParent \<leftarrow> getScrollParent b (Some children);
       let childrenRect = getBoundingClientRect b children;
       let parentRect = getBoundingClientRect b parent;
       let borderTopWidth = style_px b parent ''borderTopWidth'';
       let borderLeftWidth = style_px b parent ''borderLeftWidth'';
       let offsets = (getClientRect
             [''top'' \<mapsto> side_of childrenRect ''top'' - side_of parentRect ''top'' - borderTopWidth,
              ''left'' \<mapsto> side_of childrenRect ''left'' - side_of parentRect ''left'' - borderLeftWidth,
              ''width'' \<mapsto> side_of childrenRect ''width'',
              ''height'' \<mapsto> side_of childrenRect ''height''])(''marginTop'' \<mapsto> 0, ''marginLeft'' \<mapsto> 0);
       let marginTop = style_px b parent ''marginTop'';
       let marginLeft = style_px b parent ''marginLeft'';
       let offsets = (if \<not> isIE10 b \<and> nodeName b parent = ''HTML''
             then (add_to ''top'' (- (borderTopWidth - marginTop))
                    (add_to ''bottom'' (- (borderTopWidth - marginTop))
                      (add_to ''left'' (- (borderLeftWidth - marginLeft))
                        (add_to ''right'' (- (borderLeftWidth - marginLeft)) offsets))))
                    (''marginTop'' \<mapsto> marginTop, ''marginLeft'' \<mapsto> marginLeft)
             else offsets);
       Some (if (if isIE10 b then node_contains b parent scrollParent
                 else parent = scrollParent \<and> nodeName b scrollParent \<noteq> ''BODY'')
             then includeScroll b offsets parent False else offsets)
     }"

definition getViewportOffsetRectRelativeToArtbitraryNode :: "browser \<Rightarrow> elem \<Rightarrow> rect option" where
  "getViewportOffsetRectRelativeToArtbitraryNode b x =
     do {
       let html = documentElement b;
       relativeOffset \<leftarrow> getOffsetRectRelativeToArbitraryNode b x html;
       Some (getClientRect
         [''top'' \<mapsto> getScroll b html ''top'' - side_of relativeOffset ''top'' + side_of relativeOffset ''marginTop'',
          ''left'' \<mapsto> getScroll b html ''left'' - side_of relativeOffset ''left'' + side_of relativeOffset ''marginLeft'',
          ''width'' \<mapsto> js_max (metric b html ''clientWidth'') (Len (innerWidth b)),
          ''height'' \<mapsto> js_max (metric b html ''clientHeight'') (Len (innerHeight b))])
     }"

subsection \<open>Boundaries\<close>

datatype boundary = ScrollParent | Window | Viewport | BoundaryElem elem

definition pad :: "rat \<Rightarrow> rect \<Rightarrow> rect" where
  "pad padding r =
     add_to ''bottom'' (Len (- padding)) (add_to ''right'' (Len (- padding)) (add_to ''top'' (Len padding) (add_to ''left'' (Len padding) r)))"

definition boundaries_node :: "browser \<Rightarrow> elem \<Rightarrow> boundary \<Rightarrow> elem option" where
  "boundaries_node b reference boundariesElement =
     (case boundariesElement of
        ScrollParent \<Rightarrow>
          do { p \<leftarrow> getScrollParent b (getParentNode b reference);
               Some (if nodeName b p = ''BODY'' then documentElement b else p) }
      | BoundaryElem x \<Rightarrow> Some x
      | _ \<Rightarrow> Some (documentElement b))"

definition getBoundaries :: "browser \<Rightarrow> elem \<Rightarrow> elem \<Rightarrow> rat \<Rightarrow> boundary \<Rightarrow> rect option" where
  "getBoundaries b popper reference padding boundariesElement =
     do {
       offsetPar \<leftarrow> findCommonOffsetParent b (Some popper) (Some reference);
       (if boundariesElement = Viewport
        then map_option (pad padding) (getViewportOffsetRectRelativeToArtbitraryNode b offsetPar)
        else do {
          boundariesNode \<leftarrow> boundaries_node b reference boundariesElement;
          offsets \<leftarrow> getOffsetRectRelativeToArbitraryNode b boundariesNode offsetPar;
          fixd \<leftarrow> (if nodeName b boundariesNode = ''HTML'' then isFixed b offsetPar else Some False);
          Some (pad padding
            (if nodeName b boundariesNode = ''HTML'' \<and> \<not> fixd
             then let sizes = getWindowSizes b
                  in [''top'' \<mapsto> 0 + (side_of offsets ''top'' - side_of offsets ''marginTop''),
                      ''bottom'' \<mapsto> side_of sizes ''height'' + side_of offsets ''top'',
                      ''left'' \<mapsto> 0 + (side_of offsets ''left'' - side_of offsets ''marginLeft''),
                      ''right'' \<mapsto> side_of sizes ''width'' + side_of offsets ''left'']
             else offsets))
        })
     }"

subsection \<open>Automatic placement\<close>

text \<open>
  \<open>Array.prototype.sort\<close> with a comparator, as a stable insertion sort. The comparator's result is
  given as whether the second argument has to come before the first; NaN counts as zero.
\<close>

fun insert_by :: "('a \<Rightarrow> 'a \<Rightarrow> bool) \<Rightarrow> 'a \<Rightarrow> 'a list \<Rightarrow> 'a list" where
  "insert_by after x [] = [x]"
| "insert_by after x (y # ys) = (if after x y then y # insert_by after x ys else x # y # ys)"

definition sort_by :: "('a \<Rightarrow> 'a \<Rightarrow> bool) \<Rightarrow> 'a list \<Rightarrow> 'a list" where
  "sort_by after xs = foldr (insert_by after) xs []"

definition getArea :: "len \<times> len \<Rightarrow> len" where
  "getArea r = fst r * snd r"

text \<open>The free space next to the reference, per side, as width and height.\<close>

definition free_rects :: "rect \<Rightarrow> rect \<Rightarrow> (string \<times> len \<times> len) list" where
  "free_rects boundaries refRect =
     [(''top'', side_of boundaries ''width'', side_of refRect ''top'' - side_of boundaries ''top''),
      (''right'', side_of boundaries ''right'' - side_of refRect ''right'', side_of boundaries ''height''),
      (''bottom'', side_of boundaries ''width'', side_of boundaries ''bottom'' - side_of refRect ''bottom''),
      (''left'', side_of refRect ''left'' - side_of boundaries ''left'', side_of boundaries ''height'')]"

definition with_variation :: "string \<Rightarrow> string option \<Rightarrow> string" where
  "with_variation p v = (case v of None \<Rightarrow> p | Some w \<Rightarrow> if w = [] then p else p @ ''-'' @ w)"

definition base_of :: "string \<Rightarrow> string" where
  "base_of placement = hd (split_on (CHR ''-'') placement)"

definition variation_of :: "string \<Rightarrow> string option" where
  "variation_of placement = Prelude.at (split_on (CHR ''-'') placement) 1"

definition pick_side :: "(string \<times> len \<times> len) list \<Rightarrow> len \<Rightarrow> len \<Rightarrow> string" where
  "pick_side rects clientWidth clientHeight =
     (let sortedAreas = sort_by (\<lambda>x y. getArea (snd x) < getArea (snd y)) rects;
          filteredAreas = filter (\<lambda>(k, w, h). clientWidth \<le> w \<and> clientHeight \<le> h) sortedAreas
      in if filteredAreas \<noteq> [] then fst (hd filteredAreas) else fst (hd sortedAreas))"

definition computeAutoPlacement ::
  "browser \<Rightarrow> string \<Rightarrow> rect \<Rightarrow> elem \<Rightarrow> elem \<Rightarrow> boundary \<Rightarrow> rat \<Rightarrow> string option" where
  "computeAutoPlacement b placement refRect popper reference boundariesElement padding =
     (if \<not> contains placement ''auto'' then Some placement
      else do {
        boundaries \<leftarrow> getBoundaries b popper reference padding boundariesElement;
        Some (with_variation
          (pick_side (free_rects boundaries refRect) (metric b popper ''clientWidth'') (metric b popper ''clientHeight''))
          (variation_of placement))
      })"

definition getReferenceOffsets :: "browser \<Rightarrow> elem \<Rightarrow> elem \<Rightarrow> rect option" where
  "getReferenceOffsets b popper reference =
     do {
       commonOffsetParent \<leftarrow> findCommonOffsetParent b (Some popper) (Some reference);
       getOffsetRectRelativeToArbitraryNode b reference commonOffsetParent
     }"

definition getOuterSizes :: "browser \<Rightarrow> elem \<Rightarrow> rect" where
  "getOuterSizes b x =
     (let xm = computed_px b x ''marginTop'' + computed_px b x ''marginBottom'';
          ym = computed_px b x ''marginLeft'' + computed_px b x ''marginRight''
      in [''width'' \<mapsto> metric b x ''offsetWidth'' + ym, ''height'' \<mapsto> metric b x ''offsetHeight'' + xm])"

subsection \<open>The scroll parent is the nearest scrolling ancestor\<close>

definition is_root :: "browser \<Rightarrow> elem \<Rightarrow> bool" where
  "is_root b x \<longleftrightarrow> nodeName b x \<in> {''HTML'', ''BODY'', ''#document''}"

text \<open>
  C37: the search for the scroll parent ends and finds the nearest one. When going up always reduces the depth,
  the result is the first of the element and its ancestors that scrolls, unless the root of the document
  comes first or there is none: then it is the body.
\<close>

theorem scroll_parent_nearest:
  assumes "\<And>x y. getParentNode b x = Some y \<Longrightarrow> \<not> is_root b x \<Longrightarrow> depth y < (depth x :: nat)"
  shows "getScrollParent b (Some x) =
    Some (case List.find (\<lambda>z. is_root b z \<or> scrolls b z) (x # chain (depth x) (getParentNode b) x) of
            None \<Rightarrow> document_body b
          | Some z \<Rightarrow> if is_root b z then document_body b else z)"
proof -
  have "getScrollParent b (Some x) =
    Some (case List.find (\<lambda>z. is_root b z \<or> scrolls b z) (x # chain n (getParentNode b) x) of
            None \<Rightarrow> document_body b
          | Some z \<Rightarrow> if is_root b z then document_body b else z)" if "depth x \<le> n" for n x
    using that
  proof (induction n arbitrary: x)
    case 0
    then have "is_root b x \<or> getParentNode b x = None"
      using assms [of x] by (cases "getParentNode b x") auto
    then show ?case
      by (auto simp: getScrollParent.simps [of b "Some x"] getScrollParent.simps [of b None] is_root_def)
  next
    case (Suc n)
    show ?case
    proof (cases "is_root b x \<or> scrolls b x \<or> getParentNode b x = None")
      case True
      then show ?thesis
        by (auto simp: getScrollParent.simps [of b "Some x"] getScrollParent.simps [of b None] is_root_def)
    next
      case False
      then obtain y where y: "getParentNode b x = Some y" by auto
      with False assms [OF y] Suc.prems have "depth y \<le> n" by simp
      from Suc.IH [OF this] False y show ?thesis
        by (simp add: getScrollParent.simps [of b "Some x"] is_root_def)
    qed
  qed
  then show ?thesis by blast
qed

subsection \<open>The automatic placement\<close>

lemma insert_by_set: "set (insert_by f x xs) = insert x (set xs)"
  by (induction xs) auto

lemma sort_by_set [simp]: "set (sort_by f xs) = set xs"
  by (induction xs) (auto simp: sort_by_def insert_by_set)

lemma sort_by_Nil [simp]: "sort_by f xs = [] \<longleftrightarrow> xs = []"
  using sort_by_set [of f xs] by (metis set_empty)

text \<open>Sorted from the largest: no element is smaller than a later one.\<close>

lemma insert_by_sorted:
  assumes "sorted_wrt (\<lambda>x y. key y \<le> (key x :: rat)) xs"
  shows "sorted_wrt (\<lambda>x y. key y \<le> key x) (insert_by (\<lambda>x y. key x < key y) x xs)"
  using assms by (induction xs) (auto simp: insert_by_set)

lemma sort_by_sorted: "sorted_wrt (\<lambda>x y. key y \<le> (key x :: rat)) (sort_by (\<lambda>x y. key x < key y) xs)"
  by (induction xs) (simp_all add: sort_by_def insert_by_sorted)

lemma sort_by_cong: "(\<And>x y. x \<in> set xs \<Longrightarrow> y \<in> set xs \<Longrightarrow> f x y = g x y) \<Longrightarrow> sort_by f xs = sort_by g xs"
proof (induction xs)
  case (Cons a xs)
  have "insert_by f a ys = insert_by g a ys" if "set ys \<subseteq> set xs" for ys
    using that Cons.prems by (induction ys) auto
  then show ?case
    using Cons by (simp add: sort_by_def) (metis sort_by_def sort_by_set order_refl)
qed (simp add: sort_by_def)

lemma sort_by_none: "(\<And>x y. x \<in> set xs \<Longrightarrow> y \<in> set xs \<Longrightarrow> \<not> f x y) \<Longrightarrow> sort_by f xs = xs"
proof (induction xs)
  case (Cons a xs)
  then have "sort_by f xs = xs" by simp
  then have "sort_by f (a # xs) = insert_by f a xs" by (simp add: sort_by_def)
  also have "\<dots> = a # xs" using Cons.prems by (cases xs) auto
  finally show ?case .
qed (simp add: sort_by_def)

lemma hd_filter_sorted:
  "sorted_wrt R xs \<Longrightarrow> filter P xs \<noteq> [] \<Longrightarrow> y \<in> set xs \<Longrightarrow> P y \<Longrightarrow> y = hd (filter P xs) \<or> R (hd (filter P xs)) y"
  by (induction xs) auto

definition fits :: "browser \<Rightarrow> elem \<Rightarrow> string \<times> len \<times> len \<Rightarrow> bool" where
  "fits b popper r \<longleftrightarrow> metric b popper ''clientWidth'' \<le> fst (snd r) \<and> metric b popper ''clientHeight'' \<le> snd (snd r)"

lemma pick_side_largest:
  assumes ne: "rects \<noteq> []" and fin: "\<And>r. r \<in> set rects \<Longrightarrow> getArea (snd r) = Len (key r)"
  shows "\<exists>r \<in> set rects. pick_side rects (metric b popper ''clientWidth'') (metric b popper ''clientHeight'') = fst r
    \<and> (\<forall>r' \<in> set rects. fits b popper r' \<or> (\<forall>r'' \<in> set rects. \<not> fits b popper r'') \<longrightarrow>
         (fits b popper r' \<longrightarrow> fits b popper r) \<and> getArea (snd r') \<le> getArea (snd r))"
proof -
  let ?s = "sort_by (\<lambda>x y. getArea (snd x) < getArea (snd y)) rects"
  let ?f = "filter (fits b popper) ?s"
  have "?s = sort_by (\<lambda>x y. key x < key y) rects" by (rule sort_by_cong) (simp add: fin)
  then have sorted: "sorted_wrt (\<lambda>x y. key y \<le> key x) ?s" by (simp add: sort_by_sorted)
  have feq: "(\<lambda>(k, w, h). metric b popper ''clientWidth'' \<le> w \<and> metric b popper ''clientHeight'' \<le> h) = fits b popper"
    by (auto simp: fits_def)
  have pick: "pick_side rects (metric b popper ''clientWidth'') (metric b popper ''clientHeight'') = fst (if ?f \<noteq> [] then hd ?f else hd ?s)"
    by (simp add: pick_side_def Let_def feq)
  show ?thesis
  proof (cases "?f = []")
    case True
    then have none: "\<forall>r \<in> set rects. \<not> fits b popper r" by (auto simp: filter_empty_conv)
    have hd: "hd ?s \<in> set rects" using ne by (metis hd_in_set sort_by_Nil sort_by_set)
    have "key r' \<le> key (hd ?s)" if "r' \<in> set rects" for r'
      using hd_filter_sorted [OF sorted, of "\<lambda>_. True" r'] that ne by auto
    then show ?thesis using True pick none hd fin by (intro bexI [of _ "hd ?s"]) auto
  next
    case False
    then have hd: "hd ?f \<in> set ?f" by (rule hd_in_set)
    have "key r' \<le> key (hd ?f)" if "r' \<in> set rects" "fits b popper r'" for r'
      using hd_filter_sorted [OF sorted False, of r'] that by auto
    then show ?thesis using False pick hd fin by (intro bexI [of _ "hd ?f"]) auto
  qed
qed

text \<open>
  C35: an automatic placement takes the side with the most room. With finite measures, among the sides of the
  reference where the popper fits into the free space (among all sides when it fits nowhere) the
  chosen one has the largest free area, and the variation of the placement is kept.
\<close>

theorem auto_placement_largest:
  assumes bd: "getBoundaries b popper reference padding boundariesElement = Some bd" and auto: "contains placement ''auto''"
    and fin: "\<And>r. r \<in> set (free_rects bd refRect) \<Longrightarrow> getArea (snd r) \<noteq> NoLen"
  shows "\<exists>r \<in> set (free_rects bd refRect).
    computeAutoPlacement b placement refRect popper reference boundariesElement padding = Some (with_variation (fst r) (variation_of placement))
    \<and> (\<forall>r' \<in> set (free_rects bd refRect). fits b popper r' \<or> (\<forall>r'' \<in> set (free_rects bd refRect). \<not> fits b popper r'') \<longrightarrow>
         (fits b popper r' \<longrightarrow> fits b popper r) \<and> getArea (snd r') \<le> getArea (snd r))"
proof -
  have "getArea (snd r) = Len (case getArea (snd r) of Len a \<Rightarrow> a)" if "r \<in> set (free_rects bd refRect)" for r
    using fin [OF that] by (cases "getArea (snd r)") auto
  moreover have "free_rects bd refRect \<noteq> []" by (simp add: free_rects_def)
  ultimately obtain r where "r \<in> set (free_rects bd refRect)"
    "pick_side (free_rects bd refRect) (metric b popper ''clientWidth'') (metric b popper ''clientHeight'') = fst r"
    "\<forall>r' \<in> set (free_rects bd refRect). fits b popper r' \<or> (\<forall>r'' \<in> set (free_rects bd refRect). \<not> fits b popper r'') \<longrightarrow>
       (fits b popper r' \<longrightarrow> fits b popper r) \<and> getArea (snd r') \<le> getArea (snd r)"
    using pick_side_largest [of "free_rects bd refRect" "\<lambda>r. case getArea (snd r) of Len a \<Rightarrow> a" b popper] by blast
  then show ?thesis using auto bd by (auto simp: computeAutoPlacement_def)
qed

text \<open>
  When the boundary is the whole document, the boundaries have no width and no height; every area is NaN
  and the automatic placement is always the top.
\<close>

lemma auto_document_top:
  assumes bd: "getBoundaries b popper reference padding Window = Some bd"
    and html: "nodeName b (documentElement b) = ''HTML''" "findCommonOffsetParent b (Some popper) (Some reference) = Some p" "isFixed b p = Some False"
    and auto: "contains placement ''auto''"
  shows "computeAutoPlacement b placement refRect popper reference Window padding = Some (with_variation ''top'' (variation_of placement))"
proof -
  have no: "side_of bd ''width'' = NoLen" "side_of bd ''height'' = NoLen"
    using bd html by (auto simp: getBoundaries_def boundaries_node_def bind_eq_Some_conv pad_def Let_def side_of_def [of Map.empty])
  then have area: "getArea (snd r) = NoLen" "\<not> fits b popper r" if "r \<in> set (free_rects bd refRect)" for r
    using that by (auto simp: free_rects_def getArea_def fits_def)
  have "sort_by (\<lambda>x y. getArea (snd x) < getArea (snd y)) (free_rects bd refRect) = free_rects bd refRect"
    by (rule sort_by_none) (simp add: area)
  then have "pick_side (free_rects bd refRect) (metric b popper ''clientWidth'') (metric b popper ''clientHeight'') = ''top''"
    using no by (simp add: pick_side_def Let_def) (simp add: free_rects_def)
  then show ?thesis using bd auto by (simp add: computeAutoPlacement_def)
qed

text \<open>
  A small page: \<open>html\<close> (1) of 1000 by 800, its \<open>body\<close> (2), a reference (3) of 80 by 20 at (100, 100) and a popper (4) of
  50 by 40.
\<close>

definition demo_box :: "elem \<Rightarrow> rat \<times> rat \<times> rat \<times> rat" where
  "demo_box x = (if x = 3 then (100, 100, 80, 20) else if x = 4 then (0, 0, 50, 40) else (0, 0, 1000, 800))"

definition demo_metric :: "elem \<Rightarrow> string \<Rightarrow> len" where
  "demo_metric x k =
     (case demo_box x of (_, _, w, h) \<Rightarrow>
        if k \<in> {''clientWidth'', ''offsetWidth'', ''scrollWidth''} then Len w
        else if k \<in> {''clientHeight'', ''offsetHeight'', ''scrollHeight''} then Len h else Len 0)"

definition demo_native :: "elem \<Rightarrow> string \<Rightarrow> rat" where
  "demo_native x k =
     (case demo_box x of (l, t, w, h) \<Rightarrow>
        if k = ''left'' then l else if k = ''top'' then t else if k = ''right'' then l + w else if k = ''bottom'' then t + h
        else if k = ''width'' then w else h)"

definition demo_browser :: browser where
  "demo_browser =
     \<lparr>nodeName = (\<lambda>x. if x = 1 then ''HTML'' else if x = 2 then ''BODY'' else ''DIV''), nodeType = (\<lambda>_. 1),
      parentNode = (\<lambda>x. if x = 1 then None else if x = 2 then Some 1 else Some 2), host = (\<lambda>_. None),
      offsetParent = (\<lambda>x. if x = 1 \<or> x = 2 then None else Some 2), firstElementChild = (\<lambda>x. if x = 1 then Some 2 else if x = 2 then Some 3 else None),
      all_nodes = [1, 2, 3, 4], follows = (\<lambda>x y. x < y), documentElement = 1, document_body = 2, scrollingElement = Some 1,
      computed = (\<lambda>x k. if k = ''position'' then ''static'' else ''visible''), computed_px = (\<lambda>_ _. Len 0),
      metric = demo_metric, native_rect = demo_native, innerWidth = 1000, innerHeight = 800, appVersion = ''5.0'',
      knows_style = (\<lambda>k. k = ''transform''), querySelector = (\<lambda>_ _. None)\<rparr>"

declare getScrollParent.simps [code] getOffsetParent.simps [code] getRoot.simps [code] findCommonOffsetParent.simps [code] isFixed.simps [code]

definition demo_reference :: rect where
  "demo_reference = getClientRect [''left'' \<mapsto> Len 100, ''top'' \<mapsto> Len 100, ''width'' \<mapsto> Len 80, ''height'' \<mapsto> Len 20]"

lemma demo_viewport:
  "map_option (\<lambda>r. map (side_of r) [''left'', ''top'', ''right'', ''bottom'', ''width'', ''height'']) (getBoundaries demo_browser 4 3 5 Viewport)
     = Some [Len 5, Len 5, Len 995, Len 795, Len 1000, Len 800]"
  by code_simp

lemma demo_scrollParent:
  "map_option (\<lambda>r. map (side_of r) [''left'', ''top'', ''right'', ''bottom'']) (getBoundaries demo_browser 4 3 5 ScrollParent)
     = Some [Len 5, Len 5, Len 995, Len 795]"
  by code_simp

lemma demo_parents:
  "getParentNode demo_browser x = Some y \<Longrightarrow> \<not> is_root demo_browser x \<Longrightarrow> (if y = 1 then 0 else if y = 2 then 1 else 2) < (if x = 1 then 0 else if x = 2 then 1 else 2 :: nat)"
  by (auto simp: getParentNode_def is_root_def demo_browser_def split: if_splits)

theorem scroll_parent_nearest_witness: "getScrollParent demo_browser (Some 3) = Some 2"
  using scroll_parent_nearest [of demo_browser "\<lambda>x. if x = 1 then 0 else if x = 2 then 1 else 2" 3, OF demo_parents]
  by (simp, code_simp)

theorem auto_placement_largest_witness:
  "\<exists>bd. getBoundaries demo_browser 4 3 5 Viewport = Some bd \<and> (\<forall>r \<in> set (free_rects bd demo_reference). getArea (snd r) \<noteq> NoLen)
     \<and> (\<exists>r \<in> set (free_rects bd demo_reference).
          computeAutoPlacement demo_browser ''auto-start'' demo_reference 4 3 Viewport 5 = Some (with_variation (fst r) (Some ''start''))
          \<and> (\<forall>r' \<in> set (free_rects bd demo_reference). fits demo_browser 4 r' \<longrightarrow> getArea (snd r') \<le> getArea (snd r)))"
proof -
  obtain bd where bd: "getBoundaries demo_browser 4 3 5 Viewport = Some bd" 
    and s: "map (side_of bd) [''left'', ''top'', ''right'', ''bottom'', ''width'', ''height''] = [Len 5, Len 5, Len 995, Len 795, Len 1000, Len 800]"
    using demo_viewport by (cases "getBoundaries demo_browser 4 3 5 Viewport") simp_all
  have fin: "getArea (snd r) \<noteq> NoLen" if "r \<in> set (free_rects bd demo_reference)" for r
    using that s by (auto simp: free_rects_def demo_reference_def getArea_def)
  have auto: "contains ''auto-start'' ''auto''" and var: "variation_of ''auto-start'' = Some ''start''" by code_simp+
  show ?thesis
    using auto_placement_largest [of demo_browser 4 3 5 Viewport bd "''auto-start''" demo_reference, OF bd auto fin] bd fin
    unfolding var by blast
qed

end
