(* ===== verification/Popper_Offset.thy ===== *)
theory Popper_Offset
  imports Popper_Geometry
begin

section \<open>Popper: placements and offset texts\<close>

text \<open>
  Placements as texts, the offsets of a popper next to its reference, and the parser of the option
  \<open>offset\<close>, such as \<open>'10% - 5vh, -3px'\<close>, of \<open>bootstrap.bundle.js\<close>.
\<close>

subsection \<open>Placements\<close>

text \<open>The global replacement of each side by its opposite.\<close>

fun getOppositePlacement :: "string \<Rightarrow> string" where
  "getOppositePlacement [] = []"
| "getOppositePlacement (c # s) =
     (if startsWith (c # s) ''left'' then ''right'' @ getOppositePlacement (drop 3 s)
      else if startsWith (c # s) ''right'' then ''left'' @ getOppositePlacement (drop 4 s)
      else if startsWith (c # s) ''bottom'' then ''top'' @ getOppositePlacement (drop 5 s)
      else if startsWith (c # s) ''top'' then ''bottom'' @ getOppositePlacement (drop 2 s)
      else c # getOppositePlacement s)"

definition getOppositeVariation :: "string \<Rightarrow> string" where
  "getOppositeVariation variation =
     (if variation = ''end'' then ''start'' else if variation = ''start'' then ''end'' else variation)"

definition placements :: "string list" where
  "placements = [''auto-start'', ''auto'', ''auto-end'', ''top-start'', ''top'', ''top-end'', ''right-start'', ''right'', ''right-end'',
     ''bottom-end'', ''bottom'', ''bottom-start'', ''left-end'', ''left'', ''left-start'']"

definition validPlacements :: "string list" where
  "validPlacements = drop 3 placements"

text \<open>With an index of -1 the first slice is the whole list and the second all but the last.\<close>

definition clockwise :: "string \<Rightarrow> bool \<Rightarrow> string list" where
  "clockwise placement counter =
     (let index = indexOf validPlacements placement;
          arr = drop (nat (index + 1)) validPlacements
                @ (if index < 0 then butlast validPlacements else take (nat index) validPlacements)
      in if counter then rev arr else arr)"

definition getPopperOffsets :: "browser \<Rightarrow> elem \<Rightarrow> rect \<Rightarrow> string \<Rightarrow> rect" where
  "getPopperOffsets b popper referenceOffsets placement =
     (let placement = base_of placement;
          popperRect = getOuterSizes b popper;
          isHoriz = placement \<in> {''right'', ''left''};
          mainSide = (if isHoriz then ''top'' else ''left'');
          secondarySide = (if isHoriz then ''left'' else ''top'');
          measurement = (if isHoriz then ''height'' else ''width'');
          secondaryMeasurement = (if isHoriz then ''width'' else ''height'')
      in [''width'' \<mapsto> side_of popperRect ''width'', ''height'' \<mapsto> side_of popperRect ''height'',
          mainSide \<mapsto> side_of referenceOffsets mainSide + div_by (side_of referenceOffsets measurement) 2 - div_by (side_of popperRect measurement) 2,
          secondarySide \<mapsto>
            (if placement = secondarySide then side_of referenceOffsets secondarySide - side_of popperRect secondaryMeasurement
             else side_of referenceOffsets (getOppositePlacement secondarySide))])"

subsection \<open>Offset texts\<close>

text \<open>\<open>split(/(\\+|\\-)/)\<close>: the signs stay in the result.\<close>

fun split_signs :: "string \<Rightarrow> string list" where
  "split_signs [] = [[]]"
| "split_signs (c # s) =
     (if c \<in> {CHR ''+'', CHR ''-''} then [] # [c] # split_signs s
      else (case split_signs s of [] \<Rightarrow> [[c]] | w # ws \<Rightarrow> (c # w) # ws))"

definition is_sep :: "char \<Rightarrow> bool" where
  "is_sep c \<longleftrightarrow> c = CHR '','' \<or> is_space c"

text \<open>The first two pieces of \<open>split(/\\s*,\\s*|\\s+/)\<close>.\<close>

definition piece0 :: "string \<Rightarrow> string" where
  "piece0 s = takeWhile (\<lambda>c. \<not> is_sep c) s"

definition piece1 :: "string \<Rightarrow> string" where
  "piece1 s =
     (let t = dropWhile is_space (dropWhile (\<lambda>c. \<not> is_sep c) s);
          u = (if take 1 t = '','' then dropWhile is_space (drop 1 t) else t)
      in takeWhile (\<lambda>c. \<not> is_sep c) u)"

text \<open>The reduction that puts a sign after an empty text together with what follows it.\<close>

definition merge_step :: "string list \<times> bool \<Rightarrow> string \<Rightarrow> string list \<times> bool" where
  "merge_step st f =
     (let (a, mergeWithPrevious) = st
      in if a \<noteq> [] \<and> last a = [] \<and> f \<in> {''+'', ''-''} then (butlast a @ [f], True)
         else if mergeWithPrevious then (butlast a @ [last a @ f], False)
         else (a @ [f], mergeWithPrevious))"

definition merge_signs :: "string list \<Rightarrow> string list" where
  "merge_signs op = fst (foldl merge_step ([], False) op)"

text \<open>\<open>match(/((?:\\-|\\+)?\\d*\\.?\\d*)(.*)/)\<close>: the value and the unit.\<close>

definition value_unit :: "string \<Rightarrow> string \<times> string" where
  "value_unit s =
     (let sgn = (if take 1 s \<in> {''+'', ''-''} then take 1 s else []);
          r = drop (length sgn) s;
          whole = takeWhile is_digit r;
          r = dropWhile is_digit r;
          dot = (if take 1 r = ''.'' then ''.'' else []);
          r = drop (length dot) r;
          frac = takeWhile is_digit r
      in (sgn @ whole @ dot @ frac, dropWhile is_digit r))"

datatype frag = FNum len | FStr string

definition viewport_size :: "browser \<Rightarrow> string \<Rightarrow> len" where
  "viewport_size b unit =
     (if unit = ''vh'' then js_max (metric b (documentElement b) ''clientHeight'') (Len (innerHeight b))
      else js_max (metric b (documentElement b) ''clientWidth'') (Len (innerWidth b)))"

definition toValue :: "browser \<Rightarrow> string \<Rightarrow> string \<Rightarrow> rect \<Rightarrow> rect \<Rightarrow> frag" where
  "toValue b str measurement popperOffsets referenceOffsets =
     (let (txt, unit) = value_unit str
      in case to_number txt of
           Finite value \<Rightarrow>
             if value = 0 then FStr str
             else if take 1 unit = ''%''
             then FNum (div_by (side_of (getClientRect (if unit = ''%p'' then popperOffsets else referenceOffsets)) measurement) 100 * Len value)
             else if unit = ''vh'' \<or> unit = ''vw'' then FNum (div_by (viewport_size b unit) 100 * Len value)
             else FNum (Len value)
         | _ \<Rightarrow> FStr str)"

text \<open>\<open>isNumeric\<close> of a value and the number it then stands for.\<close>

fun numeric :: "frag \<Rightarrow> len" where
  "numeric (FNum v) = v"
| "numeric (FStr s) =
     (case to_number s of Finite q \<Rightarrow> if s \<noteq> [] \<and> \<not> parseFloat_isNaN s then Len q else NoLen | _ \<Rightarrow> NoLen)"

fun sum_frags :: "frag option \<Rightarrow> frag list \<Rightarrow> len \<Rightarrow> len" where
  "sum_frags prev [] acc = acc"
| "sum_frags prev (f # fs) acc =
     sum_frags (Some f) fs
       (if numeric f \<noteq> NoLen then acc + numeric f * Len (if prev = Some (FStr ''-'') then -1 else 1) else acc)"

definition find_divider :: "string list \<Rightarrow> nat option" where
  "find_divider fragments = first (filter (\<lambda>i. list_ex is_sep (fragments ! i)) [0..<length fragments])"

definition offset_ops :: "string list \<Rightarrow> string list list" where
  "offset_ops fragments =
     (case find_divider fragments of
        None \<Rightarrow> [fragments]
      | Some divider \<Rightarrow>
          [take divider fragments @ [piece0 (fragments ! divider)],
           [piece1 (fragments ! divider)] @ drop (divider + 1) fragments])"

definition parseOffset :: "browser \<Rightarrow> string \<Rightarrow> rect \<Rightarrow> rect \<Rightarrow> string \<Rightarrow> len \<times> len" where
  "parseOffset b offset popperOffsets referenceOffsets basePlacement =
     (let useHeight = basePlacement \<in> {''right'', ''left''};
          fragments = map trim (split_signs offset);
          total = (\<lambda>index op. sum_frags None
            (map (\<lambda>s. toValue b s (if (if index = (1 :: nat) then \<not> useHeight else useHeight) then ''height'' else ''width'')
                         popperOffsets referenceOffsets) (merge_signs op)) 0);
          ops = offset_ops fragments
      in (total 0 (hd ops), case ops of [_, op] \<Rightarrow> total 1 op | _ \<Rightarrow> 0))"

text \<open>The warning about a pair that is separated by white space.\<close>

definition offset_warns :: "string \<Rightarrow> bool" where
  "offset_warns offset =
     (let fragments = map trim (split_signs offset)
      in case find_divider fragments of None \<Rightarrow> False | Some i \<Rightarrow> CHR '','' \<notin> set (fragments ! i))"

subsection \<open>Reading printed offsets\<close>

lemma split_signs_plain: "set s \<inter> {CHR ''+'', CHR ''-''} = {} \<Longrightarrow> split_signs s = [s]"
  by (induction s) auto

lemma split_signs_sign:
  "set s \<inter> {CHR ''+'', CHR ''-''} = {} \<Longrightarrow> c \<in> {CHR ''+'', CHR ''-''} \<Longrightarrow> split_signs (s @ c # t) = s # [c] # split_signs t"
  by (induction s) auto

lemma digits_no_sign: "digits_text d \<Longrightarrow> set d \<inter> {CHR ''+'', CHR ''-''} = {}"
  using is_digit_plain by (fastforce simp: digits_text_def list_all_iff)

lemma digits_no_sep: "digits_text d \<Longrightarrow> c \<in> set d \<Longrightarrow> \<not> is_sep c"
  using is_digit_plain [of c] by (auto simp: digits_text_def list_all_iff is_sep_def)

lemma pieces_digits:
  assumes "digits_text d" "digits_text d'"
  shows "piece0 (d @ '','') = d" "piece1 (d @ '','') = []" "piece0 (d @ '', '' @ d') = d" "piece1 (d @ '', '' @ d') = d'"
proof -
  have sep: "is_sep (CHR '','')" "\<not> is_space (CHR '','')" "is_space (CHR '' '')" by code_simp+
  have d: "\<forall>c \<in> set d. \<not> is_sep c" "\<forall>c \<in> set d'. \<not> is_sep c" using assms digits_no_sep by auto
  have h: "dropWhile is_space d' = d'" using digits_text_ends [OF assms(2)] by (cases d') auto
  show "piece0 (d @ '','') = d" "piece1 (d @ '','') = []" "piece0 (d @ '', '' @ d') = d" "piece1 (d @ '', '' @ d') = d'"
    using d sep h by (simp_all add: piece0_def piece1_def Let_def takeWhile_append dropWhile_append)
qed

lemma value_unit_int_str: "value_unit (int_str x) = (int_str x, [])"
proof (cases "x < 0")
  case True
  then show ?thesis
    using digits_text_nat_str [of "nat (- x)"] by (simp add: value_unit_def int_str_def Let_def)
next
  case False
  note d = digits_text_nat_str [of "nat x"]
  show ?thesis
    using False d radix_prefix_digits(4,5) [OF d] by (simp add: value_unit_def int_str_def Let_def)
qed

lemma numeric_toValue: "numeric (toValue b (int_str x) k p r) = Len (of_int x)"
proof (cases "x = 0")
  case True
  have "numeric (FStr (int_str 0)) = Len 0" by code_simp
  then show ?thesis using True
    by (simp add: toValue_def value_unit_int_str to_number_int_str del: numeric.simps)
qed (simp add: toValue_def value_unit_int_str to_number_int_str)

lemma sum_single: "sum_frags None [toValue b (int_str x) k p r] 0 = Len (of_int x)"
  by (simp add: numeric_toValue zero_Len)

text \<open>What one number becomes before and after the comma.\<close>

definition signed_frags :: "int \<Rightarrow> string \<Rightarrow> string list" where
  "signed_frags x s = (if x < 0 then [[], ''-'', nat_str (nat (- x)) @ s] else [nat_str (nat x) @ s])"

lemma merge_signed: "merge_signs (signed_frags x []) = [int_str x]"
  by (simp add: merge_signs_def signed_frags_def merge_step_def int_str_def)

lemma trim_digits:
  assumes "digits_text d" "digits_text d'"
  shows "trim d = d" "trim (d @ '', '') = d @ '',''" "trim (d @ '', '' @ d') = d @ '', '' @ d'"
proof -
  have e: "\<not> is_space (CHR '','')" "is_space (CHR '' '')" by code_simp+
  have ne: "d \<noteq> []" "d' \<noteq> []" using assms by (simp_all add: digits_text_def)
  note ends = digits_text_ends [OF assms(1)] digits_text_ends [OF assms(2)]
  show "trim d = d" using ends by (intro trim_plain) simp
  show "trim (d @ '', '' @ d') = d @ '', '' @ d'" using ends ne by (intro trim_plain) simp
  have "trim (d @ '','') = d @ '',''" using ends ne e by (intro trim_plain) simp
  moreover have "trim (d @ '', '') = trim (d @ '','')" using ends(1) ne(1) e by (cases d) (simp_all add: trim_def)
  ultimately show "trim (d @ '', '') = d @ '',''" by simp
qed

lemma fragments_pair:
  "map trim (split_signs (int_str x @ '', '' @ int_str y)) =
     (if y < 0 then signed_frags x '','' @ [''-'', nat_str (nat (- y))] else signed_frags x ('', '' @ nat_str (nat y)))"
proof -
  let ?dx = "nat_str (nat \<bar>x\<bar>)" and ?dy = "nat_str (nat \<bar>y\<bar>)"
  note dx = digits_text_nat_str [of "nat \<bar>x\<bar>"] and dy = digits_text_nat_str [of "nat \<bar>y\<bar>"]
  have plain: "set (?dx @ '', '') \<inter> {CHR ''+'', CHR ''-''} = {}" "set (?dx @ '', '' @ ?dy) \<inter> {CHR ''+'', CHR ''-''} = {}"
    using digits_no_sign [OF dx] digits_no_sign [OF dy] by auto
  have rest: "map trim (split_signs (?dx @ '', '' @ int_str y)) =
    (if y < 0 then [?dx @ '','', ''-'', ?dy] else [?dx @ '', '' @ ?dy])"
  proof (cases "y < 0")
    case True
    have "split_signs (?dx @ '', '' @ CHR ''-'' # ?dy) = (?dx @ '', '') # ''-'' # [?dy]"
      using split_signs_sign [OF plain(1), of "CHR ''-''" ?dy] split_signs_plain [OF digits_no_sign [OF dy]] by simp
    moreover have "trim ''-'' = ''-''" by code_simp
    ultimately show ?thesis
      using True trim_digits [OF dx dy] trim_digits(1) [OF dy dy] by (simp add: int_str_def)
  next
    case False
    then show ?thesis
      using split_signs_plain [OF plain(2)] trim_digits(3) [OF dx dy] by (simp add: int_str_def)
  qed
  have "trim [] = []" "trim ''-'' = ''-''" by code_simp+
  then show ?thesis
  proof (cases "x < 0")
    case True
    then have "int_str x = CHR ''-'' # ?dx" by (simp add: int_str_def)
    then show ?thesis using True rest \<open>trim [] = []\<close> \<open>trim ''-'' = ''-''\<close> by (auto simp: signed_frags_def)
  next
    case False
    then have "int_str x = ?dx" by (simp add: int_str_def)
    then show ?thesis using False rest by (auto simp: signed_frags_def)
  qed
qed

lemma find_divider_Cons:
  "find_divider (f # fs) = (if list_ex is_sep f then Some 0 else map_option Suc (find_divider fs))"
proof -
  have "[0..<length (f # fs)] = 0 # map Suc [0..<length fs]"
    by (metis length_Cons map_Suc_upt upt_conv_Cons zero_less_Suc)
  moreover have "first (map g xs) = map_option g (first xs)" for g :: "nat \<Rightarrow> nat" and xs
    by (cases xs) (simp_all add: first_def)
  ultimately show ?thesis
    by (simp add: find_divider_def filter_map o_def first_def)
qed

lemma offset_ops_pair:
  "offset_ops (map trim (split_signs (int_str x @ '', '' @ int_str y))) = [signed_frags x [], signed_frags y []]"
proof -
  have sep: "list_ex is_sep '', ''" "list_ex is_sep '',''" "\<not> list_ex is_sep ''-''" by code_simp+
  have "list_ex is_sep (d @ '','')" "list_ex is_sep (d @ '', '' @ e)" for d e
    using sep by (simp_all add: list_ex_iff)
  then show ?thesis
    unfolding fragments_pair offset_ops_def signed_frags_def
    using pieces_digits [OF digits_text_nat_str digits_text_nat_str] sep
    by (simp add: find_divider_Cons)
qed

text \<open>
  C36: an offset text means the two numbers it shows. Whatever the placement and the sizes are, parsing two
  integers printed with a comma between them, signs included, gives these integers.
\<close>

theorem parse_offset_pair:
  "parseOffset b (int_str x @ '', '' @ int_str y) popperOffsets referenceOffsets basePlacement = (Len (of_int x), Len (of_int y))"
  unfolding parseOffset_def Let_def offset_ops_pair
  by (simp add: merge_signed sum_single del: sum_frags.simps)

end
