(* ===== verification/Popper_Modifiers.thy ===== *)
theory Popper_Modifiers
  imports Popper_Offset
begin

section \<open>Popper: the modifiers\<close>

text \<open>
  The modifiers that \<open>update\<close> runs one after the other in \<open>bootstrap.bundle.js\<close>: each takes the data object and
  gives it changed, or \<open>None\<close> when it throws. The page's inline styles and attributes are part of the data,
  because \<open>applyStyle\<close> writes them; \<open>look\<close> is the browser's layout for a page, so what a modifier measures
  depends on what was written before. The function of a modifier is the built-in one of its name. A
  style is kept by its parts: a text, a number, a number with the unit px, or a translation.
\<close>

subsection \<open>Pages and data\<close>

datatype style = SText string | SNum len | SPx len | STranslate len len

record popper_page =
  pg_style :: "elem \<Rightarrow> string \<Rightarrow> style option"
  pg_attr :: "elem \<Rightarrow> string \<Rightarrow> string option"
  pg_removed :: "elem list"

datatype attr_value = AText string | AFalse

datatype offset_option = ONum rat | OText string

datatype arrow_option = ASelector string | AElem elem

datatype behavior = FlipBehavior | Clockwise | Counterclockwise | Order "string list"

record modifier =
  m_name :: string
  m_order :: int
  m_enabled :: bool
  m_offset :: offset_option
  m_priority :: "string list"
  m_padding :: rat
  m_boundariesElement :: "boundary option"
  m_escapeWithReference :: bool
  m_element :: arrow_option
  m_behavior :: behavior
  m_flipVariations :: bool
  m_gpuAcceleration :: "bool option"
  m_x :: string
  m_y :: string

record popper_data =
  d_placement :: string
  d_originalPlacement :: string
  d_flipped :: bool
  d_hide :: "bool option"
  d_popper :: rect
  d_position :: string
  d_reference :: rect
  d_arrow :: "string \<Rightarrow> style option"
  d_arrowElement :: "elem option"
  d_styles :: "string \<Rightarrow> style option"
  d_arrowStyles :: "string \<Rightarrow> style option"
  d_attributes :: "string \<Rightarrow> attr_value option"
  d_boundaries :: "rect option"
  d_page :: popper_page
  d_warned :: "string list"

text \<open>The instance: its two elements, its modifiers in running order, and the browser.\<close>

record popper_instance =
  pi_popper :: elem
  pi_reference :: elem
  pi_modifiers :: "modifier list"
  pi_look :: "popper_page \<Rightarrow> browser"

definition view :: "popper_instance \<Rightarrow> popper_data \<Rightarrow> browser" where
  "view p d = pi_look p (d_page d)"

definition warn :: "string \<Rightarrow> popper_data \<Rightarrow> popper_data" where
  "warn s d = d\<lparr>d_warned := d_warned d @ [s]\<rparr>"

text \<open>The texts of the warnings.\<close>

definition gpu_warning :: string where
  "gpu_warning = ''WARNING: `gpuAcceleration` option moved to `computeStyle` modifier and will not be supported in future versions of Popper.js!''"

definition offset_warning :: string where
  "offset_warning = ''Offsets separated by white space(s) are deprecated, use a comma (,) instead.''"

definition arrow_warning :: string where
  "arrow_warning = ''WARNING: `arrow.element` must be child of its popper element!''"

definition required_warning :: "string \<Rightarrow> string \<Rightarrow> string" where
  "required_warning requestingName requestedName =
     ''`'' @ requestedName @ ''` modifier is required by `'' @ requestingName
       @ ''` modifier in order to work, be sure to include it before `'' @ requestingName @ ''`!''"

lemma warn_simps [simp]:
  "d_placement (warn s d) = d_placement d" "d_popper (warn s d) = d_popper d" "d_reference (warn s d) = d_reference d"
  "d_boundaries (warn s d) = d_boundaries d" "d_page (warn s d) = d_page d" "view p (warn s d) = view p d"
  by (simp_all add: warn_def view_def)

definition isModifierEnabled :: "modifier list \<Rightarrow> string \<Rightarrow> bool" where
  "isModifierEnabled modifiers name \<longleftrightarrow> list_ex (\<lambda>m. m_enabled m \<and> m_name m = name) modifiers"

definition find_modifier :: "modifier list \<Rightarrow> string \<Rightarrow> modifier option" where
  "find_modifier modifiers name = List.find (\<lambda>m. m_name m = name) modifiers"

definition isRequired :: "modifier list \<Rightarrow> string \<Rightarrow> string \<Rightarrow> bool" where
  "isRequired modifiers requestingName requestedName =
     (case find_modifier modifiers requestingName of
        None \<Rightarrow> False
      | Some requesting \<Rightarrow> list_ex (\<lambda>m. m_name m = requestedName \<and> m_enabled m \<and> m_order m < m_order requesting) modifiers)"

definition isModifierRequired :: "modifier list \<Rightarrow> string \<Rightarrow> string \<Rightarrow> popper_data \<Rightarrow> bool \<times> popper_data" where
  "isModifierRequired modifiers requestingName requestedName d =
     (let r = isRequired modifiers requestingName requestedName
      in (r, if r then d
             else warn (required_warning requestingName requestedName) d))"

subsection \<open>Shift, offset\<close>

definition shift :: "popper_data \<Rightarrow> popper_data" where
  "shift d =
     (case variation_of (d_placement d) of
        None \<Rightarrow> d
      | Some shiftvariation \<Rightarrow>
          if shiftvariation = [] then d
          else
            let isVertical = base_of (d_placement d) \<in> {''bottom'', ''top''};
                side = (if isVertical then ''left'' else ''top'');
                measurement = (if isVertical then ''width'' else ''height'');
                reference = d_reference d;
                popper = d_popper d;
                moved = (if shiftvariation = ''start'' then [side \<mapsto> side_of reference side]
                         else if shiftvariation = ''end''
                         then [side \<mapsto> side_of reference side + side_of reference measurement - side_of popper measurement]
                         else Map.empty)
            in d\<lparr>d_popper := popper ++ moved\<rparr>)"

definition offset_pair :: "browser \<Rightarrow> offset_option \<Rightarrow> rect \<Rightarrow> rect \<Rightarrow> string \<Rightarrow> len \<times> len" where
  "offset_pair b off popper reference basePlacement =
     (case off of
        ONum q \<Rightarrow> (Len q, 0)
      | OText s \<Rightarrow> (case to_number s of Finite q \<Rightarrow> (Len q, 0) | _ \<Rightarrow> parseOffset b s popper reference basePlacement))"

definition offset :: "popper_instance \<Rightarrow> modifier \<Rightarrow> popper_data \<Rightarrow> popper_data" where
  "offset p m d =
     (let basePlacement = base_of (d_placement d);
          popper = d_popper d;
          (o0, o1) = offset_pair (view p d) (m_offset m) popper (d_reference d) basePlacement;
          warned = (case m_offset m of
                      OText s \<Rightarrow> (case to_number s of Finite _ \<Rightarrow> False | _ \<Rightarrow> offset_warns s)
                    | _ \<Rightarrow> False);
          d = (if warned then warn offset_warning d else d)
      in d\<lparr>d_popper :=
           (if basePlacement = ''left'' then add_to ''left'' (- o1) (add_to ''top'' o0 popper)
            else if basePlacement = ''right'' then add_to ''left'' o1 (add_to ''top'' o0 popper)
            else if basePlacement = ''top'' then add_to ''top'' (- o1) (add_to ''left'' o0 popper)
            else if basePlacement = ''bottom'' then add_to ''top'' o1 (add_to ''left'' o0 popper)
            else popper)\<rparr>)"

subsection \<open>Staying inside the boundaries\<close>

text \<open>The checks read the sides of the popper as they were completed before; only left and top are written.\<close>

definition check_primary :: "bool \<Rightarrow> rect \<Rightarrow> string \<Rightarrow> rect \<Rightarrow> rect" where
  "check_primary escapeWithReference boundaries placement popper =
     popper(placement \<mapsto>
       (if side_of popper placement < side_of boundaries placement \<and> \<not> escapeWithReference
        then js_max (side_of popper placement) (side_of boundaries placement) else side_of popper placement))"

definition check_secondary :: "bool \<Rightarrow> rect \<Rightarrow> string \<Rightarrow> rect \<Rightarrow> rect" where
  "check_secondary escapeWithReference boundaries placement popper =
     (let mainSide = (if placement = ''right'' then ''left'' else ''top'')
      in popper(mainSide \<mapsto>
           (if side_of boundaries placement < side_of popper placement \<and> \<not> escapeWithReference
            then js_min (side_of popper mainSide)
                   (side_of boundaries placement - (if placement = ''right'' then side_of popper ''width'' else side_of popper ''height''))
            else side_of popper mainSide)))"

definition keep_inside :: "bool \<Rightarrow> rect \<Rightarrow> string list \<Rightarrow> rect \<Rightarrow> rect" where
  "keep_inside escapeWithReference boundaries order popper =
     fold (\<lambda>placement. if placement \<in> {''left'', ''top''} then check_primary escapeWithReference boundaries placement
                        else check_secondary escapeWithReference boundaries placement) order popper"

definition preventOverflow :: "popper_instance \<Rightarrow> modifier \<Rightarrow> popper_data \<Rightarrow> popper_data option" where
  "preventOverflow p m d =
     do {
       let b = view p d;
       boundariesElement \<leftarrow> (case m_boundariesElement m of
           Some e \<Rightarrow> Some e
         | None \<Rightarrow> map_option BoundaryElem (getOffsetParent b (Some (pi_popper p))));
       boundariesElement \<leftarrow> (if boundariesElement = BoundaryElem (pi_reference p)
         then map_option BoundaryElem (getOffsetParent b (Some (pi_reference p))) else Some boundariesElement);
       boundaries \<leftarrow> getBoundaries b (pi_popper p) (pi_reference p) (m_padding m) boundariesElement;
       Some (d\<lparr>d_boundaries := Some boundaries,
               d_popper := keep_inside (m_escapeWithReference m) boundaries (m_priority m) (d_popper d)\<rparr>)
     }"

subsection \<open>Keeping popper and reference together\<close>

definition keep_near :: "bool \<Rightarrow> rect \<Rightarrow> rect \<Rightarrow> rect" where
  "keep_near isVertical reference popper =
     (let side = (if isVertical then ''right'' else ''bottom'');
          opSide = (if isVertical then ''left'' else ''top'');
          measurement = (if isVertical then ''width'' else ''height'');
          popper = (if side_of popper side < js_floor (side_of reference opSide)
                    then popper(opSide \<mapsto> js_floor (side_of reference opSide) - side_of popper measurement) else popper)
      in if js_floor (side_of reference side) < side_of popper opSide
         then popper(opSide \<mapsto> js_floor (side_of reference side)) else popper)"

definition keepTogether :: "popper_data \<Rightarrow> popper_data" where
  "keepTogether d =
     d\<lparr>d_popper := keep_near (base_of (d_placement d) \<in> {''top'', ''bottom''}) (d_reference d) (d_popper d)\<rparr>"

subsection \<open>The arrow\<close>

definition arrow_element :: "popper_instance \<Rightarrow> modifier \<Rightarrow> popper_data \<Rightarrow> elem option \<times> popper_data" where
  "arrow_element p m d =
     (case m_element m of
        ASelector s \<Rightarrow> (querySelector (view p d) (pi_popper p) s, d)
      | AElem x \<Rightarrow>
          if node_contains (view p d) (pi_popper p) x then (Some x, d)
          else (None, warn arrow_warning d))"

text \<open>The popper moved so that it and the reference share enough pixels; the second test reads the old far side.\<close>

definition conjoin :: "string \<Rightarrow> string \<Rightarrow> len \<Rightarrow> rect \<Rightarrow> rect \<Rightarrow> rect" where
  "conjoin side opSide arrowElementSize reference popper =
     (let popper' = (if side_of reference opSide - arrowElementSize < side_of popper side
                     then popper(side \<mapsto> side_of popper side - (side_of popper side - (side_of reference opSide - arrowElementSize)))
                     else popper)
      in getClientRect
           (if side_of popper' opSide < side_of reference side + arrowElementSize
            then add_to side (side_of reference side + arrowElementSize - side_of popper' opSide) popper' else popper'))"

definition arrow_value :: "string \<Rightarrow> string \<Rightarrow> len \<Rightarrow> len \<Rightarrow> rect \<Rightarrow> rect \<Rightarrow> len" where
  "arrow_value side len arrowElementSize inset reference popper =
     (let center = side_of reference side + div_by (side_of reference len) 2 - div_by arrowElementSize 2;
          sideValue = center - side_of popper side - inset
      in js_round (js_max (js_min (side_of popper len - arrowElementSize) sideValue) 0))"

definition arrow :: "popper_instance \<Rightarrow> modifier \<Rightarrow> popper_data \<Rightarrow> popper_data" where
  "arrow p m d =
     (let (req, d) = isModifierRequired (pi_modifiers p) ''arrow'' ''keepTogether'' d
      in if \<not> req then d
         else
           let (el, d) = arrow_element p m d
           in case el of
                None \<Rightarrow> d
              | Some arrowElement \<Rightarrow>
                  let b = view p d;
                      isVertical = base_of (d_placement d) \<in> {''left'', ''right''};
                      len = (if isVertical then ''height'' else ''width'');
                      sideCapitalized = (if isVertical then ''Top'' else ''Left'');
                      side = (if isVertical then ''top'' else ''left'');
                      altSide = (if isVertical then ''left'' else ''top'');
                      opSide = (if isVertical then ''bottom'' else ''right'');
                      arrowElementSize = side_of (getOuterSizes b arrowElement) len;
                      popper = conjoin side opSide arrowElementSize (d_reference d) (d_popper d);
                      inset = style_px b (pi_popper p) (''margin'' @ sideCapitalized) + style_px b (pi_popper p) (''border'' @ sideCapitalized @ ''Width'')
                  in d\<lparr>d_popper := popper, d_arrowElement := Some arrowElement,
                       d_arrow := [side \<mapsto> SNum (arrow_value side len arrowElementSize inset (d_reference d) popper), altSide \<mapsto> SText []]\<rparr>)"

subsection \<open>Inner, hide\<close>

definition inner_placement :: "popper_data \<Rightarrow> popper_data" where
  "inner_placement d =
     (let basePlacement = base_of (d_placement d);
          popper = d_popper d;
          isHoriz = basePlacement \<in> {''left'', ''right''};
          subtractLength = basePlacement \<notin> {''top'', ''left''};
          side = (if isHoriz then ''left'' else ''top'');
          popper = popper(side \<mapsto> side_of (d_reference d) basePlacement
                     - (if subtractLength then side_of popper (if isHoriz then ''width'' else ''height'') else 0))
      in d\<lparr>d_placement := getOppositePlacement (d_placement d), d_popper := getClientRect popper\<rparr>)"

definition out_of :: "rect \<Rightarrow> rect \<Rightarrow> bool" where
  "out_of bound refRect \<longleftrightarrow>
     side_of refRect ''bottom'' < side_of bound ''top'' \<or> side_of bound ''right'' < side_of refRect ''left''
     \<or> side_of bound ''bottom'' < side_of refRect ''top'' \<or> side_of refRect ''right'' < side_of bound ''left''"

definition hide :: "popper_instance \<Rightarrow> popper_data \<Rightarrow> popper_data option" where
  "hide p d =
     (let (req, d) = isModifierRequired (pi_modifiers p) ''hide'' ''preventOverflow'' d
      in if \<not> req then Some d
         else case d_boundaries d of
                None \<Rightarrow> None
              | Some bound \<Rightarrow>
                  Some (let gone = out_of bound (d_reference d)
                        in if d_hide d = Some gone then d
                           else d\<lparr>d_hide := Some gone,
                                  d_attributes := (d_attributes d)(''x-out-of-boundaries'' \<mapsto> (if gone then AText [] else AFalse))\<rparr>))"

subsection \<open>Computing and applying the style\<close>

definition upper_first :: "string \<Rightarrow> string" where
  "upper_first s = (case s of [] \<Rightarrow> [] | c # r \<Rightarrow> (if 97 \<le> (of_char c :: nat) \<and> (of_char c :: nat) \<le> 122 then char_of ((of_char c :: nat) - 32) else c) # r)"

text \<open>The loop over the prefixes stops before the last one.\<close>

definition getSupportedPropertyName :: "browser \<Rightarrow> string \<Rightarrow> string option" where
  "getSupportedPropertyName b property =
     List.find (knows_style b)
       (map (\<lambda>prefix. case prefix of None \<Rightarrow> property | Some q \<Rightarrow> q @ upper_first property)
         (butlast [None, Some ''ms'', Some ''Webkit'', Some ''Moz'', Some ''O'']))"

definition computeStyle :: "popper_instance \<Rightarrow> modifier \<Rightarrow> popper_data \<Rightarrow> popper_data option" where
  "computeStyle p m d =
     do {
       legacy \<leftarrow> map_option m_gpuAcceleration (find_modifier (pi_modifiers p) ''applyStyle'');
       let d = (if legacy \<noteq> None
                then warn gpu_warning d
                else d);
       let gpuAcceleration = (if legacy \<noteq> None then legacy else m_gpuAcceleration m);
       let b = view p d;
       offsetPar \<leftarrow> getOffsetParent b (Some (pi_popper p));
       let offsetParentRect = getBoundingClientRect b offsetPar;
       let popper = d_popper d;
       let sideA = (if m_x m = ''bottom'' then ''top'' else ''bottom'');
       let sideB = (if m_y m = ''right'' then ''left'' else ''right'');
       let top = (if sideA = ''bottom'' then - side_of offsetParentRect ''height'' + js_floor (side_of popper ''bottom'') else js_floor (side_of popper ''top''));
       let left = (if sideB = ''right'' then - side_of offsetParentRect ''width'' + js_floor (side_of popper ''right'') else js_floor (side_of popper ''left''));
       let styles = (case (if gpuAcceleration = Some True then getSupportedPropertyName b ''transform'' else None) of
           Some prefixedProperty \<Rightarrow>
             [''position'' \<mapsto> SText (d_position d), prefixedProperty \<mapsto> STranslate left top,
              sideA \<mapsto> SNum 0, sideB \<mapsto> SNum 0, ''willChange'' \<mapsto> SText ''transform'']
         | None \<Rightarrow>
             [''position'' \<mapsto> SText (d_position d),
              sideA \<mapsto> SNum (if sideA = ''bottom'' then - top else top),
              sideB \<mapsto> SNum (if sideB = ''right'' then - left else left),
              ''willChange'' \<mapsto> SText (sideA @ '', '' @ sideB)]);
       Some (d\<lparr>d_attributes := [''x-placement'' \<mapsto> AText (d_placement d)] ++ d_attributes d,
               d_styles := styles ++ d_styles d,
               d_arrowStyles := d_arrow d ++ d_arrowStyles d\<rparr>)
     }"

text \<open>A value with its unit; a number that is NaN has none.\<close>

fun with_unit :: "string \<Rightarrow> style \<Rightarrow> style" where
  "with_unit prop (SNum (Len q)) =
     (if prop \<in> {''width'', ''height'', ''top'', ''right'', ''bottom'', ''left''} then SPx (Len q) else SNum (Len q))"
| "with_unit prop (SText s) =
     (if prop \<in> {''width'', ''height'', ''top'', ''right'', ''bottom'', ''left''} \<and> numeric (FStr s) \<noteq> NoLen then SText (s @ ''px'') else SText s)"
| "with_unit prop s = s"

definition setStyles :: "elem \<Rightarrow> (string \<Rightarrow> style option) \<Rightarrow> popper_page \<Rightarrow> popper_page" where
  "setStyles x styles g =
     g\<lparr>pg_style := (pg_style g)(x := \<lambda>prop. case styles prop of None \<Rightarrow> pg_style g x prop | Some v \<Rightarrow> Some (with_unit prop v))\<rparr>"

definition setAttributes :: "elem \<Rightarrow> (string \<Rightarrow> attr_value option) \<Rightarrow> popper_page \<Rightarrow> popper_page" where
  "setAttributes x attributes g =
     g\<lparr>pg_attr := (pg_attr g)(x := \<lambda>k. case attributes k of
         None \<Rightarrow> pg_attr g x k | Some (AText v) \<Rightarrow> Some v | Some AFalse \<Rightarrow> None)\<rparr>"

text \<open>The test for an empty object of arrow styles makes no difference: setting no styles changes nothing.\<close>

definition applyStyle :: "popper_instance \<Rightarrow> popper_data \<Rightarrow> popper_data" where
  "applyStyle p d =
     (let g = setAttributes (pi_popper p) (d_attributes d) (setStyles (pi_popper p) (d_styles d) (d_page d))
      in d\<lparr>d_page := (case d_arrowElement d of
           Some a \<Rightarrow> setStyles a (d_arrowStyles d) g
         | None \<Rightarrow> g)\<rparr>)"

subsection \<open>Running the modifiers\<close>

definition complete :: "popper_data \<Rightarrow> popper_data" where
  "complete d = d\<lparr>d_popper := getClientRect (d_popper d), d_reference := getClientRect (d_reference d)\<rparr>"

text \<open>The built-in functions by name; \<open>flip\<close> is given.\<close>

definition modifier_names :: "string list" where
  "modifier_names = [''shift'', ''offset'', ''preventOverflow'', ''keepTogether'', ''arrow'', ''flip'', ''inner'', ''hide'', ''computeStyle'', ''applyStyle'']"

definition call_modifier ::
  "(modifier \<Rightarrow> popper_data \<Rightarrow> popper_data option) \<Rightarrow> popper_instance \<Rightarrow> modifier \<Rightarrow> popper_data \<Rightarrow> popper_data option" where
  "call_modifier flip_fn p m d =
     (let n = m_name m
      in if n = ''shift'' then Some (shift d)
         else if n = ''offset'' then Some (offset p m d)
         else if n = ''preventOverflow'' then preventOverflow p m d
         else if n = ''keepTogether'' then Some (keepTogether d)
         else if n = ''arrow'' then Some (arrow p m d)
         else if n = ''flip'' then flip_fn m d
         else if n = ''inner'' then Some (inner_placement d)
         else if n = ''hide'' then hide p d
         else if n = ''computeStyle'' then computeStyle p m d
         else if n = ''applyStyle'' then Some (applyStyle p d)
         else Some d)"

definition run_modifier ::
  "(modifier \<Rightarrow> popper_data \<Rightarrow> popper_data option) \<Rightarrow> popper_instance \<Rightarrow> modifier \<Rightarrow> popper_data \<Rightarrow> popper_data option" where
  "run_modifier flip_fn p m d =
     (if m_enabled m \<and> m_name m \<in> set modifier_names then call_modifier flip_fn p m (complete d) else Some d)"

fun runModifiers ::
  "(modifier \<Rightarrow> popper_data \<Rightarrow> popper_data option) \<Rightarrow> popper_instance \<Rightarrow> modifier list \<Rightarrow> popper_data \<Rightarrow> popper_data option" where
  "runModifiers flip_fn p [] d = Some d"
| "runModifiers flip_fn p (m # ms) d = do { d \<leftarrow> run_modifier flip_fn p m d; runModifiers flip_fn p ms d }"

text \<open>\<open>modifiers.slice(0, findIndex(modifiers, 'name', ends))\<close>; an index of -1 leaves out the last.\<close>

definition modifiers_before :: "modifier list \<Rightarrow> string \<Rightarrow> modifier list" where
  "modifiers_before ms ends =
     (if ends \<in> m_name ` set ms then takeWhile (\<lambda>m. m_name m \<noteq> ends) ms else butlast ms)"

subsection \<open>Flipping\<close>

definition overlaps_reference :: "string \<Rightarrow> rect \<Rightarrow> rect \<Rightarrow> bool" where
  "overlaps_reference placement popper ref \<longleftrightarrow>
     placement = ''left'' \<and> js_floor (side_of ref ''left'') < js_floor (side_of popper ''right'')
     \<or> placement = ''right'' \<and> js_floor (side_of popper ''left'') < js_floor (side_of ref ''right'')
     \<or> placement = ''top'' \<and> js_floor (side_of ref ''top'') < js_floor (side_of popper ''bottom'')
     \<or> placement = ''bottom'' \<and> js_floor (side_of popper ''top'') < js_floor (side_of ref ''bottom'')"

definition overflows :: "string \<Rightarrow> rect \<Rightarrow> rect \<Rightarrow> bool" where
  "overflows side popper boundaries =
     (if side \<in> {''left'', ''top''} then js_floor (side_of popper side) < js_floor (side_of boundaries side)
      else if side \<in> {''right'', ''bottom''} then js_floor (side_of boundaries side) < js_floor (side_of popper side)
      else False)"

definition flips_variation :: "bool \<Rightarrow> string \<Rightarrow> string \<Rightarrow> rect \<Rightarrow> rect \<Rightarrow> bool" where
  "flips_variation flipVariations placement variation popper boundaries \<longleftrightarrow>
     flipVariations \<and>
     (let isVertical = placement \<in> {''top'', ''bottom''}
      in isVertical \<and> variation = ''start'' \<and> overflows ''left'' popper boundaries
         \<or> isVertical \<and> variation = ''end'' \<and> overflows ''right'' popper boundaries
         \<or> \<not> isVertical \<and> variation = ''start'' \<and> overflows ''top'' popper boundaries
         \<or> \<not> isVertical \<and> variation = ''end'' \<and> overflows ''bottom'' popper boundaries)"

definition flip_order :: "behavior \<Rightarrow> string \<Rightarrow> string list" where
  "flip_order bh placement =
     (case bh of
        FlipBehavior \<Rightarrow> [placement, getOppositePlacement placement]
      | Clockwise \<Rightarrow> clockwise placement False
      | Counterclockwise \<Rightarrow> clockwise placement True
      | Order ps \<Rightarrow> ps)"

text \<open>One round of the loop over the flip order, with the modifiers before \<open>flip\<close> run again after a change.\<close>

definition flip_round ::
  "popper_instance \<Rightarrow> modifier \<Rightarrow> rect \<Rightarrow> string \<Rightarrow> string \<times> popper_data \<Rightarrow> (string \<times> string \<times> popper_data) option" where
  "flip_round p m boundaries nxt st =
     (let (variation, d) = st;
          placement = base_of (d_placement d);
          popper = d_popper d;
          turn = overlaps_reference placement popper (d_reference d) \<or> overflows placement popper boundaries;
          flippedVariation = flips_variation (m_flipVariations m) placement variation popper boundaries
      in if turn \<or> flippedVariation
         then let placement = (if turn then nxt else placement);
                  variation = (if flippedVariation then getOppositeVariation variation else variation);
                  d = d\<lparr>d_flipped := True, d_placement := with_variation placement (Some variation)\<rparr>;
                  d = d\<lparr>d_popper := d_popper d ++ getPopperOffsets (view p d) (pi_popper p) (d_reference d) (d_placement d)\<rparr>
              in map_option (\<lambda>d. (placement, variation, d))
                   (runModifiers (\<lambda>_ _. None) p (modifiers_before (pi_modifiers p) ''flip'') d)
         else Some (placement, variation, d))"

fun flip_loop ::
  "popper_instance \<Rightarrow> modifier \<Rightarrow> rect \<Rightarrow> string list \<Rightarrow> string \<times> string \<times> popper_data \<Rightarrow> popper_data option" where
  "flip_loop p m boundaries [] (placement, variation, d) = Some d"
| "flip_loop p m boundaries (step # rest) (placement, variation, d) =
     (if placement \<noteq> step \<or> rest = [] then flip_loop p m boundaries rest (placement, variation, d)
      else do { st \<leftarrow> flip_round p m boundaries (hd rest) (variation, d); flip_loop p m boundaries rest st })"

definition flip :: "popper_instance \<Rightarrow> modifier \<Rightarrow> popper_data \<Rightarrow> popper_data option" where
  "flip p m d =
     (if isModifierEnabled (pi_modifiers p) ''inner'' then Some d
      else if d_flipped d \<and> d_placement d = d_originalPlacement d then Some d
      else do {
        boundariesElement \<leftarrow> m_boundariesElement m;
        boundaries \<leftarrow> getBoundaries (view p d) (pi_popper p) (pi_reference p) (m_padding m) boundariesElement;
        let placement = base_of (d_placement d);
        let variation = (case variation_of (d_placement d) of None \<Rightarrow> [] | Some v \<Rightarrow> v);
        flip_loop p m boundaries (flip_order (m_behavior m) placement) (placement, variation, d)
      })"

definition run_all :: "popper_instance \<Rightarrow> popper_data \<Rightarrow> popper_data option" where
  "run_all p d = runModifiers (flip p) p (pi_modifiers p) d"

subsection \<open>A popper that fits stays inside\<close>

text \<open>A completed rectangle with given place and size.\<close>

definition box :: "rect \<Rightarrow> rat \<Rightarrow> rat \<Rightarrow> rat \<Rightarrow> rat \<Rightarrow> bool" where
  "box r l t w h \<longleftrightarrow> side_of r ''left'' = Len l \<and> side_of r ''top'' = Len t \<and> side_of r ''width'' = Len w \<and> side_of r ''height'' = Len h
     \<and> side_of r ''right'' = Len (l + w) \<and> side_of r ''bottom'' = Len (t + h)"

definition bounds :: "rect \<Rightarrow> rat \<Rightarrow> rat \<Rightarrow> rat \<Rightarrow> rat \<Rightarrow> bool" where
  "bounds r l t rt bt \<longleftrightarrow> side_of r ''left'' = Len l \<and> side_of r ''top'' = Len t \<and> side_of r ''right'' = Len rt \<and> side_of r ''bottom'' = Len bt"

text \<open>Where one axis ends up, by which of its two checks have been made.\<close>

definition settle :: "rat \<Rightarrow> rat \<Rightarrow> rat \<Rightarrow> rat \<Rightarrow> bool \<Rightarrow> bool \<Rightarrow> rat" where
  "settle x w lo hi near far = (if x < lo then if near then lo else x else if hi < x + w then if far then hi - w else x else x)"

lemma settle_inside: "w \<le> hi - lo \<Longrightarrow> lo \<le> settle x w lo hi True True \<and> settle x w lo hi True True + w \<le> hi"
  by (simp add: settle_def)

lemma side_of_check_primary:
  "side_of (check_primary False bd s r) k =
     (if k = s then (if side_of r s < side_of bd s then js_max (side_of r s) (side_of bd s) else side_of r s) else side_of r k)"
  by (simp add: check_primary_def)

lemma side_of_check_secondary:
  "side_of (check_secondary False bd s r) k =
     (if k = (if s = ''right'' then ''left'' else ''top'')
      then (if side_of bd s < side_of r s
            then js_min (side_of r k) (side_of bd s - (if s = ''right'' then side_of r ''width'' else side_of r ''height'')) else side_of r k)
      else side_of r k)"
  by (simp add: check_secondary_def Let_def)

lemma settle_near:
  "w \<le> hi - lo \<Longrightarrow> settle x w lo hi True f = (if settle x w lo hi n f < lo then max (settle x w lo hi n f) lo else settle x w lo hi n f)"
  by (simp add: settle_def max_def)

lemma settle_far:
  "w \<le> hi - lo \<Longrightarrow> settle x w lo hi n True = (if hi < x + w then min (settle x w lo hi n f) (hi - w) else settle x w lo hi n f)"
  by (simp add: settle_def min_def)

lemma keep_inside_settles:
  assumes r: "box r l t w h" and bd: "bounds bd bl bt br bb" and fit: "w \<le> br - bl" "h \<le> bb - bt"
    and sides: "set order \<subseteq> {''left'', ''right'', ''top'', ''bottom''}"
  shows "side_of (keep_inside False bd order r) k =
     (if k = ''left'' then Len (settle l w bl br (''left'' \<in> set order) (''right'' \<in> set order))
      else if k = ''top'' then Len (settle t h bt bb (''top'' \<in> set order) (''bottom'' \<in> set order)) else side_of r k)"
  using sides
proof (induction order arbitrary: k rule: rev_induct)
  case Nil
  then show ?case using r by (auto simp: keep_inside_def settle_def box_def)
next
  case (snoc s order)
  let ?q = "keep_inside False bd order r"
  have step: "keep_inside False bd (order @ [s]) r =
    (if s \<in> {''left'', ''top''} then check_primary False bd s ?q else check_secondary False bd s ?q)"
    by (simp add: keep_inside_def)
  have q: "side_of ?q k =
     (if k = ''left'' then Len (settle l w bl br (''left'' \<in> set order) (''right'' \<in> set order))
      else if k = ''top'' then Len (settle t h bt bb (''top'' \<in> set order) (''bottom'' \<in> set order)) else side_of r k)" for k
    by (rule snoc.IH) (use snoc.prems in simp)
  note vals = r [unfolded box_def] bd [unfolded bounds_def]
  consider "s = ''left''" | "s = ''right''" | "s = ''top''" | "s = ''bottom''" using snoc.prems by auto
  then show ?case
  proof cases
    case 1
    then show ?thesis
      unfolding step using vals settle_near [OF fit(1), of l "''right'' \<in> set order" "''left'' \<in> set order"]
      by (simp add: side_of_check_primary q)
  next
    case 2
    then show ?thesis
      unfolding step using vals settle_far [OF fit(1), of l "''left'' \<in> set order" "''right'' \<in> set order"]
      by (simp add: side_of_check_secondary q)
  next
    case 3
    then show ?thesis
      unfolding step using vals settle_near [OF fit(2), of t "''bottom'' \<in> set order" "''top'' \<in> set order"]
      by (simp add: side_of_check_primary q)
  next
    case 4
    then show ?thesis
      unfolding step using vals settle_far [OF fit(2), of t "''top'' \<in> set order" "''bottom'' \<in> set order"]
      by (simp add: side_of_check_secondary q)
  qed
qed

text \<open>
  C32: a popper that fits into its boundaries ends up inside them. Whatever the order of the priorities is, as
  long as it names the four sides, and wherever the popper was, the modifier leaves its sizes alone and
  puts it between the left and right and between the top and bottom of the boundaries it computed.
\<close>

theorem prevent_overflow_contains:
  assumes "preventOverflow p m d = Some d'" "d_boundaries d' = Some bd" "\<not> m_escapeWithReference m"
    and "set (m_priority m) = {''left'', ''right'', ''top'', ''bottom''}"
    and r: "box (d_popper d) l t w h" and bd: "bounds bd bl bt br bb" and fit: "w \<le> br - bl" "h \<le> bb - bt"
  shows "\<exists>l' t'. box (getClientRect (d_popper d')) l' t' w h \<and> bl \<le> l' \<and> l' + w \<le> br \<and> bt \<le> t' \<and> t' + h \<le> bb"
proof -
  have d': "d_popper d' = keep_inside False bd (m_priority m) (d_popper d)"
    using assms(1-3) by (auto simp: preventOverflow_def bind_eq_Some_conv Let_def)
  have "side_of (d_popper d') k = (if k = ''left'' then Len (settle l w bl br True True)
      else if k = ''top'' then Len (settle t h bt bb True True) else side_of (d_popper d) k)" for k
    using keep_inside_settles [OF r bd fit, of "m_priority m" k] assms(4) by (simp add: d')
  then have "box (getClientRect (d_popper d')) (settle l w bl br True True) (settle t h bt bb True True) w h"
    using r by (simp add: box_def)
  with settle_inside [OF fit(1), of l] settle_inside [OF fit(2), of t] show ?thesis by blast
qed

text \<open>
  A popper that is too wide and sticks out to the left only is pushed to the right, past the right
  boundary: the check of the right side reads the side from before the push.
\<close>

lemma prevent_overflow_stale_right:
  assumes "box r l t w h" "bounds bd bl bt br bb" "l < bl" "l + w \<le> br" "br - bl < w"
  shows "side_of (keep_inside False bd [''left'', ''right'', ''top'', ''bottom''] r) ''left'' = Len bl \<and> br < bl + w"
  using assms by (simp add: keep_inside_def check_primary_def check_secondary_def box_def bounds_def Let_def)

subsection \<open>What the modifiers leave alone\<close>

text \<open>The part of the data that only \<open>flip\<close> and \<open>inner\<close> change.\<close>

definition course :: "popper_data \<Rightarrow> string \<times> string \<times> bool \<times> rect" where
  "course d = (d_placement d, d_originalPlacement d, d_flipped d, d_reference d)"

lemma course_upd [simp]:
  "course (d\<lparr>d_hide := h\<rparr>) = course d" "course (d\<lparr>d_popper := r\<rparr>) = course d" "course (d\<lparr>d_arrow := a\<rparr>) = course d"
  "course (d\<lparr>d_arrowElement := x\<rparr>) = course d" "course (d\<lparr>d_styles := a\<rparr>) = course d" "course (d\<lparr>d_arrowStyles := a\<rparr>) = course d"
  "course (d\<lparr>d_attributes := t\<rparr>) = course d" "course (d\<lparr>d_boundaries := y\<rparr>) = course d" "course (d\<lparr>d_page := g\<rparr>) = course d"
  "course (d\<lparr>d_warned := z\<rparr>) = course d"
  by (simp_all add: course_def)

lemma course_warn [simp]: "course (warn s d) = course d"
  by (simp add: warn_def)

lemma course_required: "course (snd (isModifierRequired ms a c d)) = course d"
  by (simp add: isModifierRequired_def Let_def)

lemma course_shift [simp]: "course (shift d) = course d"
  by (simp add: shift_def Let_def split: option.splits)

lemma course_offset [simp]: "course (offset p m d) = course d"
  by (simp add: offset_def Let_def split: prod.splits)

lemma course_keepTogether [simp]: "course (keepTogether d) = course d"
  by (simp add: keepTogether_def)

lemma course_preventOverflow: "preventOverflow p m d = Some d' \<Longrightarrow> course d' = course d"
  by (auto simp: preventOverflow_def bind_eq_Some_conv Let_def)

lemma course_arrow [simp]: "course (arrow p m d) = course d"
proof -
  obtain r d1 where 1: "isModifierRequired (pi_modifiers p) ''arrow'' ''keepTogether'' d = (r, d1)" by fastforce
  obtain el d2 where 2: "arrow_element p m d1 = (el, d2)" by fastforce
  have c1: "course d1 = course d" using course_required [of "pi_modifiers p" "''arrow''" "''keepTogether''" d] by (simp add: 1)
  have "course (snd (arrow_element p m d1)) = course d1" by (simp add: arrow_element_def split: arrow_option.splits)
  then have c2: "course d2 = course d1" by (simp add: 2)
  show ?thesis by (cases el) (simp_all add: arrow_def 1 2 c1 c2 Let_def)
qed

lemma course_hide: "hide p d = Some d' \<Longrightarrow> course d' = course d"
  using course_required [of "pi_modifiers p" "''hide''" "''preventOverflow''" d]
  by (auto simp: hide_def Let_def split: prod.splits option.splits if_splits)

lemma course_computeStyle: "computeStyle p m d = Some d' \<Longrightarrow> course d' = course d"
  by (auto simp: computeStyle_def bind_eq_Some_conv Let_def)

lemma course_applyStyle [simp]: "course (applyStyle p d) = course d"
  by (simp add: applyStyle_def Let_def)

lemmas course_simps = course_preventOverflow course_hide course_computeStyle

lemma call_modifier_course:
  "call_modifier f p m d = Some d' \<Longrightarrow> m_name m \<notin> {''flip'', ''inner''} \<Longrightarrow> course d' = course d"
  by (auto simp: call_modifier_def Let_def course_simps split: if_splits)

lemma getClientRect_idem [simp]: "getClientRect (getClientRect r) = getClientRect r"
  by (simp add: getClientRect_def fun_upd_twist)

lemma course_eq_iff:
  "course d' = course d \<longleftrightarrow> d_placement d' = d_placement d \<and> d_originalPlacement d' = d_originalPlacement d
     \<and> d_flipped d' = d_flipped d \<and> d_reference d' = d_reference d"
  by (simp add: course_def)

lemma run_modifier_course:
  assumes "run_modifier f p m d = Some d'" "m_enabled m \<longrightarrow> m_name m \<notin> {''flip'', ''inner''}"
  shows "d_placement d' = d_placement d \<and> d_originalPlacement d' = d_originalPlacement d \<and> d_flipped d' = d_flipped d
    \<and> getClientRect (d_reference d') = getClientRect (d_reference d)"
  using assms call_modifier_course [of f p m "complete d" d']
  by (auto simp: run_modifier_def course_eq_iff complete_def split: if_splits)

lemma runModifiers_course:
  assumes "runModifiers f p ms d = Some d'" "\<forall>m \<in> set ms. m_enabled m \<longrightarrow> m_name m \<notin> {''flip'', ''inner''}"
  shows "d_placement d' = d_placement d \<and> d_originalPlacement d' = d_originalPlacement d \<and> d_flipped d' = d_flipped d
    \<and> getClientRect (d_reference d') = getClientRect (d_reference d)"
  using assms
proof (induction ms arbitrary: d)
  case (Cons m ms)
  then obtain d1 where "run_modifier f p m d = Some d1" "runModifiers f p ms d1 = Some d'" by (auto simp: bind_eq_Some_conv)
  with Cons run_modifier_course [of f p m d d1] show ?case by simp
qed simp

lemma before_flip:
  assumes "\<not> isModifierEnabled ms ''inner''" "''flip'' \<in> m_name ` set ms" "m \<in> set (modifiers_before ms ''flip'')" "m_enabled m"
  shows "m_name m \<notin> {''flip'', ''inner''}"
  using assms by (auto simp: modifiers_before_def isModifierEnabled_def list_ex_iff dest: set_takeWhileD)

subsection \<open>Flipping\<close>

text \<open>
  C40: walking clockwise or counterclockwise never flips. The order of placements that these two behaviours
  compute leaves out the placement it starts from, and the loop only acts at the step that is the
  current placement, so the modifier returns its data unchanged however far the popper overflows.
\<close>

theorem clockwise_never_flips:
  assumes "m_behavior m \<in> {Clockwise, Counterclockwise}" "base_of (d_placement d) \<in> {''top'', ''right'', ''bottom'', ''left''}"
    and "m_boundariesElement m = Some e" "getBoundaries (view p d) (pi_popper p) (pi_reference p) (m_padding m) e = Some bd"
  shows "flip p m d = Some d"
proof -
  have skip: "flip_loop p m bd order (s, v, d) = Some d" if "s \<notin> set order" for order s v
    using that by (induction order) auto
  have "\<forall>s \<in> set [''top'', ''right'', ''bottom'', ''left'']. s \<notin> set (clockwise s False) \<and> s \<notin> set (clockwise s True)" by code_simp
  then have "base_of (d_placement d) \<notin> set (flip_order (m_behavior m) (base_of (d_placement d)))"
    using assms(1,2) by (auto simp: flip_order_def)
  then show ?thesis using assms(3,4) by (simp add: flip_def skip Let_def)
qed

text \<open>
  C34: the default behaviour flips at most once, to the opposite side, and exactly when it has to. If the modifier
  returns on data that were not flipped before, the new placement is the opposite side when the popper overlapped
  the reference or overflowed the boundaries on its side, and the old side otherwise; the variation
  changes to its opposite exactly when variations may flip and that edge overflowed; the data are marked
  as flipped exactly when one of the two happened.
\<close>

theorem flip_outcome:
  fixes d :: popper_data and bd :: rect and m :: modifier
  defines "s \<equiv> base_of (d_placement d)" and "v \<equiv> (case variation_of (d_placement d) of None \<Rightarrow> [] | Some v \<Rightarrow> v)"
  defines "turn \<equiv> overlaps_reference s (d_popper d) (d_reference d) \<or> overflows s (d_popper d) bd"
    and "vary \<equiv> flips_variation (m_flipVariations m) s v (d_popper d) bd"
  assumes "m_behavior m = FlipBehavior" "\<not> isModifierEnabled (pi_modifiers p) ''inner''" "''flip'' \<in> m_name ` set (pi_modifiers p)"
    and "\<not> d_flipped d" and "m_boundariesElement m = Some e" "getBoundaries (view p d) (pi_popper p) (pi_reference p) (m_padding m) e = Some bd"
    and "flip p m d = Some d'"
  shows "d_placement d' = (if turn \<or> vary
      then with_variation (if turn then getOppositePlacement s else s) (Some (if vary then getOppositeVariation v else v)) else d_placement d)
    \<and> d_flipped d' = (turn \<or> vary)"
proof -
  have flip: "flip p m d = flip_loop p m bd [s, getOppositePlacement s] (s, v, d)"
    using assms by (simp add: flip_def flip_order_def Let_def)
  have last: "flip_loop p m bd [x] st = Some (snd (snd st))" for x st by (cases st) simp
  have "flip_round p m bd (getOppositePlacement s) (v, d) \<bind> flip_loop p m bd [getOppositePlacement s] = Some d'"
    using flip assms(11) by simp
  then obtain q u where "flip_round p m bd (getOppositePlacement s) (v, d) = Some (q, u, d')"
    by (auto simp: bind_eq_Some_conv last simp del: flip_loop.simps)
  note round = this
  show ?thesis
  proof (cases "turn \<or> vary")
    case True
    let ?pl = "with_variation (if turn then getOppositePlacement s else s) (Some (if vary then getOppositeVariation v else v))"
    let ?d1 = "d\<lparr>d_flipped := True, d_placement := ?pl\<rparr>"
    let ?d2 = "?d1\<lparr>d_popper := d_popper ?d1 ++ getPopperOffsets (view p ?d1) (pi_popper p) (d_reference ?d1) (d_placement ?d1)\<rparr>"
    have "runModifiers (\<lambda>_ _. None) p (modifiers_before (pi_modifiers p) ''flip'') ?d2 = Some d'"
      using round True unfolding flip_round_def Let_def prod.case s_def [symmetric] turn_def [symmetric] vary_def [symmetric] by auto
    from runModifiers_course [OF this] before_flip [OF assms(6,7)] True show ?thesis by simp
  next
    case False
    then have "d' = d"
      using round unfolding flip_round_def Let_def prod.case s_def [symmetric] turn_def [symmetric] vary_def [symmetric] by simp
    with False assms(8) show ?thesis by simp
  qed
qed

subsection \<open>Popper and reference stay together\<close>

text \<open>
  On the axis along the side of the reference, neither rectangle lies, in whole pixels, beyond the other.
\<close>

definition no_gap :: "popper_data \<Rightarrow> bool" where
  "no_gap d =
     (let r = getClientRect (d_popper d); f = getClientRect (d_reference d);
          isVertical = base_of (d_placement d) \<in> {''top'', ''bottom''};
          side = (if isVertical then ''right'' else ''bottom''); opSide = (if isVertical then ''left'' else ''top'')
      in \<not> side_of r side < js_floor (side_of f opSide) \<and> \<not> js_floor (side_of f side) < side_of r opSide)"

definition sized :: "rect \<Rightarrow> bool" where
  "sized r \<longleftrightarrow> (\<exists>w h. side_of r ''width'' = Len w \<and> side_of r ''height'' = Len h \<and> 0 \<le> w \<and> 0 \<le> h)"

lemma sized_getClientRect [simp]: "sized (getClientRect r) = sized r"
  by (simp add: sized_def)

lemma keep_near_no_gap:
  assumes "sized r" "sized f" "d_popper d = keep_near (base_of (d_placement d) \<in> {''top'', ''bottom''}) (getClientRect f) (getClientRect r)"
    "d_reference d = getClientRect f"
  shows "no_gap d"
proof -
  obtain w h where r: "side_of r ''width'' = Len w" "side_of r ''height'' = Len h" "0 \<le> w" "0 \<le> h" using assms(1) by (auto simp: sized_def)
  obtain fw fh where f: "side_of f ''width'' = Len fw" "side_of f ''height'' = Len fh" "0 \<le> fw" "0 \<le> fh" using assms(2) by (auto simp: sized_def)
  have mono: "\<lfloor>a\<rfloor> \<le> \<lfloor>a + b\<rfloor>" if "0 \<le> b" for a b :: rat using that by (simp add: floor_mono)
  show ?thesis
  proof (cases "base_of (d_placement d) \<in> {''top'', ''bottom''}")
    case True
    then show ?thesis
      using mono [OF f(3)] r f
      by (cases "side_of f ''left''"; cases "side_of r ''left''")
         (auto simp: no_gap_def assms(3,4) keep_near_def Let_def not_less intro: order_trans add_increasing2)
  next
    case False
    then show ?thesis
      using mono [OF f(4)] r f
      by (cases "side_of f ''top''"; cases "side_of r ''top''")
         (auto simp: no_gap_def assms(3,4) keep_near_def Let_def not_less intro: order_trans add_increasing2)
  qed
qed

text \<open>
  An instance with the built-in modifiers in their order, whose measurements do not throw: the boundaries it
  asks for exist, the popper has sizes, \<open>keepTogether\<close> is on and \<open>inner\<close> is off, and there is no arrow.
\<close>

definition popper_ok :: "popper_instance \<Rightarrow> bool" where
  "popper_ok p \<longleftrightarrow>
     map m_name (pi_modifiers p) = modifier_names
     \<and> (\<forall>m \<in> set (pi_modifiers p).
          (m_name m = ''keepTogether'' \<longrightarrow> m_enabled m) \<and> (m_name m = ''inner'' \<longrightarrow> \<not> m_enabled m)
          \<and> (m_name m \<in> {''preventOverflow'', ''flip''} \<longrightarrow>
               (\<exists>e. m_boundariesElement m = Some e \<and> e \<noteq> BoundaryElem (pi_reference p)
                    \<and> (\<forall>g. getBoundaries (pi_look p g) (pi_popper p) (pi_reference p) (m_padding m) e \<noteq> None)))
          \<and> (m_name m = ''arrow'' \<longrightarrow> (\<exists>s. m_element m = ASelector s \<and> (\<forall>g. querySelector (pi_look p g) (pi_popper p) s = None))))
     \<and> (\<forall>g. sized (getOuterSizes (pi_look p g) (pi_popper p)) \<and> getOffsetParent (pi_look p g) (Some (pi_popper p)) \<noteq> None)"

definition bounded :: "popper_data \<Rightarrow> bool" where
  "bounded d \<longleftrightarrow> d_boundaries d \<noteq> None"

definition data_ok :: "popper_data \<Rightarrow> bool" where
  "data_ok d \<longleftrightarrow> sized (d_popper d) \<and> sized (d_reference d)"

lemma popper_okD:
  assumes "popper_ok p" "m \<in> set (pi_modifiers p)"
  shows "m_name m = ''keepTogether'' \<Longrightarrow> m_enabled m" "m_name m = ''inner'' \<Longrightarrow> \<not> m_enabled m"
    "m_name m \<in> {''preventOverflow'', ''flip''} \<Longrightarrow>
       \<exists>e. m_boundariesElement m = Some e \<and> e \<noteq> BoundaryElem (pi_reference p)
         \<and> (\<forall>g. getBoundaries (pi_look p g) (pi_popper p) (pi_reference p) (m_padding m) e \<noteq> None)"
    "m_name m = ''arrow'' \<Longrightarrow> \<exists>s. m_element m = ASelector s \<and> (\<forall>g. querySelector (pi_look p g) (pi_popper p) s = None)"
    "sized (getOuterSizes (pi_look p g) (pi_popper p))" "getOffsetParent (pi_look p g) (Some (pi_popper p)) \<noteq> None"
  using assms by (auto simp: popper_ok_def)

lemma sized_upd: "k \<notin> {''width'', ''height''} \<Longrightarrow> sized (r(k \<mapsto> v)) = sized r"
  by (auto simp: sized_def)

lemma sized_add_to: "k \<notin> {''width'', ''height''} \<Longrightarrow> sized (add_to k v r) = sized r"
  by (simp add: add_to_def sized_upd)

lemma sized_shift: "data_ok d \<Longrightarrow> data_ok (shift d)"
  by (auto simp: data_ok_def shift_def sized_upd map_add_upd [of _ Map.empty, simplified] Let_def split: option.splits)

lemma sized_offset: "data_ok d \<Longrightarrow> data_ok (offset p m d)"
  by (auto simp: data_ok_def offset_def sized_add_to warn_def Let_def split: prod.splits)

lemma sized_keep_inside: "sized r \<Longrightarrow> sized (keep_inside e bd order r)"
  unfolding keep_inside_def
  by (rule fold_keeps [where P = sized]) (auto simp: check_primary_def check_secondary_def sized_upd Let_def)

lemma sized_keep_near: "sized r \<Longrightarrow> sized (keep_near v f r)"
  by (simp add: keep_near_def sized_upd Let_def)

lemma sized_getPopperOffsets:
  "sized (getOuterSizes b x) \<Longrightarrow> sized (r ++ getPopperOffsets b x f pl)"
  by (simp add: sized_def getPopperOffsets_def Let_def)

text \<open>What one modifier other than \<open>flip\<close> does to data in order.\<close>

lemma boundaries_exist:
  assumes "popper_ok p" "m \<in> set (pi_modifiers p)" "m_name m \<in> {''preventOverflow'', ''flip''}"
  obtains e bd where "m_boundariesElement m = Some e" "e \<noteq> BoundaryElem (pi_reference p)"
    "getBoundaries (view p d) (pi_popper p) (pi_reference p) (m_padding m) e = Some bd"
proof -
  obtain e where e: "m_boundariesElement m = Some e" "e \<noteq> BoundaryElem (pi_reference p)"
    "\<forall>g. getBoundaries (pi_look p g) (pi_popper p) (pi_reference p) (m_padding m) e \<noteq> None"
    using popper_okD(3) [OF assms] by blast
  then obtain bd where "getBoundaries (view p d) (pi_popper p) (pi_reference p) (m_padding m) e = Some bd"
    unfolding view_def by blast
  with e that show thesis by blast
qed

lemma preventOverflow_ok:
  assumes "popper_ok p" "m \<in> set (pi_modifiers p)" "m_name m = ''preventOverflow''" "data_ok d"
  shows "\<exists>d'. preventOverflow p m d = Some d' \<and> data_ok d' \<and> bounded d'"
proof -
  have "m_name m \<in> {''preventOverflow'', ''flip''}" using assms(3) by simp
  from boundaries_exist [OF assms(1,2) this, of d] obtain e bd where e: "m_boundariesElement m = Some e" "e \<noteq> BoundaryElem (pi_reference p)"
    "getBoundaries (view p d) (pi_popper p) (pi_reference p) (m_padding m) e = Some bd" by metis
  then show ?thesis using assms(4) by (simp add: preventOverflow_def data_ok_def bounded_def sized_keep_inside Let_def)
qed

lemma arrow_none:
  assumes "popper_ok p" "m \<in> set (pi_modifiers p)" "m_name m = ''arrow''"
  shows "d_popper (arrow p m d) = d_popper d \<and> d_boundaries (arrow p m d) = d_boundaries d"
  using popper_okD(4) [OF assms]
  by (auto simp: arrow_def isModifierRequired_def arrow_element_def view_def warn_def Let_def)

lemma hide_ok:
  assumes "bounded d \<or> \<not> isRequired (pi_modifiers p) ''hide'' ''preventOverflow''"
  shows "\<exists>d'. hide p d = Some d' \<and> d_popper d' = d_popper d \<and> d_boundaries d' = d_boundaries d"
  using assms by (auto simp: hide_def isModifierRequired_def bounded_def warn_def Let_def)

lemma popper_ok_names: "popper_ok p \<Longrightarrow> m_name ` set (pi_modifiers p) = set modifier_names"
  unfolding popper_ok_def by (metis list.set_map)

lemma computeStyle_ok:
  assumes "popper_ok p"
  shows "\<exists>d'. computeStyle p m d = Some d' \<and> d_popper d' = d_popper d \<and> d_boundaries d' = d_boundaries d"
proof -
  have "''applyStyle'' \<in> m_name ` set (pi_modifiers p)"
    using popper_ok_names [OF assms] by (simp add: modifier_names_def)
  then obtain a where a: "find_modifier (pi_modifiers p) ''applyStyle'' = Some a"
    by (cases "find_modifier (pi_modifiers p) ''applyStyle''") (auto simp: find_modifier_def find_None_iff)
  obtain x where x: "getOffsetParent (view p d) (Some (pi_popper p)) = Some x"
    using assms unfolding popper_ok_def view_def by blast
  have w: "view p (if c then warn s d else d) = view p d" "d_popper (if c then warn s d else d) = d_popper d"
    "d_boundaries (if c then warn s d else d) = d_boundaries d" for c s by simp_all
  show ?thesis
    unfolding computeStyle_def a Let_def option.map bind.bind_lunit w x by (simp add: w)
qed

lemma no_gap_cong:
  "getClientRect (d_popper d') = getClientRect (d_popper d) \<Longrightarrow> getClientRect (d_reference d') = getClientRect (d_reference d)
     \<Longrightarrow> d_placement d' = d_placement d \<Longrightarrow> no_gap d' = no_gap d"
  by (simp add: no_gap_def)

lemma complete_simps [simp]:
  "data_ok (complete d) = data_ok d" "bounded (complete d) = bounded d" "no_gap (complete d) = no_gap d"
  "d_popper (complete d) = getClientRect (d_popper d)" "d_reference (complete d) = getClientRect (d_reference d)"
  "d_placement (complete d) = d_placement d" "d_flipped (complete d) = d_flipped d"
  by (simp_all add: complete_def data_ok_def bounded_def no_gap_def)

lemma still_step:
  assumes "course d' = course d" "d_popper d' = d_popper d" "d_boundaries d' = d_boundaries d"
  shows "data_ok d' = data_ok d" "bounded d' = bounded d" "no_gap d' = no_gap d"
  using assms no_gap_cong [of d' d] by (simp_all add: data_ok_def bounded_def course_eq_iff)

lemma data_ok_course: "course d' = course d \<Longrightarrow> sized (d_popper d') \<Longrightarrow> data_ok d \<Longrightarrow> data_ok d'"
  by (simp add: data_ok_def course_eq_iff)

definition step_result :: "modifier \<Rightarrow> popper_data \<Rightarrow> popper_data \<Rightarrow> bool" where
  "step_result m d d' \<longleftrightarrow> data_ok d' \<and> (bounded d \<longrightarrow> bounded d') \<and> (m_name m = ''preventOverflow'' \<longrightarrow> bounded d')
     \<and> (m_name m = ''keepTogether'' \<longrightarrow> no_gap d') \<and> (m_name m \<in> {''arrow'', ''inner'', ''hide'', ''computeStyle'', ''applyStyle''} \<longrightarrow> no_gap d \<longrightarrow> no_gap d')"

lemma call_ok:
  assumes ok: "popper_ok p" "m \<in> set (pi_modifiers p)" "m_name m \<notin> {''flip'', ''inner''}" and d: "data_ok d"
    and comp: "getClientRect (d_popper d) = d_popper d" "getClientRect (d_reference d) = d_reference d"
    and hide: "m_name m = ''hide'' \<Longrightarrow> bounded d \<or> \<not> isRequired (pi_modifiers p) ''hide'' ''preventOverflow''"
  shows "\<exists>d'. call_modifier f p m d = Some d' \<and> step_result m d d'"
proof -
  have "m_name m \<in> set modifier_names" using popper_ok_names [OF ok(1)] ok(2) by blast
  then consider "m_name m = ''shift''" | "m_name m = ''offset''" | "m_name m = ''preventOverflow''" | "m_name m = ''keepTogether''"
    | "m_name m = ''arrow''" | "m_name m = ''hide''" | "m_name m = ''computeStyle''" | "m_name m = ''applyStyle''"
    using ok(3) by (auto simp: modifier_names_def)
  then show ?thesis
  proof cases
    case 1
    have "d_boundaries (shift d) = d_boundaries d" by (simp add: shift_def Let_def split: option.splits)
    with 1 sized_shift [OF d] show ?thesis by (simp add: call_modifier_def step_result_def bounded_def)
  next
    case 2
    have "d_boundaries (offset p m d) = d_boundaries d" by (simp add: offset_def Let_def split: prod.splits)
    with 2 sized_offset [OF d, of p m] show ?thesis by (simp add: call_modifier_def step_result_def bounded_def)
  next
    case 3
    with preventOverflow_ok [OF ok(1,2) 3 d] show ?thesis by (auto simp: call_modifier_def step_result_def)
  next
    case 4
    have "no_gap (keepTogether d)"
      using d comp by (intro keep_near_no_gap [of "d_popper d" "d_reference d"]) (simp_all add: data_ok_def keepTogether_def)
    moreover have "data_ok (keepTogether d)" "bounded (keepTogether d) = bounded d"
      using d by (simp_all add: data_ok_def keepTogether_def sized_keep_near bounded_def)
    ultimately show ?thesis using 4 by (simp add: call_modifier_def step_result_def)
  next
    case 5
    from still_step [OF course_arrow] arrow_none [OF ok(1,2) 5, of d] d 5 show ?thesis
      by (simp add: call_modifier_def step_result_def)
  next
    case 6
    from hide_ok [OF hide [OF 6]] obtain d' where "hide p d = Some d'" "d_popper d' = d_popper d" "d_boundaries d' = d_boundaries d" by blast
    with still_step [OF course_hide] d 6 show ?thesis by (simp add: call_modifier_def step_result_def)
  next
    case 7
    from computeStyle_ok [OF ok(1)] obtain d' where "computeStyle p m d = Some d'" "d_popper d' = d_popper d" "d_boundaries d' = d_boundaries d" by blast
    with still_step [OF course_computeStyle] d 7 show ?thesis by (simp add: call_modifier_def step_result_def)
  next
    case 8
    have "d_popper (applyStyle p d) = d_popper d" "d_boundaries (applyStyle p d) = d_boundaries d" by (simp_all add: applyStyle_def Let_def)
    with still_step [OF course_applyStyle] d 8 show ?thesis by (simp add: call_modifier_def step_result_def)
  qed
qed

lemma run_ok:
  assumes ok: "popper_ok p" "m \<in> set (pi_modifiers p)" "m_name m \<noteq> ''flip''" and d: "data_ok d"
    and hide: "m_name m = ''hide'' \<Longrightarrow> bounded d \<or> \<not> isRequired (pi_modifiers p) ''hide'' ''preventOverflow''"
  shows "\<exists>d'. run_modifier f p m d = Some d' \<and> (if m_enabled m then step_result m (complete d) d' else d' = d)"
proof (cases "m_enabled m")
  case True
  then have "m_name m \<notin> {''flip'', ''inner''}" using ok popper_okD(2) [OF ok(1,2)] by auto
  moreover have "m_name m \<in> set modifier_names" using popper_ok_names [OF ok(1)] ok(2) by blast
  ultimately show ?thesis
    using True d hide call_ok [OF ok(1,2), of "complete d" f] by (simp add: run_modifier_def)
qed (simp add: run_modifier_def)

lemma popper_ok_list:
  assumes "popper_ok p"
  obtains m1 m2 m3 m4 m5 m6 m7 m8 m9 m10 where "pi_modifiers p = [m1, m2, m3, m4, m5, m6, m7, m8, m9, m10]"
    "m_name m1 = ''shift''" "m_name m2 = ''offset''" "m_name m3 = ''preventOverflow''" "m_name m4 = ''keepTogether''" "m_name m5 = ''arrow''"
    "m_name m6 = ''flip''" "m_name m7 = ''inner''" "m_name m8 = ''hide''" "m_name m9 = ''computeStyle''" "m_name m10 = ''applyStyle''"
proof -
  have "map m_name (pi_modifiers p) = modifier_names" using assms unfolding popper_ok_def by blast
  then show thesis using that unfolding modifier_names_def by (auto simp only: map_eq_Cons_conv map_is_Nil_conv)
qed

text \<open>The boundaries are there when \<open>hide\<close> needs them.\<close>

definition bounds_set :: "popper_instance \<Rightarrow> popper_data \<Rightarrow> bool" where
  "bounds_set p d \<longleftrightarrow> bounded d \<or> \<not> isModifierEnabled (pi_modifiers p) ''preventOverflow''"

lemma bounds_set_hide: "bounds_set p d \<Longrightarrow> bounded d \<or> \<not> isRequired (pi_modifiers p) ''hide'' ''preventOverflow''"
  by (auto simp: bounds_set_def isRequired_def isModifierEnabled_def list_ex_iff split: option.splits)

definition together :: "popper_instance \<Rightarrow> popper_data \<Rightarrow> bool" where
  "together p d \<longleftrightarrow> data_ok d \<and> bounds_set p d \<and> no_gap d"

lemma front_ok:
  assumes ok: "popper_ok p" and d: "data_ok d"
  shows "\<exists>d'. runModifiers f p (modifiers_before (pi_modifiers p) ''flip'') d = Some d' \<and> together p d'"
proof -
  obtain m1 m2 m3 m4 m5 m6 m7 m8 m9 m10 where ms: "pi_modifiers p = [m1, m2, m3, m4, m5, m6, m7, m8, m9, m10]"
    and n: "m_name m1 = ''shift''" "m_name m2 = ''offset''" "m_name m3 = ''preventOverflow''" "m_name m4 = ''keepTogether''" "m_name m5 = ''arrow''"
    "m_name m6 = ''flip''" "m_name m7 = ''inner''" "m_name m8 = ''hide''" "m_name m9 = ''computeStyle''" "m_name m10 = ''applyStyle''"
    using ok by (rule popper_ok_list)
  have front: "modifiers_before (pi_modifiers p) ''flip'' = [m1, m2, m3, m4, m5]" by (simp add: modifiers_before_def ms n)
  have en: "isModifierEnabled (pi_modifiers p) ''preventOverflow'' = m_enabled m3" by (simp add: isModifierEnabled_def ms n)
  obtain d1 where d1: "run_modifier f p m1 d = Some d1" "data_ok d1"
    using run_ok [OF ok, of m1 d f] d by (fastforce simp: ms n step_result_def split: if_splits)
  obtain d2 where d2: "run_modifier f p m2 d1 = Some d2" "data_ok d2"
    using run_ok [OF ok, of m2 d1 f] d1 by (fastforce simp: ms n step_result_def split: if_splits)
  obtain d3 where d3: "run_modifier f p m3 d2 = Some d3" "data_ok d3" "bounds_set p d3"
    using run_ok [OF ok, of m3 d2 f] d2 by (fastforce simp: ms n en [unfolded ms] bounds_set_def step_result_def split: if_splits)
  have "m_enabled m4" using popper_okD(1) [OF ok, of m4] by (simp add: ms n)
  then obtain d4 where d4: "run_modifier f p m4 d3 = Some d4" "together p d4"
    using run_ok [OF ok, of m4 d3 f] d3 by (fastforce simp: ms n bounds_set_def together_def step_result_def split: if_splits)
  obtain d5 where d5: "run_modifier f p m5 d4 = Some d5" "together p d5"
    using run_ok [OF ok, of m5 d4 f] d4 by (fastforce simp: ms n bounds_set_def together_def step_result_def split: if_splits)
  show ?thesis by (simp add: front d1 d2 d3 d4 d5)
qed

lemma flip_round_ok:
  assumes ok: "popper_ok p" and d: "together p d"
  shows "\<exists>q u d'. flip_round p m bd nxt (v, d) = Some (q, u, d') \<and> together p d'"
proof -
  define s where "s = base_of (d_placement d)"
  define turn where "turn \<longleftrightarrow> overlaps_reference s (d_popper d) (d_reference d) \<or> overflows s (d_popper d) bd"
  define vary where "vary \<longleftrightarrow> flips_variation (m_flipVariations m) s v (d_popper d) bd"
  show ?thesis
  proof (cases "turn \<or> vary")
    case True
    let ?pl = "with_variation (if turn then nxt else s) (Some (if vary then getOppositeVariation v else v))"
    let ?d1 = "d\<lparr>d_flipped := True, d_placement := ?pl\<rparr>"
    let ?d2 = "?d1\<lparr>d_popper := d_popper ?d1 ++ getPopperOffsets (view p ?d1) (pi_popper p) (d_reference ?d1) (d_placement ?d1)\<rparr>"
    have "sized (getOuterSizes (view p ?d1) (pi_popper p))" using ok by (simp add: popper_ok_def view_def)
    then have "data_ok ?d2" using d by (simp add: together_def data_ok_def sized_getPopperOffsets)
    from front_ok [OF ok this, of "\<lambda>_ _. None"] obtain d' where
      d': "runModifiers (\<lambda>_ _. None) p (modifiers_before (pi_modifiers p) ''flip'') ?d2 = Some d'" "together p d'" by blast
    have "flip_round p m bd nxt (v, d) = map_option (\<lambda>d. (if turn then nxt else s, if vary then getOppositeVariation v else v, d))
      (runModifiers (\<lambda>_ _. None) p (modifiers_before (pi_modifiers p) ''flip'') ?d2)"
      using True unfolding flip_round_def Let_def prod.case s_def [symmetric] turn_def [symmetric] vary_def [symmetric] by (simp only: if_True)
    with d' show ?thesis by simp
  next
    case False
    then have "flip_round p m bd nxt (v, d) = Some (s, v, d)"
      unfolding flip_round_def Let_def prod.case s_def [symmetric] turn_def [symmetric] vary_def [symmetric] by (simp only: if_False)
    with d show ?thesis by blast
  qed
qed

lemma flip_loop_ok:
  assumes ok: "popper_ok p"
  shows "together p d \<Longrightarrow> \<exists>d'. flip_loop p m bd order (q, v, d) = Some d' \<and> together p d'"
proof (induction order arbitrary: q v d)
  case (Cons s order)
  show ?case
  proof (cases "q \<noteq> s \<or> order = []")
    case False
    obtain q' v' d' where "flip_round p m bd (hd order) (v, d) = Some (q', v', d')" "together p d'"
      using flip_round_ok [OF ok Cons.prems] by blast
    with False Cons.IH [of d' q' v'] show ?thesis by simp
  qed (use Cons in auto)
qed simp

lemma flip_ok:
  assumes ok: "popper_ok p" "m \<in> set (pi_modifiers p)" "m_name m = ''flip''" and d: "together p d"
  shows "\<exists>d'. flip p m d = Some d' \<and> together p d'"
proof -
  have "m_name m \<in> {''preventOverflow'', ''flip''}" using ok(3) by simp
  from boundaries_exist [OF ok(1,2) this, of d] obtain e bd where "m_boundariesElement m = Some e"
    "getBoundaries (view p d) (pi_popper p) (pi_reference p) (m_padding m) e = Some bd" by metis
  with flip_loop_ok [OF ok(1) d] d show ?thesis by (simp add: flip_def Let_def)
qed

lemma run_append: "runModifiers f p (xs @ ys) d = runModifiers f p xs d \<bind> runModifiers f p ys"
proof (induction xs arbitrary: d)
  case (Cons m xs)
  then show ?case by (cases "run_modifier f p m d") simp_all
qed simp

lemma together_complete: "together p (complete d) = together p d"
  by (simp add: together_def bounds_set_def)

text \<open>
  A whole run of the modifiers succeeds and leaves no gap. For an instance with the built-in modifiers whose
  measurements exist, from data whose rectangles have sizes, all modifiers run to the end, through every
  flip, and then popper and reference touch or overlap along the side the popper ended up on.
\<close>

lemma run_keeps_together:
  assumes ok: "popper_ok p" and d: "data_ok d"
  shows "\<exists>d'. run_all p d = Some d' \<and> no_gap d'"
proof -
  obtain m1 m2 m3 m4 m5 m6 m7 m8 m9 m10 where ms: "pi_modifiers p = [m1, m2, m3, m4, m5, m6, m7, m8, m9, m10]"
    and n: "m_name m1 = ''shift''" "m_name m2 = ''offset''" "m_name m3 = ''preventOverflow''" "m_name m4 = ''keepTogether''" "m_name m5 = ''arrow''"
    "m_name m6 = ''flip''" "m_name m7 = ''inner''" "m_name m8 = ''hide''" "m_name m9 = ''computeStyle''" "m_name m10 = ''applyStyle''"
    using ok by (rule popper_ok_list)
  have split: "pi_modifiers p = modifiers_before (pi_modifiers p) ''flip'' @ [m6, m7, m8, m9, m10]"
    by (simp add: modifiers_before_def ms n)
  have step: "\<exists>d'. run_modifier (flip p) p m e = Some d' \<and> together p d'"
    if "m \<in> set (pi_modifiers p)" "m_name m \<in> {''inner'', ''hide'', ''computeStyle'', ''applyStyle''}" "together p e" for m e
    using run_ok [OF ok that(1), of e "flip p"] that bounds_set_hide [of p e]
    by (fastforce simp: together_def bounds_set_def step_result_def split: if_splits)
  obtain d5 where d5: "runModifiers (flip p) p (modifiers_before (pi_modifiers p) ''flip'') d = Some d5" "together p d5"
    using front_ok [OF ok d] by blast
  have "\<exists>d'. run_modifier (flip p) p m6 d5 = Some d' \<and> together p d'"
    using flip_ok [OF ok, of m6 "complete d5"] d5
    by (simp add: run_modifier_def call_modifier_def ms n modifier_names_def together_complete)
  then obtain d6 where d6: "run_modifier (flip p) p m6 d5 = Some d6" "together p d6" by blast
  obtain d7 where d7: "run_modifier (flip p) p m7 d6 = Some d7" "together p d7" using step [of m7 d6] d6 ms n by auto
  obtain d8 where d8: "run_modifier (flip p) p m8 d7 = Some d8" "together p d8" using step [of m8 d7] d7 ms n by auto
  obtain d9 where d9: "run_modifier (flip p) p m9 d8 = Some d9" "together p d9" using step [of m9 d8] d8 ms n by auto
  obtain d10 where d10: "run_modifier (flip p) p m10 d9 = Some d10" "together p d10" using step [of m10 d9] d9 ms n by auto
  have "run_all p d = Some d10"
    unfolding run_all_def by (subst split) (simp add: run_append d5 d6 d7 d8 d9 d10)
  with d10 show ?thesis by (auto simp: together_def)
qed

end
