(* ===== verification/Popper.thy ===== *)
theory Popper
  imports Popper_Modifiers
begin

section \<open>Popper: instances\<close>

text \<open>
  The class \<open>Popper\<close> of \<open>bootstrap.bundle.js\<close>: default options, construction, updates, event listeners and
  destruction. A world is one instance with the page, the browser's layout, the listeners it has registered,
  the update calls that are scheduled and the calls of its two callbacks. An operation that throws
  gives \<open>None\<close>; the state it leaves behind is not modelled.
\<close>

subsection \<open>Defaults\<close>

definition plain_modifier :: "string \<Rightarrow> int \<Rightarrow> bool \<Rightarrow> modifier" where
  "plain_modifier name order enabled =
     \<lparr>m_name = name, m_order = order, m_enabled = enabled, m_offset = ONum 0, m_priority = [], m_padding = 0, m_boundariesElement = None,
      m_escapeWithReference = False, m_element = ASelector [], m_behavior = FlipBehavior, m_flipVariations = False,
      m_gpuAcceleration = None, m_x = [], m_y = []\<rparr>"

definition shift_default :: modifier where
  "shift_default = plain_modifier ''shift'' 100 True"

definition offset_default :: modifier where
  "offset_default = (plain_modifier ''offset'' 200 True)\<lparr>m_offset := ONum 0\<rparr>"

definition preventOverflow_default :: modifier where
  "preventOverflow_default = (plain_modifier ''preventOverflow'' 300 True)
     \<lparr>m_priority := [''left'', ''right'', ''top'', ''bottom''], m_padding := 5, m_boundariesElement := Some ScrollParent\<rparr>"

definition keepTogether_default :: modifier where
  "keepTogether_default = plain_modifier ''keepTogether'' 400 True"

definition arrow_default :: modifier where
  "arrow_default = (plain_modifier ''arrow'' 500 True)\<lparr>m_element := ASelector ''[x-arrow]''\<rparr>"

definition flip_default :: modifier where
  "flip_default = (plain_modifier ''flip'' 600 True)\<lparr>m_behavior := FlipBehavior, m_padding := 5, m_boundariesElement := Some Viewport\<rparr>"

definition inner_default :: modifier where
  "inner_default = plain_modifier ''inner'' 700 False"

definition hide_default :: modifier where
  "hide_default = plain_modifier ''hide'' 800 True"

definition computeStyle_default :: modifier where
  "computeStyle_default = (plain_modifier ''computeStyle'' 850 True)\<lparr>m_gpuAcceleration := Some True, m_x := ''bottom'', m_y := ''right''\<rparr>"

definition applyStyle_default :: modifier where
  "applyStyle_default = plain_modifier ''applyStyle'' 900 True"

definition default_modifiers :: "modifier list" where
  "default_modifiers = [shift_default, offset_default, preventOverflow_default, keepTogether_default, arrow_default,
     flip_default, inner_default, hide_default, computeStyle_default, applyStyle_default]"

text \<open>The options; \<open>po_override\<close> writes what the caller gives for a modifier over its default.\<close>

record popper_options =
  po_placement :: string
  po_eventsEnabled :: bool
  po_removeOnDestroy :: bool
  po_override :: "string \<Rightarrow> modifier \<Rightarrow> modifier"

definition popper_Defaults :: popper_options where
  "popper_Defaults = \<lparr>po_placement = ''bottom'', po_eventsEnabled = True, po_removeOnDestroy = False, po_override = (\<lambda>_ m. m)\<rparr>"

definition merged_modifiers :: "popper_options \<Rightarrow> modifier list" where
  "merged_modifiers opts = sort_by (\<lambda>a b. m_order b < m_order a) (map (\<lambda>m. po_override opts (m_name m) m) default_modifiers)"

subsection \<open>Worlds\<close>

datatype target = TWindow | TElem elem

datatype popper_call = OnCreate popper_data | OnUpdate popper_data

record popper_world =
  pw_popper :: elem
  pw_reference :: elem
  pw_options :: popper_options
  pw_modifiers :: "modifier list"
  pw_look :: "popper_page \<Rightarrow> browser"
  pw_page :: popper_page
  pw_boundaries :: "rect option"
  isDestroyed :: bool
  isCreated :: bool
  eventsEnabled :: bool
  scrollParents :: "target list"
  scrollElement :: "elem option"
  listeners :: "(target \<times> string) list"
  called :: bool
  tasks :: nat
  frames :: nat
  calls :: "popper_call list"

definition instance_of :: "popper_world \<Rightarrow> popper_instance" where
  "instance_of w = \<lparr>pi_popper = pw_popper w, pi_reference = pw_reference w, pi_modifiers = pw_modifiers w, pi_look = pw_look w\<rparr>"

definition pw_view :: "popper_world \<Rightarrow> browser" where
  "pw_view w = pw_look w (pw_page w)"

text \<open>The automatic placement by the settings of the modifier \<open>flip\<close> among the merged options.\<close>

definition auto_placement :: "popper_world \<Rightarrow> rect \<Rightarrow> string option" where
  "auto_placement w refRect =
     do {
       m \<leftarrow> find_modifier (pw_modifiers w) ''flip'';
       (if \<not> contains (po_placement (pw_options w)) ''auto'' then Some (po_placement (pw_options w))
        else do {
          e \<leftarrow> m_boundariesElement m;
          computeAutoPlacement (pw_view w) (po_placement (pw_options w)) refRect (pw_popper w) (pw_reference w) e (m_padding m)
        })
     }"

subsection \<open>Updating\<close>

definition new_data :: "popper_world \<Rightarrow> popper_data option" where
  "new_data w =
     do {
       reference \<leftarrow> getReferenceOffsets (pw_view w) (pw_popper w) (pw_reference w);
       placement \<leftarrow> auto_placement w reference;
       Some \<lparr>d_placement = placement, d_originalPlacement = placement, d_flipped = False, d_hide = None,
             d_popper = getPopperOffsets (pw_view w) (pw_popper w) reference placement, d_position = ''absolute'',
             d_reference = reference, d_arrow = Map.empty, d_arrowElement = None, d_styles = Map.empty, d_arrowStyles = Map.empty,
             d_attributes = Map.empty, d_boundaries = pw_boundaries w, d_page = pw_page w, d_warned = []\<rparr>
     }"

definition update :: "popper_world \<Rightarrow> popper_world option" where
  "update w =
     (if isDestroyed w then Some w
      else do {
        d \<leftarrow> new_data w;
        d \<leftarrow> run_all (instance_of w) d;
        let w = w\<lparr>pw_page := d_page d, pw_boundaries := d_boundaries d\<rparr>;
        Some (if \<not> isCreated w then w\<lparr>isCreated := True, calls := calls w @ [OnCreate d]\<rparr>
              else w\<lparr>calls := calls w @ [OnUpdate d]\<rparr>)
      })"

text \<open>
  The method \<open>update\<close> of an instance is debounced: a call does nothing while an earlier one is waiting for its
  task. The task is a promise's job or a timer, by what the browser has.
\<close>

definition debounced_update :: "popper_world \<Rightarrow> popper_world" where
  "debounced_update w = (if called w then w else w\<lparr>called := True, tasks := Suc (tasks w)\<rparr>)"

definition run_task :: "popper_world \<Rightarrow> popper_world option" where
  "run_task w = (if tasks w = 0 then Some w else update (w\<lparr>tasks := tasks w - 1, called := False\<rparr>))"

definition scheduleUpdate :: "popper_world \<Rightarrow> popper_world" where
  "scheduleUpdate w = w\<lparr>frames := Suc (frames w)\<rparr>"

definition run_frame :: "popper_world \<Rightarrow> popper_world" where
  "run_frame w = (if frames w = 0 then w else debounced_update (w\<lparr>frames := frames w - 1\<rparr>))"

subsection \<open>Event listeners\<close>

partial_function (option) attachToScrollParents :: "browser \<Rightarrow> elem \<Rightarrow> target list option" where
  "attachToScrollParents b sp =
     (if nodeName b sp = ''BODY'' then Some [TWindow]
      else do {
        q \<leftarrow> getScrollParent b (parentNode b sp);
        ts \<leftarrow> attachToScrollParents b q;
        Some (ts @ [TElem sp])
      })"

definition addEventListener :: "target \<times> string \<Rightarrow> popper_world \<Rightarrow> popper_world" where
  "addEventListener l w = w\<lparr>listeners := List.insert l (listeners w)\<rparr>"

definition removeEventListener :: "target \<times> string \<Rightarrow> popper_world \<Rightarrow> popper_world" where
  "removeEventListener l w = w\<lparr>listeners := filter (\<lambda>k. k \<noteq> l) (listeners w)\<rparr>"

definition setupEventListeners :: "popper_world \<Rightarrow> popper_world option" where
  "setupEventListeners w =
     do {
       let w = addEventListener (TWindow, ''resize'') w;
       se \<leftarrow> getScrollParent (pw_view w) (Some (pw_reference w));
       ts \<leftarrow> attachToScrollParents (pw_view w) se;
       let w = fold (\<lambda>t. addEventListener (t, ''scroll'')) ts w;
       Some (w\<lparr>scrollParents := scrollParents w @ ts, scrollElement := Some se, eventsEnabled := True\<rparr>)
     }"

definition enableEventListeners :: "popper_world \<Rightarrow> popper_world option" where
  "enableEventListeners w = (if \<not> eventsEnabled w then setupEventListeners w else Some w)"

definition removeEventListeners :: "popper_world \<Rightarrow> popper_world" where
  "removeEventListeners w =
     (let w = removeEventListener (TWindow, ''resize'') w;
          w = fold (\<lambda>t. removeEventListener (t, ''scroll'')) (scrollParents w) w
      in w\<lparr>scrollParents := [], scrollElement := None, eventsEnabled := False\<rparr>)"

text \<open>\<open>cancelAnimationFrame\<close> is given the function, which is no handle of a request: it cancels nothing.\<close>

definition disableEventListeners :: "popper_world \<Rightarrow> popper_world" where
  "disableEventListeners w = (if eventsEnabled w then removeEventListeners w else w)"

subsection \<open>Destruction\<close>

definition clear_style :: "string \<Rightarrow> elem \<Rightarrow> popper_page \<Rightarrow> popper_page" where
  "clear_style k x g = g\<lparr>pg_style := (pg_style g)(x := (pg_style g x)(k := None))\<rparr>"

definition clear_popper :: "browser \<Rightarrow> elem \<Rightarrow> popper_page \<Rightarrow> popper_page" where
  "clear_popper b x g =
     (let g = g\<lparr>pg_attr := (pg_attr g)(x := (pg_attr g x)(''x-placement'' := None))\<rparr>;
          g = clear_style ''top'' x (clear_style ''position'' x (clear_style ''left'' x g))
      in case getSupportedPropertyName b ''transform'' of None \<Rightarrow> g | Some k \<Rightarrow> clear_style k x g)"

definition destroy :: "popper_world \<Rightarrow> popper_world option" where
  "destroy w =
     (let w = w\<lparr>isDestroyed := True\<rparr>;
          w = (if isModifierEnabled (pw_modifiers w) ''applyStyle''
               then w\<lparr>pw_page := clear_popper (pw_view w) (pw_popper w) (pw_page w)\<rparr> else w);
          w = disableEventListeners w
      in if po_removeOnDestroy (pw_options w)
         then if pw_popper w \<in> set (pg_removed (pw_page w)) then None
              else Some (w\<lparr>pw_page := (pw_page w)\<lparr>pg_removed := pw_popper w # pg_removed (pw_page w)\<rparr>\<rparr>)
         else Some w)"

subsection \<open>Construction\<close>

definition applyStyleOnLoad :: "popper_world \<Rightarrow> popper_world option" where
  "applyStyleOnLoad w =
     do {
       referenceOffsets \<leftarrow> getReferenceOffsets (pw_view w) (pw_popper w) (pw_reference w);
       placement \<leftarrow> auto_placement w referenceOffsets;
       Some (w\<lparr>pw_page := setStyles (pw_popper w) [''position'' \<mapsto> SText ''absolute'']
                 (setAttributes (pw_popper w) [''x-placement'' \<mapsto> AText placement] (pw_page w))\<rparr>)
     }"

definition new_Popper :: "elem \<Rightarrow> elem \<Rightarrow> popper_options \<Rightarrow> (popper_page \<Rightarrow> browser) \<Rightarrow> popper_page \<Rightarrow> popper_world option" where
  "new_Popper reference popper opts look g =
     do {
       let w = \<lparr>pw_popper = popper, pw_reference = reference, pw_options = opts, pw_modifiers = merged_modifiers opts, pw_look = look, pw_page = g,
                pw_boundaries = None, isDestroyed = False, isCreated = False, eventsEnabled = False, scrollParents = [], scrollElement = None,
                listeners = [], called = False, tasks = 0, frames = 0, calls = []\<rparr>;
       w \<leftarrow> (if isModifierEnabled (pw_modifiers w) ''applyStyle'' then applyStyleOnLoad w else Some w);
       let w = debounced_update w;
       w \<leftarrow> (if po_eventsEnabled opts then enableEventListeners w else Some w);
       Some (w\<lparr>eventsEnabled := po_eventsEnabled opts\<rparr>)
     }"

subsection \<open>Sequences of calls and browser moves\<close>

datatype popper_move =
    Update | ScheduleUpdate | RunTask | RunFrame | Fires target string | Enable | Disable | Destroy | Relayout "popper_page \<Rightarrow> browser"

fun popper_step :: "popper_move \<Rightarrow> popper_world \<Rightarrow> popper_world option" where
  "popper_step Update w = Some (debounced_update w)"
| "popper_step ScheduleUpdate w = Some (scheduleUpdate w)"
| "popper_step RunTask w = run_task w"
| "popper_step RunFrame w = Some (run_frame w)"
| "popper_step (Fires t ev) w = Some (if (t, ev) \<in> set (listeners w) then scheduleUpdate w else w)"
| "popper_step Enable w = enableEventListeners w"
| "popper_step Disable w = Some (disableEventListeners w)"
| "popper_step Destroy w = destroy w"
| "popper_step (Relayout look) w = Some (w\<lparr>pw_look := look\<rparr>)"

definition popper_steps :: "popper_move list \<Rightarrow> popper_world \<Rightarrow> popper_world option" where
  "popper_steps ms w = run_steps popper_step ms w"

subsection \<open>Listeners and callbacks\<close>

definition listeners_ok :: "popper_world \<Rightarrow> bool" where
  "listeners_ok w \<longleftrightarrow>
     set (listeners w) = (if eventsEnabled w then insert (TWindow, ''resize'') ((\<lambda>t. (t, ''scroll'')) ` set (scrollParents w)) else {})
     \<and> (\<not> eventsEnabled w \<longrightarrow> scrollParents w = [])"

definition calls_ok :: "popper_world \<Rightarrow> bool" where
  "calls_ok w \<longleftrightarrow> tasks w = (if called w then 1 else 0) \<and> (isCreated w \<longleftrightarrow> calls w \<noteq> [])
     \<and> (calls w = [] \<or> (\<exists>d ds. calls w = OnCreate d # map OnUpdate ds))"

lemma listeners_ok_cong:
  "listeners w' = listeners w \<Longrightarrow> eventsEnabled w' = eventsEnabled w \<Longrightarrow> scrollParents w' = scrollParents w \<Longrightarrow> listeners_ok w' = listeners_ok w"
  by (simp add: listeners_ok_def)

lemma calls_ok_cong:
  "tasks w' = tasks w \<Longrightarrow> called w' = called w \<Longrightarrow> isCreated w' = isCreated w \<Longrightarrow> calls w' = calls w \<Longrightarrow> calls_ok w' = calls_ok w"
  by (simp add: calls_ok_def)

lemma update_listeners: "update w = Some w' \<Longrightarrow> listeners w' = listeners w \<and> eventsEnabled w' = eventsEnabled w \<and> scrollParents w' = scrollParents w"
  by (auto simp: update_def bind_eq_Some_conv Let_def split: if_splits)

lemma update_calls:
  assumes "update w = Some w'" "calls_ok w"
  shows "calls_ok w'"
proof (cases "isDestroyed w")
  case False
  with assms obtain d0 d where "new_data w = Some d0" "run_all (instance_of w) d0 = Some d" by (auto simp: update_def bind_eq_Some_conv)
  with False assms have d: "tasks w' = tasks w" "called w' = called w" "isCreated w'"
    "calls w' = calls w @ [if isCreated w then OnUpdate d else OnCreate d]"
    by (cases "isCreated w"; simp add: update_def Let_def; force)+
  have "\<exists>e ds. calls w' = OnCreate e # map OnUpdate ds"
  proof (cases "isCreated w")
    case True
    then obtain e ds where "calls w = OnCreate e # map OnUpdate ds" using assms(2) by (auto simp: calls_ok_def)
    then have "calls w' = OnCreate e # map OnUpdate (ds @ [d])" using True d by simp
    then show ?thesis by blast
  next
    case False
    then have "calls w' = OnCreate d # map OnUpdate []" using assms(2) d by (simp add: calls_ok_def)
    then show ?thesis by blast
  qed
  then show ?thesis using d assms(2) by (auto simp: calls_ok_def)
qed (use assms in \<open>simp add: update_def\<close>)

lemma fold_listeners:
  "fold (\<lambda>t. addEventListener (t, e)) ts w = w\<lparr>listeners := fold (\<lambda>t. List.insert (t, e)) ts (listeners w)\<rparr>"
  "fold (\<lambda>t. removeEventListener (t, e)) ts w = w\<lparr>listeners := fold (\<lambda>t. filter (\<lambda>k. k \<noteq> (t, e))) ts (listeners w)\<rparr>"
  by (induction ts arbitrary: w) (simp_all add: addEventListener_def removeEventListener_def)

lemma set_fold_listeners:
  "set (fold (\<lambda>t. List.insert (t, e)) ts ls) = (\<lambda>t. (t, e)) ` set ts \<union> set ls"
  "set (fold (\<lambda>t. filter (\<lambda>k. k \<noteq> (t, e))) ts ls) = set ls - (\<lambda>t. (t, e)) ` set ts"
  by (induction ts arbitrary: ls) auto

lemma setup_frame:
  assumes "setupEventListeners w = Some w'"
  shows "tasks w' = tasks w \<and> called w' = called w \<and> isCreated w' = isCreated w \<and> calls w' = calls w
    \<and> isDestroyed w' = isDestroyed w \<and> pw_page w' = pw_page w"
  using assms by (auto simp: setupEventListeners_def fold_listeners addEventListener_def bind_eq_Some_conv Let_def)

lemma remove_frame:
  "tasks (removeEventListeners w) = tasks w" "called (removeEventListeners w) = called w" "isCreated (removeEventListeners w) = isCreated w"
  "calls (removeEventListeners w) = calls w" "isDestroyed (removeEventListeners w) = isDestroyed w" "pw_page (removeEventListeners w) = pw_page w"
  "eventsEnabled (removeEventListeners w) = False" "scrollParents (removeEventListeners w) = []"
  "set (listeners (removeEventListeners w)) = set (listeners w) - insert (TWindow, ''resize'') ((\<lambda>t. (t, ''scroll'')) ` set (scrollParents w))"
  by (auto simp: removeEventListeners_def fold_listeners removeEventListener_def set_fold_listeners Let_def)

lemma setup_listeners:
  assumes "setupEventListeners w = Some w'" "listeners_ok w" "\<not> eventsEnabled w"
  shows "listeners_ok w' \<and> eventsEnabled w'"
  using assms
  by (auto simp: setupEventListeners_def fold_listeners addEventListener_def set_fold_listeners listeners_ok_def bind_eq_Some_conv Let_def)

lemma disable_listeners: "listeners_ok w \<Longrightarrow> listeners_ok (disableEventListeners w) \<and> \<not> eventsEnabled (disableEventListeners w)"
proof (cases "eventsEnabled w")
  case True
  assume "listeners_ok w"
  with True have "set (listeners (removeEventListeners w)) = {}" unfolding remove_frame listeners_ok_def by simp
  then show ?thesis using True by (simp add: disableEventListeners_def listeners_ok_def remove_frame(7,8))
qed (simp add: disableEventListeners_def)

lemma disable_frame:
  "tasks (disableEventListeners w) = tasks w" "called (disableEventListeners w) = called w" "isCreated (disableEventListeners w) = isCreated w"
  "calls (disableEventListeners w) = calls w" "isDestroyed (disableEventListeners w) = isDestroyed w" "pw_page (disableEventListeners w) = pw_page w"
  by (simp_all add: disableEventListeners_def remove_frame)

lemma destroy_frame:
  assumes "destroy w = Some w'"
  shows "tasks w' = tasks w \<and> called w' = called w \<and> isCreated w' = isCreated w \<and> calls w' = calls w \<and> isDestroyed w'
    \<and> (listeners_ok w \<longrightarrow> listeners_ok w' \<and> \<not> eventsEnabled w')"
proof -
  define w0 where "w0 = w\<lparr>isDestroyed := True\<rparr>"
  define w1 where "w1 = (if isModifierEnabled (pw_modifiers w0) ''applyStyle''
    then w0\<lparr>pw_page := clear_popper (pw_view w0) (pw_popper w0) (pw_page w0)\<rparr> else w0)"
  have w1: "tasks w1 = tasks w" "called w1 = called w" "isCreated w1 = isCreated w" "calls w1 = calls w" "isDestroyed w1"
    "listeners_ok w1 = listeners_ok w"
    by (simp_all add: w1_def w0_def listeners_ok_def)
  define v where "v = disableEventListeners w1"
  have "destroy w = (if po_removeOnDestroy (pw_options v) then if pw_popper v \<in> set (pg_removed (pw_page v)) then None
      else Some (v\<lparr>pw_page := (pw_page v)\<lparr>pg_removed := pw_popper v # pg_removed (pw_page v)\<rparr>\<rparr>) else Some v)"
    unfolding destroy_def Let_def w0_def [symmetric] w1_def [symmetric] v_def ..
  with assms have "w' = v \<or> (\<exists>g. w' = v\<lparr>pw_page := g\<rparr>)" by (auto split: if_splits)
  moreover have "tasks v = tasks w \<and> called v = called w \<and> isCreated v = isCreated w \<and> calls v = calls w \<and> isDestroyed v
    \<and> (listeners_ok w \<longrightarrow> listeners_ok v \<and> \<not> eventsEnabled v)"
    using w1 disable_listeners [of w1] by (simp add: v_def disable_frame)
  ultimately show ?thesis using listeners_ok_cong [of w' v] by (elim disjE exE conjE) simp_all
qed

lemma step_listeners:
  assumes "listeners_ok w" "popper_step m w = Some w'"
  shows "listeners_ok w'"
proof (cases m)
  case RunTask
  then show ?thesis
  proof (cases "tasks w = 0")
    case False
    with RunTask assms have "update (w\<lparr>tasks := tasks w - 1, called := False\<rparr>) = Some w'" by (simp add: run_task_def)
    from update_listeners [OF this] assms(1) listeners_ok_cong [of w' w] show ?thesis by simp
  qed (use RunTask assms in \<open>simp add: run_task_def\<close>)
next
  case Enable
  with assms setup_listeners [of w w'] show ?thesis by (cases "eventsEnabled w") (auto simp: enableEventListeners_def)
next
  case Disable
  with assms disable_listeners [of w] show ?thesis by auto
next
  case Destroy
  with assms destroy_frame [of w w'] show ?thesis by simp
qed (use assms listeners_ok_cong [of w' w] in \<open>simp_all add: debounced_update_def scheduleUpdate_def run_frame_def split: if_splits\<close>, safe?, simp_all)

lemma step_calls:
  assumes "calls_ok w" "popper_step m w = Some w'"
  shows "calls_ok w'"
proof (cases m)
  case RunTask
  then show ?thesis
  proof (cases "tasks w = 0")
    case False
    with RunTask assms have u: "update (w\<lparr>tasks := tasks w - 1, called := False\<rparr>) = Some w'" by (simp add: run_task_def)
    have "calls_ok (w\<lparr>tasks := tasks w - 1, called := False\<rparr>)" using assms(1) by (simp add: calls_ok_def)
    from update_calls [OF u this] show ?thesis .
  qed (use RunTask assms in \<open>simp add: run_task_def\<close>)
next
  case Enable
  with assms setup_frame [of w w'] calls_ok_cong [of w' w] show ?thesis by (cases "eventsEnabled w") (auto simp: enableEventListeners_def)
next
  case Disable
  with assms calls_ok_cong [of w' w] show ?thesis by (auto simp: disable_frame)
next
  case Destroy
  with assms destroy_frame [of w w'] calls_ok_cong [of w' w] show ?thesis by simp
qed (use assms in \<open>auto simp: calls_ok_def debounced_update_def scheduleUpdate_def run_frame_def split: if_splits\<close>)

lemma step_destroyed:
  assumes "isDestroyed w \<and> calls w = cs \<and> pw_page w = g" "m \<noteq> Destroy" "popper_step m w = Some w'"
  shows "isDestroyed w' \<and> calls w' = cs \<and> pw_page w' = g"
proof (cases m)
  case RunTask
  with assms show ?thesis by (auto simp: run_task_def update_def split: if_splits)
next
  case Enable
  with assms setup_frame [of w w'] show ?thesis by (cases "eventsEnabled w") (auto simp: enableEventListeners_def)
next
  case Disable
  with assms show ?thesis by (auto simp: disable_frame)
qed (use assms in \<open>auto simp: debounced_update_def scheduleUpdate_def run_frame_def split: if_splits\<close>)

interpretation listening: step_invariant popper_step "\<lambda>_. True" listeners_ok
  by unfold_locales (rule step_listeners)

interpretation calling: step_invariant popper_step "\<lambda>_. True" calls_ok
  by unfold_locales (rule step_calls)

interpretation inert: step_invariant popper_step "\<lambda>m. m \<noteq> Destroy" "\<lambda>w. isDestroyed w \<and> calls w = cs \<and> pw_page w = g" for cs g
  by unfold_locales (rule step_destroyed)

lemma applyStyleOnLoad_page: "applyStyleOnLoad w = Some w' \<Longrightarrow> \<exists>h. w' = w\<lparr>pw_page := h\<rparr>"
  by (auto simp: applyStyleOnLoad_def bind_eq_Some_conv)

lemma new_Popper_ok:
  assumes "new_Popper reference popper opts look g = Some w"
  shows "listeners_ok w" "calls_ok w"
proof -
  define w0 where "w0 = \<lparr>pw_popper = popper, pw_reference = reference, pw_options = opts, pw_modifiers = merged_modifiers opts, pw_look = look, pw_page = g,
                pw_boundaries = None, isDestroyed = False, isCreated = False, eventsEnabled = False, scrollParents = [], scrollElement = None,
                listeners = [], called = False, tasks = 0, frames = 0, calls = []\<rparr>"
  obtain w1 where w1: "(if isModifierEnabled (pw_modifiers w0) ''applyStyle'' then applyStyleOnLoad w0 else Some w0) = Some w1"
    and w: "(if po_eventsEnabled opts then enableEventListeners (debounced_update w1) else Some (debounced_update w1)) \<bind>
      (\<lambda>w. Some (w\<lparr>eventsEnabled := po_eventsEnabled opts\<rparr>)) = Some w"
    using assms unfolding new_Popper_def Let_def w0_def [symmetric] by (auto simp only: bind_eq_Some_conv)
  have w0: "listeners_ok w0" "calls_ok w0" "\<not> eventsEnabled w0" by (simp_all add: w0_def listeners_ok_def calls_ok_def)
  have "w1 = w0 \<or> (\<exists>h. w1 = w0\<lparr>pw_page := h\<rparr>)"
    using w1 applyStyleOnLoad_page [of w0 w1] by (simp split: if_splits)
  then have f: "listeners w1 = listeners w0" "eventsEnabled w1 = eventsEnabled w0" "scrollParents w1 = scrollParents w0"
    "tasks w1 = tasks w0" "called w1 = called w0" "isCreated w1 = isCreated w0" "calls w1 = calls w0"
    by (elim disjE exE; hypsubst; simp)+
  have "listeners_ok w1" "calls_ok w1" "\<not> eventsEnabled w1"
    using w0 listeners_ok_cong [OF f(1-3)] calls_ok_cong [OF f(4-7)] f(2) by simp_all
  then have w2: "listeners_ok (debounced_update w1)" "calls_ok (debounced_update w1)" "\<not> eventsEnabled (debounced_update w1)"
    using step_listeners [of w1 Update] step_calls [of w1 Update] by (simp_all add: debounced_update_def)
  have "listeners_ok w \<and> calls_ok w"
  proof (cases "po_eventsEnabled opts")
    case True
    then obtain w3 where w3: "setupEventListeners (debounced_update w1) = Some w3" "w = w3\<lparr>eventsEnabled := True\<rparr>"
      using w w2(3) by (auto simp only: enableEventListeners_def bind_eq_Some_conv if_True not_False_eq_True)
    with setup_listeners [OF w3(1) w2(1,3)] setup_frame [OF w3(1)] w2(2) listeners_ok_cong [of w w3] calls_ok_cong [of w "debounced_update w1"]
    show ?thesis by simp
  next
    case False
    then have "w = (debounced_update w1)\<lparr>eventsEnabled := False\<rparr>" using w by simp
    with w2 listeners_ok_cong [of w "debounced_update w1"] calls_ok_cong [of w "debounced_update w1"] show ?thesis by simp
  qed
  then show "listeners_ok w" "calls_ok w" by simp_all
qed

text \<open>
  C33: the listeners of an instance are exactly the ones its state says. After the construction and any sequence
  of calls and browser moves that does not throw, an instance whose events are enabled listens to the
  window's resize and to the scrolling of each of its scroll parents and to nothing else, and one
  whose events are disabled listens to nothing.
\<close>

theorem popper_listeners:
  assumes "new_Popper reference popper opts look g = Some w0" "popper_steps ms w0 = Some w"
  shows "set (listeners w) = (if eventsEnabled w then insert (TWindow, ''resize'') ((\<lambda>t. (t, ''scroll'')) ` set (scrollParents w)) else {})"
proof -
  have "listeners_ok w"
    using listening.steps_keep [OF new_Popper_ok(1) [OF assms(1)]] assms(2) by (simp add: popper_steps_def list_all_iff)
  then show ?thesis by (simp only: listeners_ok_def)
qed

text \<open>
  C38: the callbacks come in order and updates do not pile up. After the construction and any sequence of
  calls and browser moves, at most one update is waiting for its task, and the callbacks so far are none, or
  one call of \<open>onCreate\<close> followed by calls of \<open>onUpdate\<close> only.
\<close>

theorem popper_callbacks:
  assumes "new_Popper reference popper opts look g = Some w0" "popper_steps ms w0 = Some w"
  shows "tasks w \<le> 1 \<and> (calls w = [] \<or> (\<exists>d ds. calls w = OnCreate d # map OnUpdate ds))"
proof -
  have "calls_ok w"
    using calling.steps_keep [OF new_Popper_ok(2) [OF assms(1)]] assms(2) by (simp add: popper_steps_def list_all_iff)
  then show ?thesis by (auto simp: calls_ok_def)
qed

text \<open>
  C39: a destroyed instance does nothing. Once \<open>destroy\<close> has returned, no sequence of further calls, events,
  frames and tasks other than another \<open>destroy\<close> writes to the page or calls a callback, whatever was scheduled
  before.
\<close>

theorem destroyed_inert:
  assumes "destroy w = Some w1" "Destroy \<notin> set ms" "popper_steps ms w1 = Some w2"
  shows "isDestroyed w2 \<and> calls w2 = calls w1 \<and> pw_page w2 = pw_page w1"
  using inert.steps_keep [of w1 "calls w1" "pw_page w1" ms w2] destroy_frame [OF assms(1)] assms(2,3)
  by (auto simp: popper_steps_def list_all_iff)

text \<open>A frame that was requested before the listeners were removed still asks for an update.\<close>

lemma disable_leaves_frame:
  "\<not> called w \<Longrightarrow> 0 < frames w \<Longrightarrow> tasks (run_frame (disableEventListeners w)) = Suc (tasks w)"
  by (simp add: run_frame_def debounced_update_def disableEventListeners_def removeEventListeners_def fold_listeners removeEventListener_def Let_def)

subsection \<open>What an update writes\<close>

text \<open>
  The styles, the page and the placement attribute change only in the last two modifiers; without an arrow,
  no arrow element is set.
\<close>

definition looks :: "popper_data \<Rightarrow> (string \<Rightarrow> style option) \<times> popper_page \<times> attr_value option \<times> elem option" where
  "looks d = (d_styles d, d_page d, d_attributes d ''x-placement'', d_arrowElement d)"

lemma looks_upd [simp]:
  "looks (d\<lparr>d_hide := h\<rparr>) = looks d" "looks (d\<lparr>d_popper := r\<rparr>) = looks d" "looks (d\<lparr>d_arrow := a\<rparr>) = looks d"
  "looks (d\<lparr>d_boundaries := y\<rparr>) = looks d" "looks (d\<lparr>d_warned := z\<rparr>) = looks d"
  "looks (d\<lparr>d_placement := s\<rparr>) = looks d" "looks (d\<lparr>d_flipped := b\<rparr>) = looks d" "looks (d\<lparr>d_reference := r\<rparr>) = looks d"
  "looks (d\<lparr>d_attributes := (d_attributes d)(''x-out-of-boundaries'' \<mapsto> v)\<rparr>) = looks d" "looks (warn t d) = looks d"
  by (simp_all add: looks_def warn_def)
















subsection \<open>A small page\<close>

definition demo_page :: popper_page where
  "demo_page = \<lparr>pg_style = (\<lambda>_ _. None), pg_attr = (\<lambda>_ _. None), pg_removed = []\<rparr>"

definition demo_world :: popper_world where
  "demo_world =
     \<lparr>pw_popper = 4, pw_reference = 3, pw_options = popper_Defaults, pw_modifiers = default_modifiers, pw_look = (\<lambda>_. demo_browser), pw_page = demo_page,
      pw_boundaries = None, isDestroyed = False, isCreated = False, eventsEnabled = False, scrollParents = [], scrollElement = None,
      listeners = [], called = False, tasks = 0, frames = 0, calls = []\<rparr>"

definition demo_data :: "string \<Rightarrow> rat \<Rightarrow> rat \<Rightarrow> popper_data" where
  "demo_data placement l t =
     \<lparr>d_placement = placement, d_originalPlacement = placement, d_flipped = False, d_hide = None,
      d_popper = getClientRect [''left'' \<mapsto> Len l, ''top'' \<mapsto> Len t, ''width'' \<mapsto> Len 50, ''height'' \<mapsto> Len 40], d_position = ''absolute'',
      d_reference = demo_reference, d_arrow = Map.empty, d_arrowElement = None, d_styles = Map.empty, d_arrowStyles = Map.empty,
      d_attributes = Map.empty, d_boundaries = None, d_page = demo_page, d_warned = []\<rparr>"

lemma demo_bounds:
  assumes "e \<in> {Viewport, ScrollParent}"
  obtains bd where "getBoundaries demo_browser 4 3 5 e = Some bd" "bounds bd 5 5 995 795"
proof -
  have "\<exists>bd. getBoundaries demo_browser 4 3 5 e = Some bd \<and> map (side_of bd) [''left'', ''top'', ''right'', ''bottom''] = [Len 5, Len 5, Len 995, Len 795]"
    using assms demo_viewport demo_scrollParent by auto
  then show ?thesis using that by (auto simp: bounds_def)
qed


lemmas demo_defaults = default_modifiers_def shift_default_def offset_default_def preventOverflow_default_def keepTogether_default_def arrow_default_def
  flip_default_def inner_default_def hide_default_def computeStyle_default_def applyStyle_default_def plain_modifier_def


lemma demo_prevents: "\<exists>d'. preventOverflow (instance_of demo_world) preventOverflow_default (demo_data ''bottom'' (-30) 120) = Some d' \<and> (\<exists>bd. d_boundaries d' = Some bd \<and> bounds bd 5 5 995 795)"
proof -
  obtain bd where bd: "getBoundaries demo_browser 4 3 5 ScrollParent = Some bd" "bounds bd 5 5 995 795" by (rule demo_bounds [of ScrollParent]) simp
  then show ?thesis
    by (simp add: preventOverflow_def instance_of_def demo_world_def demo_data_def demo_defaults view_def Let_def)
qed

theorem prevent_overflow_contains_witness:
  "\<exists>d' l t. preventOverflow (instance_of demo_world) preventOverflow_default (demo_data ''bottom'' (-30) 120) = Some d'
     \<and> box (getClientRect (d_popper d')) l t 50 40 \<and> 5 \<le> l \<and> l + 50 \<le> 995 \<and> 5 \<le> t \<and> t + 40 \<le> 795"
proof -
  obtain d' bd where d': "preventOverflow (instance_of demo_world) preventOverflow_default (demo_data ''bottom'' (-30) 120) = Some d'"
    "d_boundaries d' = Some bd" "bounds bd 5 5 995 795"
    using demo_prevents by blast
  have "box (d_popper (demo_data ''bottom'' (-30) 120)) (-30) 120 50 40" by (simp add: box_def demo_data_def side_of_def [of Map.empty])
  moreover have "\<not> m_escapeWithReference preventOverflow_default" "set (m_priority preventOverflow_default) = {''left'', ''right'', ''top'', ''bottom''}"
    by (simp_all add: demo_defaults)
  ultimately show ?thesis
    using prevent_overflow_contains [OF d'(1,2) _ _ _ d'(3), of "-30" 120 50 40] d'(1) by auto
qed

theorem clockwise_never_flips_witness:
  "flip (instance_of demo_world) (flip_default\<lparr>m_behavior := Clockwise\<rparr>) (demo_data ''top'' 100 (-500)) = Some (demo_data ''top'' 100 (-500))"
proof -
  obtain bd where bd: "getBoundaries demo_browser 4 3 5 Viewport = Some bd" by (rule demo_bounds [of Viewport]) simp
  have "base_of ''top'' = ''top''" by code_simp
  with bd show ?thesis
    by (intro clockwise_never_flips [of _ _ Viewport _ bd])
      (simp_all add: instance_of_def demo_world_def demo_data_def demo_defaults view_def)
qed

theorem flip_outcome_witness:
  "\<exists>d'. flip (instance_of demo_world) flip_default (demo_data ''top'' 100 (-500)) = Some d' \<and> d_placement d' = ''bottom'' \<and> d_flipped d'"
proof -
  let ?d = "demo_data ''top'' 100 (-500)"
  obtain bd where bd: "getBoundaries demo_browser 4 3 5 Viewport = Some bd" "bounds bd 5 5 995 795" by (rule demo_bounds [of Viewport]) simp
  have "flip (instance_of demo_world) flip_default ?d \<noteq> None" by code_simp
  then obtain d' where d': "flip (instance_of demo_world) flip_default ?d = Some d'" by blast
  have b: "base_of ''top'' = ''top''" "variation_of ''top'' = None" "getOppositePlacement ''top'' = ''bottom''" 
     "with_variation ''bottom'' (Some []) = ''bottom''" by code_simp+
  have o: "overflows ''top'' (d_popper ?d) bd" using bd(2) by (simp add: overflows_def bounds_def demo_data_def)
  have v: "\<not> flips_variation False ''top'' [] r bd" for r by (simp add: flips_variation_def)
  have pl: "d_placement ?d = ''top''" "m_flipVariations flip_default = False" by (simp_all add: demo_data_def demo_defaults)
  have "m_behavior flip_default = FlipBehavior" "\<not> isModifierEnabled (pi_modifiers (instance_of demo_world)) ''inner''"
    "''flip'' \<in> m_name ` set (pi_modifiers (instance_of demo_world))" "\<not> d_flipped ?d" "m_boundariesElement flip_default = Some Viewport"
    by (simp_all add: demo_defaults isModifierEnabled_def instance_of_def demo_world_def demo_data_def)
  moreover have "getBoundaries (view (instance_of demo_world) ?d) (pi_popper (instance_of demo_world)) (pi_reference (instance_of demo_world)) (m_padding flip_default) Viewport = Some bd"
    using bd(1) by (simp add: instance_of_def demo_world_def demo_defaults view_def)
  ultimately show ?thesis
    using flip_outcome [OF _ _ _ _ _ _ d', of Viewport bd] d' o v unfolding pl b option.case by (simp add: b)
qed


declare attachToScrollParents.simps [code]

lemma demo_run:
  "map_option (\<lambda>w. (length (calls w), listeners w, tasks w))
     (new_Popper 3 4 popper_Defaults (\<lambda>_. demo_browser) demo_page \<bind> popper_steps [RunTask, Fires TWindow ''scroll'', RunFrame, RunTask])
   = Some (2, [(TWindow, ''scroll''), (TWindow, ''resize'')], 0)"
  by code_simp

theorem popper_listeners_witness:
  "\<exists>w0 w. new_Popper 3 4 popper_Defaults (\<lambda>_. demo_browser) demo_page = Some w0
     \<and> popper_steps [RunTask, Fires TWindow ''scroll'', RunFrame, RunTask] w0 = Some w
     \<and> set (listeners w) = (if eventsEnabled w then insert (TWindow, ''resize'') ((\<lambda>t. (t, ''scroll'')) ` set (scrollParents w)) else {})"
proof -
  obtain w0 w where w: "new_Popper 3 4 popper_Defaults (\<lambda>_. demo_browser) demo_page = Some w0"
    "popper_steps [RunTask, Fires TWindow ''scroll'', RunFrame, RunTask] w0 = Some w"
    using demo_run by (auto simp: bind_eq_Some_conv)
  with popper_listeners [OF w] show ?thesis by blast
qed

theorem popper_callbacks_witness:
  "\<exists>w0 w. new_Popper 3 4 popper_Defaults (\<lambda>_. demo_browser) demo_page = Some w0
     \<and> popper_steps [RunTask, Fires TWindow ''scroll'', RunFrame, RunTask] w0 = Some w
     \<and> tasks w \<le> 1 \<and> (\<exists>d ds. calls w = OnCreate d # map OnUpdate ds)"
proof -
  obtain w0 w where w: "new_Popper 3 4 popper_Defaults (\<lambda>_. demo_browser) demo_page = Some w0"
    "popper_steps [RunTask, Fires TWindow ''scroll'', RunFrame, RunTask] w0 = Some w" "length (calls w) = 2"
    using demo_run by (auto simp: bind_eq_Some_conv)
  with popper_callbacks [OF w(1,2)] show ?thesis by auto
qed

theorem destroyed_inert_witness:
  "\<exists>w1 w2. destroy demo_world = Some w1 \<and> popper_steps [Update, RunTask] w1 = Some w2
     \<and> isDestroyed w2 \<and> calls w2 = calls w1 \<and> pw_page w2 = pw_page w1"
proof -
  have "map_option isDestroyed (destroy demo_world \<bind> popper_steps [Update, RunTask]) = Some True" by code_simp
  then obtain w1 w2 where w: "destroy demo_world = Some w1" "popper_steps [Update, RunTask] w1 = Some w2"
    by (auto simp: bind_eq_Some_conv)
  have "Destroy \<notin> set [Update, RunTask]" by simp
  from destroyed_inert [OF w(1) this w(2)] w show ?thesis by blast
qed

end
