(* ===== verification/Spec2Isabelle.thy ===== *)
theory Spec2Isabelle
  imports Decompress W3c_Client Bs_Alert Bs_Button Bs_Carousel Bs_Collapse Bs_Dropdown Bs_Modal Bs_Tooltip Bs_Scrollspy Bs_Tab Popper
begin

text \<open>
  The JavaScript of the VISSR repository (a reference implementation of the COVESA Vehicle Information
  Service Specification): what runs in the browser when a client talks to a vehicle server. The Go server,
  the feeders and the other tools are outside this development.

  \<^bold>\<open>The program's parts.\<close> The JavaScript client of \<open>client/client-1.0/Javascript\<close> decodes compressed
  messages: \<open>w3cdecompress.js\<close> walks over the codes of a message and looks keywords and VSS paths up in
  the tables of \<open>uuiddata.js\<close> and \<open>vsspathlist.js\<close>. The demo pages of \<open>client/w3cDemo\<close> load \<open>w3c-client.js\<close>
  with \<open>ws-w3c.js\<close> or \<open>rest-w3c.js\<close>, which send requests and receive messages, show them in log lists and
  write the speed into a hidden input; \<open>speedometer.js\<close> listens to that input and moves the needle. The
  pages are laid out with the Bootstrap 4.0.0 components of \<open>bootstrap.js\<close>; menus and tips are placed by the
  Popper library, which \<open>bootstrap.bundle.js\<close> carries.

  \<^bold>\<open>Where each part is modelled.\<close>
  \<^item> \<open>Prelude\<close>: numbers with NaN, 32-bit conversions, decimal printing, the string and array functions
    of the language, and generic lemmas; the collections \<open>js_simps\<close> and \<open>dom_simps\<close>.
  \<^item> \<open>Path_List\<close>: the tables \<open>keywordlist\<close> and \<open>uuidlist\<close> (in three parts), entry by entry.
  \<^item> \<open>Decompress\<close>: \<open>decompressMessage\<close>, its loop \<open>decompress_loop\<close> and one iteration \<open>decompress_step\<close>,
    with the timestamp and value branches.
  \<^item> \<open>Json\<close>: \<open>JSON.parse\<close>, \<open>JSON.stringify\<close> and the conversion to strings.
  \<^item> \<open>Speedometer\<close>: \<open>addSpeedometer\<close> with its options, style sheet and scale (\<open>createIndicators\<close>) and the
    change handler \<open>changePosition\<close>; a \<open>meter\<close> is what the closure and the page keep for one gauge.
  \<^item> \<open>W3c_Client\<close>: the three client classes over a record of the page, \<open>client_page\<close>.
  \<^item> \<open>Dom\<close>: the document (tree, classes, attributes, styles, data, focus, the history of events) and
    the jQuery operations on it. The record \<open>env\<close> holds what the code does not determine: which events
    the page prevents, the selector engine, layout, random draws, Popper. No operation changes it.
  \<^item> \<open>Bs_Util\<close>: the module \<open>Util\<close> and a \<open>world\<close>: a document, the objects of one component by element,
    and the pending handlers, timers and callbacks. A callback is a value of a datatype of its component,
    and the component's \<open>run\<close> function says what it does; \<open>tick_step\<close> is a move of the browser.
  \<^item> \<open>Bs_Alert\<close>, \<open>Bs_Button\<close>, \<open>Bs_Carousel\<close>, \<open>Bs_Collapse\<close>, \<open>Bs_Dropdown\<close>, \<open>Bs_Modal\<close>, \<open>Bs_Tooltip\<close> (with
    Popover), \<open>Bs_Scrollspy\<close>, \<open>Bs_Tab\<close> (with the version check at the end of the file): one theory per component, with
    a record for the object, a definition per method, static function and handler, the plugin function
    \<open>_jQueryInterface\<close> and the data API handlers. Definitions keep the source's names, with the component
    in front where names would clash.
  \<^item> \<open>Js_Number\<close>: texts read as numbers (\<open>Number\<close>, \<open>parseFloat\<close>), shared by the gauge and Popper.
  \<^item> \<open>Popper_Geometry\<close>, \<open>Popper_Offset\<close>, \<open>Popper_Modifiers\<close>, \<open>Popper\<close>: the library of that name, from what it measures
    over placements and offset texts to the ten modifiers and the class itself. A \<open>browser\<close> is what the
    page looks like to the code; \<open>popper_data\<close> is the object the modifiers hand on; a \<open>popper_world\<close> is one
    instance with its listeners, scheduled updates and callbacks, and \<open>popper_step\<close> one call or browser move.

  \<^bold>\<open>What the lemmas show.\<close> For the decoder: it returns the text of any sequence of well-formed tokens, and
  what it does with path indices, unsigned values and adjacent objects. For the clients: messages survive
  printing and parsing; three methods of the web socket client always throw; a received speed moves
  the needle to its mark, below. For the gauge: the needle stays on the scale and agrees with the marks,
  and exactly the marks up to the reading are bright. For Bootstrap: freshness and termination of
  \<open>getUID\<close>, the option check, exclusivity (radio buttons, carousel items, accordion panels,
  dropdowns, tabs), invariants under any order of calls and browser moves (alert, collapse, carousel,
  modal), the refinement of a phase machine by the modal, agreement of scroll spy with a
  declarative search, the round trip of the modal's scrollbar adjustments, the walk of the arrow keys, the
  life of a tooltip, and the error paths. For Popper: an update comes to its end and writes a place at which
  popper and reference touch, a popper that fits is kept inside its boundaries, what a flip and an automatic
  placement choose, offset texts survive printing and parsing, listeners and callbacks under any
  order of calls, and that a destroyed instance is inert. The locales \<open>transition_host\<close>, \<open>callback_invariant\<close> and
  \<open>handler_invariant\<close> of \<open>Bs_Util\<close> hold the contract between the transition helpers and a component's
  callbacks, \<open>reader\<close> of \<open>Json\<close> the one between a printer and a parser, and \<open>step_invariant\<close> of the prelude what
  a step function has to keep for a property to hold after every sequence of steps; each is interpreted on the
  definitions of the code.

  \<^bold>\<open>Bounds and fuel.\<close> Ancestors of an element are followed for as many steps as the document has elements,
  which no chain of distinct elements exceeds. The carousel's \<open>to\<close> calls itself from a handler of the
  \<open>slid\<close> event that is taken off when it runs, so its depth \<open>to_depth\<close> is the number of such handlers. The JSON parser has fuel twice the length
  of the text plus one: of two nested calls at least one consumes a character. All other recursions are
  structural or have a termination proof; the loop of the gauge's scale is infinite for a zero division
  value and that case is \<open>None\<close>. The walks up the tree in Popper are partial functions into \<open>option\<close>; that
  they end is shown for the scroll parent and, through the measurements an update needs, for its whole run.

  \<^bold>\<open>Not modelled.\<close> Floating-point rounding; texts and inner elements of templates (a tip's content is kept
  in its object); scroll positions as state; the empty iOS listeners; handlers of the page that call
  back into the components; the \<open>noConflict\<close> functions and the static getters of constants; modifiers of
  Popper with functions of the caller. The copy of the Bootstrap components in \<open>bootstrap.bundle.js\<close>
  repeats \<open>bootstrap.js\<close>. The scripts of the tutorial's theme and the minified third-party libraries have
  no model. The Go sources, the Android demo and the generated protobuf code are not JavaScript.
\<close>

section \<open>From the socket to the needle\<close>




end
